(* ===== verification/Prelude.thy ===== *)
theory Prelude
  imports Main "HOL-Library.Word" "HOL-Library.Multiset"
begin

text \<open>
  Shared vocabulary of the development: the machine integers of the Rust sources, the
  result type that stands for \<open>anyhow::Result\<close> with its early return, the instants of the
  \<open>time\<close> crate, and the generic lemmas the components share.
\<close>

section \<open>Machine integers\<close>

type_synonym u8 = "8 word"
type_synonym u16 = "16 word"
type_synonym u32 = "32 word"
type_synonym u64 = "64 word"
type_synonym i16 = "16 word"
type_synonym i32 = "32 word"

named_theorems word_facts "conversions between the integer widths the sources use"

lemma sint_word_of_int_16 [word_facts]:
  "- 32768 \<le> k \<Longrightarrow> k \<le> 32767 \<Longrightarrow> sint (word_of_int k :: 16 word) = k"
  by (simp add: sint_sbintrunc' signed_take_bit_int_eq_self)

lemma sint_word_of_int_32 [word_facts]:
  "- 2147483648 \<le> k \<Longrightarrow> k \<le> 2147483647 \<Longrightarrow> sint (word_of_int k :: 32 word) = k"
  by (simp add: sint_sbintrunc' signed_take_bit_int_eq_self)

section \<open>Results and early returns\<close>

type_synonym ('e, 'a) result = "'e + 'a"

text \<open>Rust's \<open>?\<close> operator: an error returns at once, a value goes on.\<close>

definition and_then :: "('e, 'a) result \<Rightarrow> ('a \<Rightarrow> ('e, 'b) result) \<Rightarrow> ('e, 'b) result" where
  "and_then r f = (case r of Inl e \<Rightarrow> Inl e | Inr a \<Rightarrow> f a)"

definition is_ok :: "('e, 'a) result \<Rightarrow> bool" where
  "is_ok r = (case r of Inl _ \<Rightarrow> False | Inr _ \<Rightarrow> True)"

definition ok_or :: "'a option \<Rightarrow> 'e \<Rightarrow> ('e, 'a) result" where
  "ok_or x e = (case x of None \<Rightarrow> Inl e | Some a \<Rightarrow> Inr a)"

definition unwrap_or :: "'a option \<Rightarrow> 'a \<Rightarrow> 'a" where
  "unwrap_or x d = (case x of None \<Rightarrow> d | Some a \<Rightarrow> a)"

lemma and_then_simps [simp]:
  "and_then (Inl e) f = Inl e"
  "and_then (Inr a) f = f a"
  by (simp_all add: and_then_def)

lemma and_then_Inr_iff: "and_then r f = Inr b \<longleftrightarrow> (\<exists>a. r = Inr a \<and> f a = Inr b)"
  by (cases r) simp_all

lemma and_then_Inl_iff:
  "and_then r f = Inl e \<longleftrightarrow> r = Inl e \<or> (\<exists>a. r = Inr a \<and> f a = Inl e)"
  by (cases r) simp_all

lemma and_then_split:
  "P (and_then r f) \<longleftrightarrow> (\<forall>e. r = Inl e \<longrightarrow> P (Inl e)) \<and> (\<forall>a. r = Inr a \<longrightarrow> P (f a))"
  by (cases r) simp_all

lemma is_ok_simps [simp]: "is_ok (Inl e) = False" "is_ok (Inr a) = True"
  by (simp_all add: is_ok_def)

lemma is_ok_iff: "is_ok r \<longleftrightarrow> (\<exists>a. r = Inr a)"
  by (cases r) simp_all

lemma is_ok_and_then: "is_ok (and_then r f) \<longleftrightarrow> (\<exists>a. r = Inr a \<and> is_ok (f a))"
  by (cases r) simp_all

lemma ok_or_simps [simp]: "ok_or None e = Inl e" "ok_or (Some a) e = Inr a"
  by (simp_all add: ok_or_def)

lemma ok_or_Inr_iff: "ok_or x e = Inr a \<longleftrightarrow> x = Some a"
  by (cases x) simp_all

lemma unwrap_or_simps [simp]: "unwrap_or None d = d" "unwrap_or (Some a) d = a"
  by (simp_all add: unwrap_or_def)

lemmas result_facts = and_then_Inr_iff and_then_Inl_iff is_ok_and_then ok_or_Inr_iff

text \<open>The same for operations that also change a state, whatever their result.\<close>

definition then_do ::
  "('e, 'a) result \<times> 's \<Rightarrow> ('a \<Rightarrow> 's \<Rightarrow> ('e, 'b) result \<times> 's) \<Rightarrow> ('e, 'b) result \<times> 's" where
  "then_do r f = (case r of (Inl e, s) \<Rightarrow> (Inl e, s) | (Inr a, s) \<Rightarrow> f a s)"

lemma then_do_simps [simp]:
  "then_do (Inl e, s) f = (Inl e, s)"
  "then_do (Inr a, s) f = f a s"
  by (simp_all add: then_do_def)

lemma then_do_Inr_iff:
  "then_do r f = (Inr b, s') \<longleftrightarrow> (\<exists>a s. r = (Inr a, s) \<and> f a s = (Inr b, s'))"
  by (cases r; cases "fst r") auto

section \<open>Instants and durations\<close>

text \<open>
  \<open>time::OffsetDateTime\<close> compares, subtracts and converts by the instant it denotes, so it is
  modelled by its \<open>unix_timestamp_nanos\<close> (an \<open>i128\<close> that the crate's year range keeps far from
  overflow). A \<open>std::time::Duration\<close> is its number of nanoseconds.
\<close>

datatype OffsetDateTime = OffsetDateTime (unix_timestamp_nanos: int)

instantiation OffsetDateTime :: linorder
begin

definition less_eq_OffsetDateTime :: "OffsetDateTime \<Rightarrow> OffsetDateTime \<Rightarrow> bool" where
  "less_eq_OffsetDateTime s t = (unix_timestamp_nanos s \<le> unix_timestamp_nanos t)"

definition less_OffsetDateTime :: "OffsetDateTime \<Rightarrow> OffsetDateTime \<Rightarrow> bool" where
  "less_OffsetDateTime s t = (unix_timestamp_nanos s < unix_timestamp_nanos t)"

instance
  by standard
    (auto simp: less_eq_OffsetDateTime_def less_OffsetDateTime_def OffsetDateTime.expand)

end

type_synonym Duration = nat

definition duration_from_secs :: "nat \<Rightarrow> Duration" where
  "duration_from_secs s = s * 1000000000"

text \<open>The test \<open>now - t > max_age\<close> of a signed difference against an unsigned duration.\<close>

definition elapsed_exceeds :: "OffsetDateTime \<Rightarrow> OffsetDateTime \<Rightarrow> Duration \<Rightarrow> bool" where
  "elapsed_exceeds now t d = (unix_timestamp_nanos now - unix_timestamp_nanos t > int d)"

lemma elapsed_exceeds_mono:
  "elapsed_exceeds now t d \<Longrightarrow> now \<le> later \<Longrightarrow> elapsed_exceeds later t d"
  by (simp add: elapsed_exceeds_def less_eq_OffsetDateTime_def)

section \<open>Lists\<close>

lemma fold_preserves:
  assumes "\<And>x s. x \<in> set xs \<Longrightarrow> I s \<Longrightarrow> I (f x s)" and "I s"
  shows "I (fold f xs s)"
  using assms by (induction xs arbitrary: s) auto


end
