(* ===== verification/Floats.thy ===== *)
theory Floats
  imports Complex_Main Prelude
begin

text \<open>
  IEEE 754 binary64 and binary32 as Rust uses them: bit patterns at their width, the
  comparisons, \<open>clamp\<close>, the integer test on \<open>fract()\<close>, the saturating \<open>as\<close> casts to integers, the
  rounding \<open>as\<close> casts between the formats and from integers. All operations compute on bit
  patterns; \<open>f64_real\<close> and \<open>f32_real\<close> give the real number a finite pattern denotes, and the
  lemmas tie the operations to it.
\<close>

section \<open>Binary64 patterns\<close>

datatype f64 = F64 (f64_bits: "64 word")
datatype f32 = F32 (f32_bits: "32 word")

text \<open>
  The pattern without its sign: exponent field above 52 bits of fraction. The same number
  orders the values of one sign, which \<open>mag_units_strict_mono\<close> shows below.
\<close>

definition f64_mag :: "f64 \<Rightarrow> nat" where
  "f64_mag x = unat (f64_bits x) mod 2 ^ 63"

definition f64_neg :: "f64 \<Rightarrow> bool" where
  "f64_neg x \<longleftrightarrow> 2 ^ 63 \<le> unat (f64_bits x)"

definition f64_inf_mag :: nat where
  "f64_inf_mag = 2047 * 2 ^ 52"

definition f64_is_nan :: "f64 \<Rightarrow> bool" where
  "f64_is_nan x \<longleftrightarrow> f64_inf_mag < f64_mag x"

definition f64_is_finite :: "f64 \<Rightarrow> bool" where
  "f64_is_finite x \<longleftrightarrow> f64_mag x < f64_inf_mag"

definition f64_key :: "f64 \<Rightarrow> int" where
  "f64_key x = (if f64_neg x then - int (f64_mag x) else int (f64_mag x))"

definition f64_lt :: "f64 \<Rightarrow> f64 \<Rightarrow> bool" where
  "f64_lt x y \<longleftrightarrow> \<not> f64_is_nan x \<and> \<not> f64_is_nan y \<and> f64_key x < f64_key y"

definition f64_le :: "f64 \<Rightarrow> f64 \<Rightarrow> bool" where
  "f64_le x y \<longleftrightarrow> \<not> f64_is_nan x \<and> \<not> f64_is_nan y \<and> f64_key x \<le> f64_key y"

definition f64_eq :: "f64 \<Rightarrow> f64 \<Rightarrow> bool" where
  "f64_eq x y \<longleftrightarrow> \<not> f64_is_nan x \<and> \<not> f64_is_nan y \<and> f64_key x = f64_key y"

text \<open>\<open>f64::clamp\<close> (its assertion \<open>min \<le> max\<close> holds at every call of the sources).\<close>

definition f64_clamp :: "f64 \<Rightarrow> f64 \<Rightarrow> f64 \<Rightarrow> f64" where
  "f64_clamp x lo hi =
     (let y = (if f64_lt x lo then lo else x)
      in if f64_lt hi y then hi else y)"

section \<open>Magnitudes\<close>

text \<open>The value of a finite magnitude in units of \<open>2 ^ (-1074)\<close>, the least positive binary64.\<close>

definition mag_units :: "nat \<Rightarrow> nat" where
  "mag_units m =
     (if m div 2 ^ 52 = 0 then m
      else (2 ^ 52 + m mod 2 ^ 52) * 2 ^ (m div 2 ^ 52 - 1))"

text \<open>A constant of its own, so that no proof expands the power.\<close>

definition unit_exp :: nat where
  "unit_exp = 1074"

definition f64_real :: "f64 \<Rightarrow> real" where
  "f64_real x = (if f64_neg x then - 1 else 1) * real (mag_units (f64_mag x)) / 2 ^ unit_exp"

definition mag_trunc :: "nat \<Rightarrow> nat" where
  "mag_trunc m =
     (let e = m div 2 ^ 52; s = 2 ^ 52 + m mod 2 ^ 52
      in if e < 1023 then 0
         else if e < 1075 then s div 2 ^ (1075 - e)
         else s * 2 ^ (e - 1075))"

definition mag_integral :: "nat \<Rightarrow> bool" where
  "mag_integral m \<longleftrightarrow>
     (let e = m div 2 ^ 52; s = 2 ^ 52 + m mod 2 ^ 52
      in if e < 1023 then m = 0
         else e < 1075 \<longrightarrow> s mod 2 ^ (1075 - e) = 0)"

text \<open>Truncation towards zero of a finite pattern, and the test \<open>x.fract() == 0.0\<close>.\<close>

definition f64_trunc :: "f64 \<Rightarrow> int" where
  "f64_trunc x = (if f64_neg x then - int (mag_trunc (f64_mag x)) else int (mag_trunc (f64_mag x)))"

definition f64_fract_is_zero :: "f64 \<Rightarrow> bool" where
  "f64_fract_is_zero x \<longleftrightarrow> f64_is_finite x \<and> mag_integral (f64_mag x)"

text \<open>Float to integer casts: not a number is 0, out of range saturates.\<close>

definition saturate :: "int \<Rightarrow> int \<Rightarrow> f64 \<Rightarrow> int" where
  "saturate lo hi x = (if f64_is_nan x then 0 else max lo (min hi (f64_trunc x)))"

definition f64_as_i16 :: "f64 \<Rightarrow> i16" where
  "f64_as_i16 x = word_of_int (saturate (- 32768) 32767 x)"

definition f64_as_i32 :: "f64 \<Rightarrow> i32" where
  "f64_as_i32 x = word_of_int (saturate (- 2147483648) 2147483647 x)"

section \<open>Rounding casts\<close>

text \<open>Round \<open>s / 2 ^ k\<close> to the nearest integer, ties to even.\<close>

definition round_even :: "nat \<Rightarrow> nat \<Rightarrow> nat" where
  "round_even s k =
     (let q = s div 2 ^ k; r = s mod 2 ^ k
      in if 2 * r < 2 ^ k \<or> (2 * r = 2 ^ k \<and> even q) then q else q + 1)"

text \<open>
  \<open>f64 as f32\<close>: the significand loses \<open>k\<close> bits, 29 in the normal range of binary32 and more below
  it; a carry moves into the exponent field by itself, and whatever reaches the infinite
  exponent is infinity. A not-a-number gives the quiet one (Rust leaves its payload open).
\<close>

definition f32_inf_mag :: nat where
  "f32_inf_mag = 255 * 2 ^ 23"

definition mag_to_f32 :: "nat \<Rightarrow> nat" where
  "mag_to_f32 m =
     (let e = max 1 (m div 2 ^ 52);
          s = (if m div 2 ^ 52 = 0 then m else 2 ^ 52 + m mod 2 ^ 52);
          k = max 29 (926 - e)
      in min f32_inf_mag ((k + e - 926) * 2 ^ 23 + round_even s k))"

definition f64_to_f32 :: "f64 \<Rightarrow> f32" where
  "f64_to_f32 x =
     (if f64_is_nan x then F32 0x7FC00000
      else F32 (of_nat ((if f64_neg x then 2 ^ 31 else 0)
                 + (if f64_is_finite x then mag_to_f32 (f64_mag x) else f32_inf_mag))))"

definition f32_mag :: "f32 \<Rightarrow> nat" where
  "f32_mag x = unat (f32_bits x) mod 2 ^ 31"

definition f32_neg :: "f32 \<Rightarrow> bool" where
  "f32_neg x \<longleftrightarrow> 2 ^ 31 \<le> unat (f32_bits x)"

text \<open>Integer to float (\<open>u64 as f64\<close>, \<open>i64 as f64\<close>), rounding to nearest even.\<close>

fun bit_len :: "nat \<Rightarrow> nat" where
  "bit_len n = (if n = 0 then 0 else Suc (bit_len (n div 2)))"

declare bit_len.simps [simp del]

definition mag_of_nat :: "nat \<Rightarrow> nat" where
  "mag_of_nat n =
     (if n = 0 then 0
      else let l = bit_len n
           in (l + 1021) * 2 ^ 52 +
              (if l \<le> 53 then n * 2 ^ (53 - l) else round_even n (l - 53)))"

definition f64_of_int :: "int \<Rightarrow> f64" where
  "f64_of_int i = F64 (of_nat ((if i < 0 then 2 ^ 63 else 0) + mag_of_nat (nat \<bar>i\<bar>)))"


section \<open>Evaluation on literals\<close>

lemma bit_len_rec: "0 < n \<Longrightarrow> bit_len n = Suc (bit_len (n div 2))"
  by (subst bit_len.simps) simp

lemma bit_len_eval:
  "bit_len 0 = 0" "bit_len (Suc 0) = Suc 0"
  "bit_len (numeral k) = Suc (bit_len (numeral k div 2))"
  by (simp_all add: bit_len.simps [of 0] bit_len.simps [of "Suc 0"] bit_len_rec)

lemmas float_eval =
  f64_mag_def f64_neg_def f64_inf_mag_def f64_is_nan_def f64_is_finite_def f64_key_def
  f64_lt_def f64_le_def f64_eq_def f64_clamp_def mag_trunc_def mag_integral_def f64_trunc_def
  f64_fract_is_zero_def saturate_def f64_as_i16_def f64_as_i32_def round_even_def
  f32_inf_mag_def mag_to_f32_def f64_to_f32_def f32_mag_def f32_neg_def mag_of_nat_def
  f64_of_int_def Let_def bit_len_eval

section \<open>Order\<close>

lemma mag_units_upper: "mag_units m < 2 ^ 53 * 2 ^ (m div 2 ^ 52 - 1)"
proof (cases "m div 2 ^ 52 = 0")
  case True
  then have "m < 2 ^ 52" by (simp add: div_eq_0_iff)
  with True show ?thesis by (simp add: mag_units_def)
next
  case False
  have "m mod 2 ^ 52 < (2::nat) ^ 52" by simp
  then have "2 ^ 52 + m mod 2 ^ 52 < (2::nat) ^ 53" by simp
  with False show ?thesis by (simp add: mag_units_def del: power_Suc)
qed

lemma mag_units_lower:
  "m div 2 ^ 52 \<noteq> 0 \<Longrightarrow> 2 ^ 52 * 2 ^ (m div 2 ^ 52 - 1) \<le> mag_units m"
  by (simp add: mag_units_def)

lemma mag_units_strict_mono:
  assumes "a < b"
  shows "mag_units a < mag_units b"
proof (cases "a div 2 ^ 52 = b div 2 ^ 52")
  case True
  then have "a mod 2 ^ 52 < b mod 2 ^ 52"
    using assms by (metis div_mult_mod_eq nat_add_left_cancel_less)
  with True show ?thesis
    using assms by (simp add: mag_units_def)
next
  case False
  with assms have lt: "a div 2 ^ 52 < b div 2 ^ 52"
    by (meson div_le_mono le_neq_implies_less less_imp_le)
  show ?thesis
  proof (cases "a div 2 ^ 52 = 0")
    case True
    then have "mag_units a < 2 ^ 52 * 2 ^ 0"
      by (simp add: mag_units_def div_eq_0_iff)
    also have "\<dots> \<le> (2::nat) ^ 52 * 2 ^ (b div 2 ^ 52 - 1)"
      by (intro mult_le_mono2 power_increasing) simp_all
    finally show ?thesis using mag_units_lower [of b] lt by linarith
  next
    case False
    with lt have "Suc (a div 2 ^ 52 - 1) \<le> b div 2 ^ 52 - 1" by linarith
    then have "(2::nat) ^ 52 * 2 ^ Suc (a div 2 ^ 52 - 1) \<le> 2 ^ 52 * 2 ^ (b div 2 ^ 52 - 1)"
      by (intro mult_le_mono2 power_increasing) simp_all
    then show ?thesis
      using mag_units_upper [of a] mag_units_lower [of b] lt by simp
  qed
qed

lemma mag_units_mono: "a \<le> b \<Longrightarrow> mag_units a \<le> mag_units b"
  by (metis le_less mag_units_strict_mono)

lemma mag_units_less_iff: "mag_units a < mag_units b \<longleftrightarrow> a < b"
  by (metis leD linorder_le_less_linear mag_units_mono mag_units_strict_mono)

lemma mag_units_0 [simp]: "mag_units 0 = 0"
  by (simp add: mag_units_def)

lemma mag_units_eq_0_iff [simp]: "mag_units m = 0 \<longleftrightarrow> m = 0"
  by (metis mag_units_0 mag_units_less_iff neq0_conv)

text \<open>The signed units of a pattern, whose order is both the order of the keys and of the reals.\<close>

definition signed_units :: "f64 \<Rightarrow> int" where
  "signed_units x =
     (if f64_neg x then - int (mag_units (f64_mag x)) else int (mag_units (f64_mag x)))"

lemma f64_real_signed_units: "f64_real x = real_of_int (signed_units x) / 2 ^ unit_exp"
  by (simp add: f64_real_def signed_units_def)

lemma neg_less_pos_iff: "- int a < int b \<longleftrightarrow> a \<noteq> 0 \<or> b \<noteq> 0"
  by linarith

lemma signed_units_less_iff: "signed_units x < signed_units y \<longleftrightarrow> f64_key x < f64_key y"
  by (simp add: signed_units_def f64_key_def mag_units_less_iff neg_less_pos_iff)

lemma f64_lt_iff_real:
  assumes "f64_is_finite x" and "f64_is_finite y"
  shows "f64_lt x y \<longleftrightarrow> f64_real x < f64_real y"
proof -
  have "f64_lt x y \<longleftrightarrow> signed_units x < signed_units y"
    using assms by (simp add: f64_lt_def f64_is_nan_def f64_is_finite_def signed_units_less_iff)
  then show ?thesis
    by (simp add: f64_real_signed_units divide_less_cancel)
qed

lemma f64_le_iff_real:
  assumes "f64_is_finite x" and "f64_is_finite y"
  shows "f64_le x y \<longleftrightarrow> f64_real x \<le> f64_real y"
proof -
  have "f64_le x y \<longleftrightarrow> \<not> f64_lt y x"
    using assms by (auto simp: f64_lt_def f64_le_def f64_is_nan_def f64_is_finite_def)
  with assms show ?thesis by (simp add: f64_lt_iff_real not_less)
qed

section \<open>Truncation\<close>

lemma scale_div_below:
  assumes "k \<le> n"
  shows "(s :: nat) * 2 ^ k div 2 ^ n = s div 2 ^ (n - k)"
proof -
  have "(2::nat) ^ n = 2 ^ (n - k) * 2 ^ k" using assms by (simp flip: power_add)
  then show ?thesis by simp
qed

lemma scale_div_above:
  assumes "n \<le> k"
  shows "(s :: nat) * 2 ^ k div 2 ^ n = s * 2 ^ (k - n)"
proof -
  have "(2::nat) ^ k = 2 ^ (k - n) * 2 ^ n" using assms by (simp flip: power_add)
  then show ?thesis by (simp add: mult.assoc [symmetric])
qed

lemma scale_dvd_below:
  assumes "k \<le> n"
  shows "(2::nat) ^ n dvd s * 2 ^ k \<longleftrightarrow> 2 ^ (n - k) dvd s"
proof -
  have "(2::nat) ^ n = 2 ^ (n - k) * 2 ^ k" using assms by (simp flip: power_add)
  then show ?thesis by simp
qed

lemma scale_dvd_above: "n \<le> k \<Longrightarrow> (2::nat) ^ n dvd s * 2 ^ k"
  by (simp add: dvd_mult le_imp_power_dvd)

lemma unit_exp_simps [simp]:
  "k \<le> unit_exp \<longleftrightarrow> k \<le> 1074" "unit_exp \<le> k \<longleftrightarrow> 1074 \<le> k"
  "unit_exp - k = 1074 - k" "k - unit_exp = k - 1074"
  by (simp_all add: unit_exp_def)

lemma mag_units_small:
  assumes "m div 2 ^ 52 < 1023"
  shows "mag_units m < 2 ^ unit_exp"
proof -
  have "(2::nat) ^ 53 * 2 ^ (m div 2 ^ 52 - 1) = 2 ^ (53 + (m div 2 ^ 52 - 1))"
    by (simp only: power_add)
  also have "\<dots> \<le> 2 ^ unit_exp"
    using assms by (intro power_increasing) simp_all
  finally show ?thesis using mag_units_upper [of m] by linarith
qed

lemma mag_trunc_units: "mag_trunc m = mag_units m div 2 ^ unit_exp"
  using mag_units_small [of m]
  by (auto simp: mag_trunc_def mag_units_def Let_def scale_div_below scale_div_above)

lemma mag_integral_units: "mag_integral m \<longleftrightarrow> 2 ^ unit_exp dvd mag_units m"
proof (cases "m div 2 ^ 52 < 1023")
  case True
  then have "mag_units m < 2 ^ unit_exp" by (rule mag_units_small)
  then have "2 ^ unit_exp dvd mag_units m \<longleftrightarrow> m = 0" by (auto dest: dvd_imp_le)
  with True show ?thesis by (simp add: mag_integral_def)
next
  case False
  then show ?thesis
    by (cases "m div 2 ^ 52 < 1075")
      (simp_all add: mag_integral_def mag_units_def Let_def scale_dvd_below scale_dvd_above
        mod_eq_0_iff_dvd)
qed

lemma mag_trunc_mono: "a \<le> b \<Longrightarrow> mag_trunc a \<le> mag_trunc b"
  by (simp add: mag_trunc_units div_le_mono mag_units_mono)

lemma mag_trunc_0 [simp]: "mag_trunc 0 = 0"
  by (simp add: mag_trunc_def)

lemma pos_le_neg_iff: "int a \<le> - int b \<longleftrightarrow> a = 0 \<and> b = 0"
  by linarith

lemma f64_trunc_mono:
  assumes "f64_key x \<le> f64_key y"
  shows "f64_trunc x \<le> f64_trunc y"
  using assms mag_trunc_mono [of "f64_mag x" "f64_mag y"] mag_trunc_mono [of "f64_mag y" "f64_mag x"]
  by (auto simp: f64_key_def f64_trunc_def pos_le_neg_iff split: if_splits)

text \<open>Truncation drops less than one unit, towards zero; an integral pattern loses nothing.\<close>

lemma f64_trunc_real:
  "\<bar>real_of_int (f64_trunc x)\<bar> \<le> \<bar>f64_real x\<bar>"
  "\<bar>f64_real x\<bar> < \<bar>real_of_int (f64_trunc x)\<bar> + 1"
proof -
  let ?u = "mag_units (f64_mag x)" and ?p = "(2::nat) ^ unit_exp"
  have t: "\<bar>real_of_int (f64_trunc x)\<bar> = real (?u div ?p)"
    by (simp add: f64_trunc_def mag_trunc_units)
  have r: "\<bar>f64_real x\<bar> = real ?u / real ?p"
    by (simp add: f64_real_def)
  have "real (?u div ?p) = of_int \<lfloor>real ?u / real ?p\<rfloor>"
    by (simp only: floor_divide_of_nat_eq of_int_of_nat_eq)
  then have "real (?u div ?p) \<le> real ?u / real ?p" "real ?u / real ?p < real (?u div ?p) + 1"
    by linarith+
  then show "\<bar>real_of_int (f64_trunc x)\<bar> \<le> \<bar>f64_real x\<bar>"
    "\<bar>f64_real x\<bar> < \<bar>real_of_int (f64_trunc x)\<bar> + 1"
    by (simp_all only: t r)
qed

lemma f64_trunc_integral:
  assumes "f64_fract_is_zero x"
  shows "real_of_int (f64_trunc x) = f64_real x"
proof -
  from assms obtain k where "mag_units (f64_mag x) = 2 ^ unit_exp * k"
    by (auto simp: f64_fract_is_zero_def mag_integral_units elim: dvdE)
  then show ?thesis by (simp add: f64_trunc_def f64_real_def mag_trunc_units)
qed


section \<open>Saturating casts\<close>

lemma saturate_bounds: "lo \<le> 0 \<Longrightarrow> 0 \<le> hi \<Longrightarrow> lo \<le> saturate lo hi x \<and> saturate lo hi x \<le> hi"
  by (simp add: saturate_def)

lemma f64_clamp_nan: "f64_is_nan x \<Longrightarrow> f64_clamp x lo hi = x"
  by (simp add: f64_clamp_def f64_lt_def)

text \<open>Clamping first to bounds that are integers changes no saturated result.\<close>

lemma saturate_clamp:
  assumes num: "\<not> f64_is_nan lo" "\<not> f64_is_nan hi" and le: "f64_key lo \<le> f64_key hi"
    and lo: "f64_trunc lo = a" and hi: "f64_trunc hi = b"
    and a: "l \<le> a" and b: "b \<le> h"
  shows "saturate l h (f64_clamp x lo hi) = saturate a b x"
proof (cases "f64_is_nan x")
  case True
  then show ?thesis by (simp add: f64_clamp_nan saturate_def)
next
  case False
  have ab: "a \<le> b" using f64_trunc_mono [OF le] lo hi by simp
  consider "f64_key x < f64_key lo" | "f64_key hi < f64_key x"
    | "f64_key lo \<le> f64_key x" "f64_key x \<le> f64_key hi" by linarith
  then show ?thesis
  proof cases
    case 1
    then have "f64_trunc x \<le> a" using f64_trunc_mono [of x lo] lo by simp
    with 1 show ?thesis
      using num False ab a b lo le by (simp add: f64_clamp_def f64_lt_def saturate_def)
  next
    case 2
    then have "b \<le> f64_trunc x" using f64_trunc_mono [of hi x] hi by simp
    with 2 show ?thesis
      using num False ab a b hi le by (simp add: f64_clamp_def f64_lt_def saturate_def)
  next
    case 3
    then have "a \<le> f64_trunc x" "f64_trunc x \<le> b"
      using f64_trunc_mono [of lo x] f64_trunc_mono [of x hi] lo hi by auto
    with 3 show ?thesis
      using num False ab a b by (simp add: f64_clamp_def f64_lt_def saturate_def)
  qed
qed

lemma sint_f64_as_i16 [word_facts]: "sint (f64_as_i16 x) = saturate (- 32768) 32767 x"
  using saturate_bounds [of "- 32768" 32767 x] by (simp add: f64_as_i16_def sint_word_of_int_16)

lemma sint_f64_as_i32 [word_facts]:
  "sint (f64_as_i32 x) = saturate (- 2147483648) 2147483647 x"
  using saturate_bounds [of "- 2147483648" 2147483647 x]
  by (simp add: f64_as_i32_def sint_word_of_int_32)

section \<open>Rounding\<close>

lemma round_even_le: "s \<le> q * 2 ^ k \<Longrightarrow> round_even s k \<le> q"
proof -
  assume s: "s \<le> q * 2 ^ k"
  show ?thesis
  proof (cases "s = q * 2 ^ k")
    case True
    then show ?thesis by (simp add: round_even_def Let_def)
  next
    case False
    with s have "s div 2 ^ k < q" by (simp add: less_mult_imp_div_less)
    then show ?thesis by (simp add: round_even_def Let_def)
  qed
qed

lemma round_even_exact: "round_even (q * 2 ^ k) k = q"
  by (simp add: round_even_def)

text \<open>A magnitude of at most one stays at most one when rounded to binary32.\<close>

lemma mag_to_f32_le_one:
  assumes "m \<le> 1023 * 2 ^ 52"
  shows "mag_to_f32 m \<le> 127 * 2 ^ 23"
proof -
  let ?e = "m div 2 ^ 52"
  let ?s = "if ?e = 0 then m else 2 ^ 52 + m mod 2 ^ 52"
  let ?k = "max 29 (926 - max 1 ?e)"
  have s: "?s \<le> 2 ^ 53"
  proof (cases "?e = 0")
    case True
    then show ?thesis by (simp add: div_eq_0_iff)
  next
    case False
    have "m mod 2 ^ 52 < (2::nat) ^ 52" by simp
    with False show ?thesis by simp
  qed
  show ?thesis
  proof (cases "?e = 1023")
    case True
    with assms have "m = 1023 * 2 ^ 52" by (metis div_times_less_eq_dividend le_antisym)
    then show ?thesis by (simp add: float_eval)
  next
    case False
    have e: "?e \<le> 1022" using assms False div_le_mono [OF assms, of "2 ^ 52"] by simp
    have "(2::nat) ^ 53 = 2 ^ 24 * 2 ^ 29" by simp
    also have "\<dots> \<le> 2 ^ 24 * 2 ^ ?k" by (intro mult_le_mono2 power_increasing) simp_all
    finally have "?s \<le> 2 ^ 24 * 2 ^ ?k" using s by linarith
    then have "round_even ?s ?k \<le> 2 ^ 24" by (rule round_even_le)
    moreover have "?k + max 1 ?e - 926 \<le> 125" using e by simp
    ultimately have "(?k + max 1 ?e - 926) * 2 ^ 23 + round_even ?s ?k \<le> 125 * 2 ^ 23 + 2 ^ 24"
      by (intro add_mono mult_le_mono1)
    also have "\<dots> = 127 * 2 ^ 23" by simp
    finally show ?thesis unfolding mag_to_f32_def Let_def by (rule min.coboundedI2)
  qed
qed


text \<open>The value of a binary32 magnitude in units of \<open>2 ^ (-149)\<close>.\<close>

definition mag32_units :: "nat \<Rightarrow> nat" where
  "mag32_units m =
     (if m div 2 ^ 23 = 0 then m
      else (2 ^ 23 + m mod 2 ^ 23) * 2 ^ (m div 2 ^ 23 - 1))"

definition f32_real :: "f32 \<Rightarrow> real" where
  "f32_real x = (if f32_neg x then - 1 else 1) * real (mag32_units (f32_mag x)) / 2 ^ 149"

lemma mag_to_f32_less: "mag_to_f32 m \<le> f32_inf_mag"
  by (simp add: mag_to_f32_def Let_def)

lemma f64_to_f32_parts:
  assumes "f64_is_finite x"
  shows "f32_mag (f64_to_f32 x) = mag_to_f32 (f64_mag x)"
    and "f32_neg (f64_to_f32 x) \<longleftrightarrow> f64_neg x"
proof -
  have lt: "mag_to_f32 (f64_mag x) < 2 ^ 31"
    using mag_to_f32_less [of "f64_mag x"] by (simp add: f32_inf_mag_def)
  let ?n = "(if f64_neg x then 2 ^ 31 else 0) + mag_to_f32 (f64_mag x)"
  have bits: "f32_bits (f64_to_f32 x) = of_nat ?n"
    using assms by (simp add: f64_to_f32_def f64_is_nan_def f64_is_finite_def)
  have "unat (of_nat ?n :: 32 word) = ?n"
    unfolding unat_of_nat by (rule mod_less) (use lt in simp)
  then have u: "unat (f32_bits (f64_to_f32 x)) = ?n" by (simp only: bits)
  show "f32_mag (f64_to_f32 x) = mag_to_f32 (f64_mag x)"
    unfolding f32_mag_def u using lt by simp
  show "f32_neg (f64_to_f32 x) \<longleftrightarrow> f64_neg x"
    unfolding f32_neg_def u using lt by simp
qed

lemma mag32_units_le_one:
  assumes "m \<le> 127 * 2 ^ 23"
  shows "mag32_units m \<le> 2 ^ 149"
proof (cases "m div 2 ^ 23 = 127")
  case True
  with assms have "m = 127 * 2 ^ 23" by (metis div_times_less_eq_dividend le_antisym)
  then show ?thesis by (simp add: mag32_units_def)
next
  case False
  have e: "m div 2 ^ 23 \<le> 126" using assms False div_le_mono [OF assms, of "2 ^ 23"] by simp
  have "m mod 2 ^ 23 < (2::nat) ^ 23" by simp
  then have "2 ^ 23 + m mod 2 ^ 23 \<le> (2::nat) ^ 24" by simp
  then have "(2 ^ 23 + m mod 2 ^ 23) * 2 ^ (m div 2 ^ 23 - 1) \<le> (2::nat) ^ 24 * 2 ^ 125"
    using e by (intro mult_le_mono power_increasing) simp_all
  moreover have "m div 2 ^ 23 = 0 \<Longrightarrow> m \<le> 2 ^ 149"
    by (simp add: div_eq_0_iff)
  ultimately show ?thesis by (simp add: mag32_units_def)
qed

lemma f64_to_f32_unit_interval:
  assumes "f64_is_finite x" and "\<bar>f64_key x\<bar> \<le> 1023 * 2 ^ 52"
  shows "\<bar>f32_real (f64_to_f32 x)\<bar> \<le> 1"
proof -
  have "f64_mag x \<le> 1023 * 2 ^ 52"
    using assms(2) by (simp add: f64_key_def split: if_splits)
  then have "mag32_units (f32_mag (f64_to_f32 x)) \<le> 2 ^ 149"
    using assms(1) by (simp only: f64_to_f32_parts mag_to_f32_le_one mag32_units_le_one)
  then have "real (mag32_units (f32_mag (f64_to_f32 x))) \<le> 2 ^ 149"
    by (metis of_nat_le_iff of_nat_numeral of_nat_power)
  then show ?thesis by (simp add: f32_real_def)
qed

lemma round_even_error:
  "2 * \<bar>int (round_even s k) * 2 ^ k - int s\<bar> \<le> 2 ^ k"
proof -
  let ?q = "s div 2 ^ k" and ?r = "s mod 2 ^ k"
  have s: "int s = int ?q * 2 ^ k + int ?r"
    by (simp only: of_nat_div of_nat_mod of_nat_power of_nat_numeral div_mult_mod_eq)
  have r: "int ?r < 2 ^ k"
    by (simp add: of_nat_mod)
  show ?thesis
  proof (cases "2 * ?r < 2 ^ k \<or> (2 * ?r = 2 ^ k \<and> even ?q)")
    case True
    then have "int (2 * ?r) \<le> int (2 ^ k)" unfolding of_nat_le_iff by linarith
    then have "2 * int ?r \<le> 2 ^ k" by simp
    with True show ?thesis by (simp add: round_even_def s)
  next
    case False
    then have "int (2 ^ k) \<le> int (2 * ?r)" unfolding of_nat_le_iff by linarith
    then have "(2::int) ^ k \<le> 2 * int ?r" by simp
    moreover have "int (round_even s k) * 2 ^ k - int s = 2 ^ k - int ?r"
      using False by (auto simp: round_even_def Let_def s algebra_simps)
    ultimately show ?thesis using r by simp
  qed
qed


text \<open>In the normal range of binary32 the rounded magnitude is the rounded significand, scaled.\<close>

lemma mag32_units_normal:
  assumes "2 ^ 23 \<le> n" and "n \<le> 2 ^ 24"
  shows "mag32_units (j * 2 ^ 23 + n) = n * 2 ^ j"
proof (cases "n = 2 ^ 24")
  case True
  then have "j * 2 ^ 23 + n = (j + 2) * 2 ^ 23" by simp
  then show ?thesis using True by (simp add: mag32_units_def)
next
  case False
  define f where "f = n - 2 ^ 23"
  from False assms have n: "n = 2 ^ 23 + f" and f: "f < 2 ^ 23"
    by (simp_all add: f_def)
  then have "j * 2 ^ 23 + n = Suc j * 2 ^ 23 + f" by simp
  with f show ?thesis by (simp add: mag32_units_def n)
qed

text \<open>
  The range of binary64 magnitudes from \<open>2 ^ (-126)\<close> up to where binary32 overflows:
  exponent fields 897 to 1149, one binade short of the largest.
\<close>

definition f32_normal_range :: "f64 \<Rightarrow> bool" where
  "f32_normal_range x \<longleftrightarrow> 897 * 2 ^ 52 \<le> f64_mag x \<and> f64_mag x < 1150 * 2 ^ 52"

lemma f64_to_f32_units:
  assumes "897 * 2 ^ 52 \<le> m" and "m < 1150 * 2 ^ 52"
  defines "e \<equiv> m div 2 ^ 52" and "s \<equiv> 2 ^ 52 + m mod 2 ^ 52"
  shows "mag32_units (mag_to_f32 m) = round_even s 29 * 2 ^ (e - 897)"
    and "mag_units m = s * 2 ^ (e - 1)" and "897 \<le> e"
proof -
  have e: "897 \<le> e" "e < 1150"
    using div_le_mono [OF assms(1), of "2 ^ 52"] assms(2)
    by (simp_all add: e_def less_mult_imp_div_less)
  show "897 \<le> e" by (rule e)
  show "mag_units m = s * 2 ^ (e - 1)"
    using e by (simp add: mag_units_def e_def s_def)
  let ?n = "round_even s 29"
  have "m mod 2 ^ 52 < (2::nat) ^ 52" by simp
  then have s: "2 ^ 52 \<le> s" "s \<le> 2 ^ 24 * 2 ^ 29" by (simp_all add: s_def)
  have "(2::nat) ^ 23 \<le> s div 2 ^ 29" using div_le_mono [OF s(1), of "2 ^ 29"] by simp
  then have n1: "2 ^ 23 \<le> ?n" by (simp add: round_even_def Let_def)
  have n2: "?n \<le> 2 ^ 24" using s(2) by (rule round_even_le)
  have "(e - 897) * 2 ^ 23 + ?n \<le> 252 * 2 ^ 23 + 2 ^ 24"
    using e n2 by (intro add_mono mult_le_mono1) simp_all
  also have "\<dots> \<le> f32_inf_mag" by (simp add: f32_inf_mag_def)
  finally have "mag_to_f32 m = (e - 897) * 2 ^ 23 + ?n"
    using e by (simp add: mag_to_f32_def Let_def e_def s_def)
  then show "mag32_units (mag_to_f32 m) = ?n * 2 ^ (e - 897)"
    using mag32_units_normal [OF n1 n2] by simp
qed


lemma f64_to_f32_relative_error:
  assumes "f32_normal_range x"
  shows "\<bar>f32_real (f64_to_f32 x) - f64_real x\<bar> \<le> \<bar>f64_real x\<bar> / 2 ^ 24"
proof -
  define m where "m = f64_mag x"
  define d where "d = m div 2 ^ 52 - 897"
  define s where "s = 2 ^ 52 + m mod 2 ^ 52"
  define n where "n = round_even s 29"
  from assms have range: "897 * 2 ^ 52 \<le> m" "m < 1150 * 2 ^ 52"
    by (simp_all add: f32_normal_range_def m_def)
  have fin: "f64_is_finite x"
    using range by (simp add: f64_is_finite_def f64_inf_mag_def m_def)
  have e: "m div 2 ^ 52 - 1 = d + 896"
    using f64_to_f32_units(3) [OF range] by (simp add: d_def)
  have units32: "mag32_units (f32_mag (f64_to_f32 x)) = n * 2 ^ d"
    using f64_to_f32_units(1) [OF range] f64_to_f32_parts(1) [OF fin]
    by (simp only: m_def d_def s_def n_def)
  have units64: "mag_units (f64_mag x) = s * 2 ^ (d + 896)"
    using f64_to_f32_units(2) [OF range] e by (simp only: m_def s_def)
  have f32: "\<bar>f32_real (f64_to_f32 x) - f64_real x\<bar>
      = \<bar>real (n * 2 ^ d) / 2 ^ 149 - real (s * 2 ^ (d + 896)) / 2 ^ unit_exp\<bar>"
    unfolding f32_real_def f64_real_def units32 units64 f64_to_f32_parts(2) [OF fin]
    by (cases "f64_neg x") (simp_all add: abs_minus_commute)
  have f64: "\<bar>f64_real x\<bar> = real (s * 2 ^ (d + 896)) / 2 ^ unit_exp"
    unfolding f64_real_def units64 by simp
  have u: "(2::real) ^ unit_exp = 2 ^ 896 * 2 ^ 178"
    unfolding power_add [symmetric] by (simp add: unit_exp_def)
  have scale: "real (s * 2 ^ (d + 896)) / 2 ^ unit_exp = real s * 2 ^ d / 2 ^ 178"
    unfolding u power_add by simp
  have "2 * \<bar>int n * 2 ^ 29 - int s\<bar> \<le> 2 ^ 29"
    unfolding n_def by (rule round_even_error)
  then have "\<bar>int n * 2 ^ 29 - int s\<bar> \<le> 2 ^ 28" by simp
  then have "real_of_int \<bar>int n * 2 ^ 29 - int s\<bar> \<le> real_of_int (2 ^ 28)"
    by (simp only: of_int_le_iff)
  then have err: "\<bar>real n * 2 ^ 29 - real s\<bar> \<le> 2 ^ 28" by simp
  have "real (n * 2 ^ d) / 2 ^ 149 - real s * 2 ^ d / 2 ^ 178
      = (real n * 2 ^ 29 - real s) * (2 ^ d / 2 ^ 178)"
    by (simp add: field_simps)
  then have "\<bar>f32_real (f64_to_f32 x) - f64_real x\<bar> \<le> 2 ^ 28 * (2 ^ d / 2 ^ 178)"
    using err unfolding f32 scale by (simp only: abs_mult) (intro mult_mono, simp_all)
  also have "\<dots> \<le> real s / 2 ^ 24 * (2 ^ d / 2 ^ 178)"
    by (intro mult_right_mono) (simp_all add: s_def)
  also have "\<dots> = real s * 2 ^ d / 2 ^ 178 / 2 ^ 24" by simp
  finally show ?thesis by (simp only: f64 scale)
qed

section \<open>Integers as binary64\<close>

lemma bit_len_bounds: "0 < n \<Longrightarrow> 2 ^ (bit_len n - 1) \<le> n \<and> n < 2 ^ bit_len n"
proof (induction n rule: bit_len.induct)
  case (1 n)
  show ?case
  proof (cases "n div 2 = 0")
    case True
    with "1.prems" have "n = 1" by linarith
    then show ?thesis by (simp add: bit_len_eval)
  next
    case False
    let ?l = "bit_len (n div 2)"
    from False "1.IH" "1.prems" have ih: "2 ^ (?l - 1) \<le> n div 2" "n div 2 < 2 ^ ?l" by auto
    have "0 < ?l" using False by (simp add: bit_len_rec)
    then have "(2::nat) ^ ?l = 2 * 2 ^ (?l - 1)" by (cases ?l) simp_all
    with ih have "2 ^ ?l \<le> n" "n < 2 * 2 ^ ?l" by linarith+
    with "1.prems" show ?thesis by (simp add: bit_len_rec)
  qed
qed

lemma bit_len_le: "n < 2 ^ k \<Longrightarrow> bit_len n \<le> k"
proof (cases "n = 0")
  case False
  assume "n < 2 ^ k"
  with False bit_len_bounds [of n] have "(2::nat) ^ (bit_len n - 1) < 2 ^ k" by linarith
  then have "bit_len n - 1 < k" by (rule power_less_imp_less_exp [rotated]) simp
  then show ?thesis by linarith
qed (simp add: bit_len_eval)

lemma mag_units_at: "f < 2 ^ 52 \<Longrightarrow> mag_units (f + Suc j * 2 ^ 52) = (2 ^ 52 + f) * 2 ^ j"
proof -
  assume f: "f < 2 ^ 52"
  have "(f + Suc j * 2 ^ 52) div 2 ^ 52 = Suc j" by (subst div_mult_self1) (use f in simp_all)
  moreover have "(f + Suc j * 2 ^ 52) mod 2 ^ 52 = f" by (subst mod_mult_self1) (use f in simp)
  ultimately show ?thesis by (simp only: mag_units_def) simp
qed

lemma mag_of_nat_exact:
  assumes "n < 2 ^ 53"
  shows "mag_units (mag_of_nat n) = n * 2 ^ unit_exp" and "mag_of_nat n < f64_inf_mag"
proof -
  have both: "mag_units (mag_of_nat n) = n * 2 ^ unit_exp \<and> mag_of_nat n < f64_inf_mag"
  proof (cases "n = 0")
    case False
    define l where "l = bit_len n"
    have l: "0 < l" "l \<le> 53" "2 ^ (l - 1) \<le> n" "n < 2 ^ l"
      using False bit_len_bounds [of n] bit_len_le [OF assms] by (simp_all add: l_def bit_len_rec)
    define s where "s = n * 2 ^ (53 - l)"
    have "(2::nat) ^ 52 = 2 ^ (l - 1) * 2 ^ (53 - l)" using l by (simp flip: power_add)
    also have "\<dots> \<le> s" unfolding s_def using l by (intro mult_le_mono1)
    finally have s1: "2 ^ 52 \<le> s" .
    have "s < 2 ^ l * 2 ^ (53 - l)" unfolding s_def using l by simp
    also have "\<dots> = 2 ^ 53" using l by (simp flip: power_add)
    finally have s2: "s < 2 ^ 53" .
    define f where "f = s - 2 ^ 52"
    have f: "s = 2 ^ 52 + f" "f < 2 ^ 52" using s1 s2 by (simp_all add: f_def)
    have m: "mag_of_nat n = f + Suc (l + 1021) * 2 ^ 52"
      using False l f by (simp add: mag_of_nat_def Let_def flip: l_def s_def)
    have "mag_units (mag_of_nat n) = s * 2 ^ (l + 1021)"
      unfolding m f(1) by (rule mag_units_at [OF f(2)])
    also have "\<dots> = n * 2 ^ (53 - l + (l + 1021))" by (simp only: s_def power_add mult.assoc)
    also have "53 - l + (l + 1021) = unit_exp" using l by (simp add: unit_exp_def)
    finally show ?thesis using l f(2) by (simp add: m f64_inf_mag_def)
  qed (simp add: mag_of_nat_def f64_inf_mag_def)
  then show "mag_units (mag_of_nat n) = n * 2 ^ unit_exp" "mag_of_nat n < f64_inf_mag" by auto
qed


lemma f64_assemble:
  assumes "k < 2 ^ 63"
  shows "f64_mag (F64 (of_nat ((if neg then 2 ^ 63 else 0) + k))) = k"
    and "f64_neg (F64 (of_nat ((if neg then 2 ^ 63 else 0) + k))) = neg"
proof -
  have "unat (of_nat ((if neg then 2 ^ 63 else 0) + k) :: 64 word)
      = (if neg then 2 ^ 63 else 0) + k"
    unfolding unat_of_nat by (rule mod_less) (use assms in simp)
  with assms show "f64_mag (F64 (of_nat ((if neg then 2 ^ 63 else 0) + k))) = k"
    "f64_neg (F64 (of_nat ((if neg then 2 ^ 63 else 0) + k))) = neg"
    by (simp_all only: f64_mag_def f64_neg_def f64.sel) simp_all
qed

lemma f64_of_int_exact:
  assumes "\<bar>i\<bar> < 2 ^ 53"
  shows "f64_is_finite (f64_of_int i)" and "f64_real (f64_of_int i) = real_of_int i"
    and "f64_trunc (f64_of_int i) = i" and "f64_fract_is_zero (f64_of_int i)"
proof -
  let ?n = "nat \<bar>i\<bar>" and ?x = "f64_of_int i"
  have n: "?n < 2 ^ 53" using assms by (simp add: nat_less_iff)
  note exact = mag_of_nat_exact [OF n]
  have "mag_of_nat ?n < 2 ^ 63" using exact(2) by (simp add: f64_inf_mag_def)
  from f64_assemble [OF this, of "i < 0"]
  have mag: "f64_mag ?x = mag_of_nat ?n" and neg: "f64_neg ?x \<longleftrightarrow> i < 0"
    by (simp_all only: f64_of_int_def)
  show fin: "f64_is_finite ?x" unfolding f64_is_finite_def mag by (rule exact)
  have units: "mag_units (f64_mag ?x) = ?n * 2 ^ unit_exp" unfolding mag by (rule exact)
  show "f64_real ?x = real_of_int i" unfolding f64_real_def units neg by simp
  show "f64_trunc ?x = i" unfolding f64_trunc_def mag_trunc_units units neg by simp
  show "f64_fract_is_zero ?x"
    unfolding f64_fract_is_zero_def mag_integral_units units using fin by simp
qed

end
