(* ===== verification/Message.thy ===== *)
theory Message
  imports Floats
begin

text \<open>
  The JSON message schema, \<open>src/src/message.rs\<close>: the message record, its enumerations and the
  deserialisation that the \<open>serde\<close> attributes on them ask for. A JSON text is represented by
  its syntax tree; turning text into the tree is \<open>serde_json\<close> and stays outside the model, as
  does the RFC 3339 parser of the \<open>time\<close> crate, which is the parameter \<open>rfc3339\<close>.
\<close>

section \<open>The schema\<close>

datatype DataValue = Bool bool | Number f64

datatype DataType = Float | Scaled | Normalized | SinglePoint | DoublePoint

datatype QualityField = Good | Invalid | NotTopical | Substituted | Blocked | Overflow

datatype CotField =
  Spontaneous | Periodic | BackgroundScan | Interrogated | ReturnInfoRemote | ReturnInfoLocal

record Iec104Message =
  msg_ioa :: u32
  msg_value :: DataValue
  msg_data_type :: "DataType option"
  msg_ca :: "u16 option"
  msg_quality :: QualityField
  msg_cot :: CotField
  msg_timestamp :: "OffsetDateTime option"

text \<open>The \<open>#[default]\<close> variants.\<close>

definition QualityField_default :: QualityField where
  "QualityField_default = Good"

definition CotField_default :: CotField where
  "CotField_default = Spontaneous"

section \<open>JSON syntax trees\<close>

text \<open>\<open>serde_json\<close> keeps unsigned, negative and floating-point numbers apart.\<close>

datatype json_number = PosInt u64 | NegInt "64 word" | FloatNum f64

datatype json =
    JNull
  | JBool bool
  | JNumber json_number
  | JString string
  | JArray "json list"
  | JObject "(string \<times> json) list"

datatype de_error =
    InvalidValue
  | MissingField string
  | DuplicateField string
  | InvalidLength nat
  | TrailingElements

section \<open>Field deserialisers\<close>

fun de_u32 :: "json \<Rightarrow> u32 option" where
  "de_u32 (JNumber (PosInt n)) = (if unat n < 2 ^ 32 then Some (ucast n) else None)"
| "de_u32 _ = None"

fun de_u16 :: "json \<Rightarrow> u16 option" where
  "de_u16 (JNumber (PosInt n)) = (if unat n < 2 ^ 16 then Some (ucast n) else None)"
| "de_u16 _ = None"

fun de_Option :: "(json \<Rightarrow> 'a option) \<Rightarrow> json \<Rightarrow> 'a option option" where
  "de_Option de JNull = Some None"
| "de_Option de j = map_option Some (de j)"

text \<open>A unit variant is its name, or an object with its name as only key and \<open>null\<close> below it.\<close>

fun de_unit_variant :: "(string \<Rightarrow> 'a option) \<Rightarrow> json \<Rightarrow> 'a option" where
  "de_unit_variant variant (JString s) = variant s"
| "de_unit_variant variant (JObject [(s, JNull)]) = variant s"
| "de_unit_variant variant _ = None"

text \<open>\<open>#[serde(untagged)]\<close>: the first variant whose payload type accepts the content.\<close>

fun de_DataValue :: "json \<Rightarrow> DataValue option" where
  "de_DataValue (JBool b) = Some (Bool b)"
| "de_DataValue (JNumber (PosInt n)) = Some (Number (f64_of_int (uint n)))"
| "de_DataValue (JNumber (NegInt n)) = Some (Number (f64_of_int (sint n)))"
| "de_DataValue (JNumber (FloatNum x)) = Some (Number x)"
| "de_DataValue _ = None"

text \<open>\<open>#[serde(rename_all = "snake_case")]\<close>.\<close>

definition DataType_variant :: "string \<Rightarrow> DataType option" where
  "DataType_variant = map_of
     [(''float'', Float), (''scaled'', Scaled), (''normalized'', Normalized),
      (''single_point'', SinglePoint), (''double_point'', DoublePoint)]"

definition QualityField_variant :: "string \<Rightarrow> QualityField option" where
  "QualityField_variant = map_of
     [(''good'', Good), (''invalid'', Invalid), (''not_topical'', NotTopical),
      (''substituted'', Substituted), (''blocked'', Blocked), (''overflow'', Overflow)]"

definition CotField_variant :: "string \<Rightarrow> CotField option" where
  "CotField_variant = map_of
     [(''spontaneous'', Spontaneous), (''periodic'', Periodic),
      (''background_scan'', BackgroundScan), (''interrogated'', Interrogated),
      (''return_info_remote'', ReturnInfoRemote), (''return_info_local'', ReturnInfoLocal)]"

fun deserialize_optional_timestamp ::
  "(string \<Rightarrow> OffsetDateTime option) \<Rightarrow> json \<Rightarrow> OffsetDateTime option option" where
  "deserialize_optional_timestamp rfc3339 JNull = Some None"
| "deserialize_optional_timestamp rfc3339 (JString s) = map_option Some (rfc3339 s)"
| "deserialize_optional_timestamp rfc3339 _ = None"

section \<open>The message deserialiser\<close>

datatype Field = FIoa | FValue | FType | FCa | FQuality | FCot | FTimestamp

definition fields :: "Field list" where
  "fields = [FIoa, FValue, FType, FCa, FQuality, FCot, FTimestamp]"

fun field_name :: "Field \<Rightarrow> string" where
  "field_name FIoa = ''ioa''"
| "field_name FValue = ''value''"
| "field_name FType = ''type''"
| "field_name FCa = ''ca''"
| "field_name FQuality = ''quality''"
| "field_name FCot = ''cot''"
| "field_name FTimestamp = ''timestamp''"

text \<open>Unknown keys select no field and are skipped.\<close>

definition field_of :: "string \<Rightarrow> Field option" where
  "field_of k = map_of (map (\<lambda>f. (field_name f, f)) fields) k"

text \<open>One field into the message, \<open>None\<close> when its content has the wrong type or range.\<close>

fun set_field :: "(string \<Rightarrow> OffsetDateTime option) \<Rightarrow> Field \<Rightarrow> json
    \<Rightarrow> Iec104Message \<Rightarrow> Iec104Message option" where
  "set_field rfc FIoa j m = map_option (\<lambda>x. m\<lparr>msg_ioa := x\<rparr>) (de_u32 j)"
| "set_field rfc FValue j m = map_option (\<lambda>x. m\<lparr>msg_value := x\<rparr>) (de_DataValue j)"
| "set_field rfc FType j m =
     map_option (\<lambda>x. m\<lparr>msg_data_type := x\<rparr>) (de_Option (de_unit_variant DataType_variant) j)"
| "set_field rfc FCa j m = map_option (\<lambda>x. m\<lparr>msg_ca := x\<rparr>) (de_Option de_u16 j)"
| "set_field rfc FQuality j m =
     map_option (\<lambda>x. m\<lparr>msg_quality := x\<rparr>) (de_unit_variant QualityField_variant j)"
| "set_field rfc FCot j m =
     map_option (\<lambda>x. m\<lparr>msg_cot := x\<rparr>) (de_unit_variant CotField_variant j)"
| "set_field rfc FTimestamp j m =
     map_option (\<lambda>x. m\<lparr>msg_timestamp := x\<rparr>) (deserialize_optional_timestamp rfc j)"

text \<open>
  The message before any field is read: the defaults of the optional fields. The two required
  fields hold fillers that no successful run returns, since both must have been seen.
\<close>

definition blank_message :: Iec104Message where
  "blank_message = \<lparr>msg_ioa = 0, msg_value = Bool False, msg_data_type = None, msg_ca = None,
     msg_quality = QualityField_default, msg_cot = CotField_default, msg_timestamp = None\<rparr>"

fun visit_map :: "(string \<Rightarrow> OffsetDateTime option) \<Rightarrow> (string \<times> json) list
    \<Rightarrow> Field list \<Rightarrow> Iec104Message \<Rightarrow> (de_error, Field list \<times> Iec104Message) result" where
  "visit_map rfc [] seen m = Inr (seen, m)"
| "visit_map rfc ((k, j) # kvs) seen m =
     (case field_of k of
        None \<Rightarrow> visit_map rfc kvs seen m
      | Some f \<Rightarrow>
          if f \<in> set seen then Inl (DuplicateField k)
          else (case set_field rfc f j m of
                  None \<Rightarrow> Inl InvalidValue
                | Some m' \<Rightarrow> visit_map rfc kvs (f # seen) m'))"

text \<open>An array gives the fields in order; only fields with a default may be left out at the end.\<close>

fun visit_seq :: "(string \<Rightarrow> OffsetDateTime option) \<Rightarrow> Field list \<Rightarrow> json list
    \<Rightarrow> nat \<Rightarrow> Iec104Message \<Rightarrow> (de_error, Iec104Message) result" where
  "visit_seq rfc [] [] n m = Inr m"
| "visit_seq rfc [] (_ # _) n m = Inl TrailingElements"
| "visit_seq rfc (f # fs) [] n m =
     (if f \<in> {FIoa, FValue, FCa} then Inl (InvalidLength n) else visit_seq rfc fs [] (Suc n) m)"
| "visit_seq rfc (f # fs) (j # js) n m =
     (case set_field rfc f j m of
        None \<Rightarrow> Inl InvalidValue
      | Some m' \<Rightarrow> visit_seq rfc fs js (Suc n) m')"

definition require_field :: "Field list \<Rightarrow> Field \<Rightarrow> (de_error, unit) result" where
  "require_field seen f =
     (if f \<in> set seen then Inr () else Inl (MissingField (field_name f)))"

fun deserialize_message ::
  "(string \<Rightarrow> OffsetDateTime option) \<Rightarrow> json \<Rightarrow> (de_error, Iec104Message) result" where
  "deserialize_message rfc (JObject kvs) =
     and_then (visit_map rfc kvs [] blank_message) (\<lambda>(seen, m).
       and_then (require_field seen FIoa) (\<lambda>_.
       and_then (require_field seen FValue) (\<lambda>_. Inr m)))"
| "deserialize_message rfc (JArray js) = visit_seq rfc fields js 0 blank_message"
| "deserialize_message rfc _ = Inl InvalidValue"


section \<open>Objects: order and unknown keys do not matter\<close>

text \<open>The entries of an object that name a field of the schema.\<close>

definition known_entries :: "(string \<times> json) list \<Rightarrow> (Field \<times> json) list" where
  "known_entries kvs = List.map_filter (\<lambda>(k, j). map_option (\<lambda>f. (f, j)) (field_of k)) kvs"

fun field_agrees :: "Field \<Rightarrow> Iec104Message \<Rightarrow> Iec104Message \<Rightarrow> bool" where
  "field_agrees FIoa m m' \<longleftrightarrow> msg_ioa m = msg_ioa m'"
| "field_agrees FValue m m' \<longleftrightarrow> msg_value m = msg_value m'"
| "field_agrees FType m m' \<longleftrightarrow> msg_data_type m = msg_data_type m'"
| "field_agrees FCa m m' \<longleftrightarrow> msg_ca m = msg_ca m'"
| "field_agrees FQuality m m' \<longleftrightarrow> msg_quality m = msg_quality m'"
| "field_agrees FCot m m' \<longleftrightarrow> msg_cot m = msg_cot m'"
| "field_agrees FTimestamp m m' \<longleftrightarrow> msg_timestamp m = msg_timestamp m'"

text \<open>
  A message holds what the content \<open>j\<close> of field \<open>f\<close> says when reading \<open>j\<close> into it changes
  nothing.
\<close>

definition field_reads ::
  "(string \<Rightarrow> OffsetDateTime option) \<Rightarrow> Field \<Rightarrow> json \<Rightarrow> Iec104Message \<Rightarrow> bool" where
  "field_reads rfc f j m \<longleftrightarrow> set_field rfc f j m = Some m"

definition object_describes ::
  "(string \<Rightarrow> OffsetDateTime option) \<Rightarrow> (string \<times> json) list \<Rightarrow> Iec104Message \<Rightarrow> bool" where
  "object_describes rfc kvs m \<longleftrightarrow>
     distinct (map fst (known_entries kvs)) \<and>
     FIoa \<in> set (map fst (known_entries kvs)) \<and> FValue \<in> set (map fst (known_entries kvs)) \<and>
     (\<forall>f. case map_of (known_entries kvs) f of
            None \<Rightarrow> field_agrees f blank_message m
          | Some j \<Rightarrow> field_reads rfc f j m)"

lemma known_entries_simps [simp]:
  "known_entries [] = []"
  "known_entries ((k, j) # kvs) =
     (case field_of k of None \<Rightarrow> known_entries kvs | Some f \<Rightarrow> (f, j) # known_entries kvs)"
  by (simp_all add: known_entries_def List.map_filter_def split: option.split)

lemma set_field_agrees_other:
  "set_field rfc f j m = Some m' \<Longrightarrow> g \<noteq> f \<Longrightarrow> field_agrees g m' n \<longleftrightarrow> field_agrees g m n"
  by (cases f; cases g) auto

lemma set_field_agrees_same:
  "set_field rfc f j m = Some m' \<Longrightarrow> field_agrees f m' n \<longleftrightarrow> field_reads rfc f j n"
  by (cases f; cases n) (auto simp: field_reads_def)

lemma set_field_None: "set_field rfc f j m = None \<Longrightarrow> \<not> field_reads rfc f j n"
  by (cases f) (auto simp: field_reads_def)

lemma all_split_at:
  "(\<forall>g. case M g of None \<Rightarrow> P g | Some x \<Rightarrow> Q g x) \<longleftrightarrow>
   (case M f of None \<Rightarrow> P f | Some x \<Rightarrow> Q f x) \<and>
   (\<forall>g. g \<noteq> f \<longrightarrow> (case M g of None \<Rightarrow> P g | Some x \<Rightarrow> Q g x))"
  by (cases "M f") metis+

lemma visit_map_iff:
  "visit_map rfc kvs seen m0 = Inr (seen', m) \<longleftrightarrow>
     distinct (map fst (known_entries kvs)) \<and>
     set (map fst (known_entries kvs)) \<inter> set seen = {} \<and>
     seen' = rev (map fst (known_entries kvs)) @ seen \<and>
     (\<forall>f. case map_of (known_entries kvs) f of
            None \<Rightarrow> field_agrees f m0 m
          | Some j \<Rightarrow> field_reads rfc f j m)"
proof (induction kvs arbitrary: seen m0)
  case Nil
  have "(\<forall>f. field_agrees f m0 m) \<longleftrightarrow> m0 = m"
  proof
    assume all: "\<forall>f. field_agrees f m0 m"
    show "m0 = m"
      using all [rule_format, of FIoa] all [rule_format, of FValue] all [rule_format, of FType]
        all [rule_format, of FCa] all [rule_format, of FQuality] all [rule_format, of FCot]
        all [rule_format, of FTimestamp] by simp
  next
    assume "m0 = m"
    moreover have "field_agrees f m m" for f by (cases f) simp_all
    ultimately show "\<forall>f. field_agrees f m0 m" by simp
  qed
  then show ?case by auto
next
  case (Cons kj kvs)
  obtain k j where kj: "kj = (k, j)" by (cases kj)
  show ?case
  proof (cases "field_of k")
    case None
    then show ?thesis by (simp add: kj Cons.IH)
  next
    case (Some f)
    show ?thesis
    proof (cases "set_field rfc f j m0")
      case None
      then show ?thesis by (auto simp: kj Some set_field_None split: if_splits)
    next
      case step: (Some m1)
      let ?K = "known_entries kvs"
      let ?holds = "\<lambda>M n. \<forall>g. case M g of None \<Rightarrow> field_agrees g n m | Some x \<Rightarrow> field_reads rfc g x m"
      have "?holds (map_of ?K) m1 \<longleftrightarrow> ?holds ((map_of ?K)(f \<mapsto> j)) m0"
        if "f \<notin> set (map fst ?K)"
        using that set_field_agrees_same [OF step] set_field_agrees_other [OF step]
        by (subst (1 2) all_split_at [of _ _ _ f]) (simp add: map_of_eq_None_iff [THEN iffD2] cong: option.case_cong)
      then show ?thesis by (auto simp: kj Some step Cons.IH simp del: fun_upd_apply)
    qed
  qed
qed


lemma require_field_iff: "require_field seen f = Inr u \<longleftrightarrow> f \<in> set seen"
  by (simp add: require_field_def)

lemma object_describes_iff:
  "deserialize_message rfc (JObject kvs) = Inr m \<longleftrightarrow> object_describes rfc kvs m"
proof -
  have "deserialize_message rfc (JObject kvs) = Inr m \<longleftrightarrow>
      (\<exists>seen. visit_map rfc kvs [] blank_message = Inr (seen, m) \<and> FIoa \<in> set seen \<and> FValue \<in> set seen)"
    by (auto simp: and_then_Inr_iff require_field_iff split: prod.splits)
  also have "\<dots> \<longleftrightarrow> object_describes rfc kvs m"
    unfolding visit_map_iff object_describes_def
    by auto
  finally show ?thesis .
qed

lemma known_entries_permute:
  "mset kvs = mset kvs' \<Longrightarrow> mset (known_entries kvs) = mset (known_entries kvs')"
  by (simp add: known_entries_def List.map_filter_def mset_filter)


lemma object_describes_permute:
  assumes "mset (known_entries kvs) = mset (known_entries kvs')"
  shows "object_describes rfc kvs m \<longleftrightarrow> object_describes rfc kvs' m"
proof -
  let ?K = "known_entries kvs" and ?K' = "known_entries kvs'"
  have fsts: "mset (map fst ?K) = mset (map fst ?K')" using assms by simp
  then have d: "distinct (map fst ?K) \<longleftrightarrow> distinct (map fst ?K')"
    by (rule mset_eq_imp_distinct_iff)
  have sets: "set ?K = set ?K'" using assms by (rule mset_eq_setD)
  have "map_of ?K = map_of ?K'" if "distinct (map fst ?K)"
    using that d sets by (simp add: map_of_inject_set)
  then show ?thesis using d sets by (auto simp: object_describes_def)
qed

section \<open>Properties\<close>

text \<open>C35: The order of the keys of a message object and any keys that the schema does not name
  have no influence: two objects with the same schema entries are read as the same message, or
  both rejected.\<close>

theorem deserialize_order_irrelevant:
  assumes "mset (known_entries kvs) = mset (known_entries kvs')"
  shows "deserialize_message rfc (JObject kvs) = Inr m
     \<longleftrightarrow> deserialize_message rfc (JObject kvs') = Inr m"
  using object_describes_permute [OF assms] by (simp only: object_describes_iff)

lemma field_of_eval [simp]:
  "field_of ''ioa'' = Some FIoa" "field_of ''value'' = Some FValue"
  "field_of ''type'' = Some FType" "field_of ''ca'' = Some FCa"
  "field_of ''quality'' = Some FQuality" "field_of ''cot'' = Some FCot"
  "field_of ''timestamp'' = Some FTimestamp" "field_of ''unit'' = None"
  by (simp_all add: field_of_def fields_def)

text \<open>The message 42 for point 100, once plain and once reordered with an unknown key.\<close>

theorem deserialize_order_irrelevant_witness:
  "deserialize_message (\<lambda>_. None)
     (JObject [(''value'', JNumber (PosInt 42)), (''unit'', JString ''A''),
               (''quality'', JString ''invalid''), (''ioa'', JNumber (PosInt 100))])
   = Inr \<lparr>msg_ioa = 100, msg_value = Number (f64_of_int 42), msg_data_type = None, msg_ca = None,
          msg_quality = Invalid, msg_cot = Spontaneous, msg_timestamp = None\<rparr>"
proof -
  let ?kvs = "[(''ioa'', JNumber (PosInt 100)), (''value'', JNumber (PosInt 42)),
    (''quality'', JString ''invalid'')]"
  let ?kvs' = "[(''value'', JNumber (PosInt 42)), (''unit'', JString ''A''),
    (''quality'', JString ''invalid''), (''ioa'', JNumber (PosInt 100))]"
  let ?m = "\<lparr>msg_ioa = 100, msg_value = Number (f64_of_int 42), msg_data_type = None, msg_ca = None,
    msg_quality = Invalid, msg_cot = Spontaneous, msg_timestamp = None\<rparr>"
  have "mset (known_entries ?kvs) = mset (known_entries ?kvs')" by simp
  moreover have "deserialize_message (\<lambda>_. None) (JObject ?kvs) = Inr ?m"
    by (simp add: blank_message_def require_field_def QualityField_variant_def
        QualityField_default_def CotField_default_def)
  ultimately show ?thesis
    using deserialize_order_irrelevant [of ?kvs ?kvs' "\<lambda>_. None" ?m] by blast
qed

end
