(* ===== verification/Validation.thy ===== *)
theory Validation
  imports Message
begin

text \<open>
  Semantic validation of incoming messages, \<open>src/src/validation.rs\<close>: one check per function, run in
  the order of the source, the first failure being the result.
\<close>

datatype validation_error =
    TimestampBeforeEpoch
  | IoaOutOfRange
  | CaOutOfRange
  | NormalizedOutOfRange
  | NormalizedNotNumeric
  | PointNotBoolean

definition validate_timestamp :: "OffsetDateTime option \<Rightarrow> (validation_error, unit) result" where
  "validate_timestamp timestamp =
     (case timestamp of
        Some t \<Rightarrow> if unix_timestamp_nanos t < 0 then Inl TimestampBeforeEpoch else Inr ()
      | None \<Rightarrow> Inr ())"

definition validate_ioa :: "u32 \<Rightarrow> (validation_error, unit) result" where
  "validate_ioa ioa = (if \<not> (1 \<le> ioa \<and> ioa \<le> 16777215) then Inl IoaOutOfRange else Inr ())"

definition validate_ca :: "u16 option \<Rightarrow> (validation_error, unit) result" where
  "validate_ca ca =
     (case ca of
        Some c \<Rightarrow> if \<not> (1 \<le> c \<and> c \<le> 65534) then Inl CaOutOfRange else Inr ()
      | None \<Rightarrow> Inr ())"

text \<open>The literals \<open>-1.0\<close> and \<open>1.0\<close>.\<close>

definition f64_minus_one :: f64 where
  "f64_minus_one = F64 0xBFF0000000000000"

definition f64_one :: f64 where
  "f64_one = F64 0x3FF0000000000000"

definition validate_normalized_value ::
  "DataType option \<Rightarrow> DataValue \<Rightarrow> (validation_error, unit) result" where
  "validate_normalized_value data_type v =
     (if data_type \<noteq> Some Normalized then Inr ()
      else case v of
        Number x \<Rightarrow>
          if f64_le f64_minus_one x \<and> f64_le x f64_one then Inr () else Inl NormalizedOutOfRange
      | Bool _ \<Rightarrow> Inl NormalizedNotNumeric)"

definition validate_boolean_point_value ::
  "DataType option \<Rightarrow> DataValue \<Rightarrow> (validation_error, unit) result" where
  "validate_boolean_point_value data_type v =
     (if \<not> (data_type = Some SinglePoint \<or> data_type = Some DoublePoint) then Inr ()
      else case v of Bool _ \<Rightarrow> Inr () | Number _ \<Rightarrow> Inl PointNotBoolean)"

definition validate_message :: "Iec104Message \<Rightarrow> (validation_error, unit) result" where
  "validate_message msg =
     and_then (validate_ioa (msg_ioa msg)) (\<lambda>_.
     and_then (validate_ca (msg_ca msg)) (\<lambda>_.
     and_then (validate_timestamp (msg_timestamp msg)) (\<lambda>_.
     and_then (validate_normalized_value (msg_data_type msg) (msg_value msg)) (\<lambda>_.
     and_then (validate_boolean_point_value (msg_data_type msg) (msg_value msg)) (\<lambda>_.
     Inr ())))))"

section \<open>What a valid message is\<close>

text \<open>The abstract specification: the documented ranges, on numbers instead of patterns.\<close>

definition valid_message :: "Iec104Message \<Rightarrow> bool" where
  "valid_message msg \<longleftrightarrow>
     unat (msg_ioa msg) \<in> {1..16777215} \<and>
     (\<forall>ca. msg_ca msg = Some ca \<longrightarrow> unat ca \<in> {1..65534}) \<and>
     (\<forall>t. msg_timestamp msg = Some t \<longrightarrow> 0 \<le> unix_timestamp_nanos t) \<and>
     (msg_data_type msg = Some Normalized \<longrightarrow>
        (\<exists>x. msg_value msg = Number x \<and> f64_is_finite x \<and> \<bar>f64_real x\<bar> \<le> 1)) \<and>
     (msg_data_type msg \<in> {Some SinglePoint, Some DoublePoint} \<longrightarrow>
        (\<exists>b. msg_value msg = Bool b))"

lemma f64_one_facts:
  "f64_is_finite f64_one" "f64_real f64_one = 1" "f64_key f64_one = 1023 * 2 ^ 52"
  "f64_is_finite f64_minus_one" "f64_real f64_minus_one = - 1"
  "f64_key f64_minus_one = - (1023 * 2 ^ 52)"
proof -
  have one: "mag_units (1023 * 2 ^ 52) = 2 ^ unit_exp"
    using mag_units_at [of 0 1022] by (simp only: unit_exp_def add_0 power_add [symmetric]) simp
  have mags: "f64_mag f64_one = 1023 * 2 ^ 52" "f64_mag f64_minus_one = 1023 * 2 ^ 52"
    "\<not> f64_neg f64_one" "f64_neg f64_minus_one"
    by (simp_all add: f64_mag_def f64_neg_def f64_one_def f64_minus_one_def)
  show "f64_is_finite f64_one" "f64_key f64_one = 1023 * 2 ^ 52"
    "f64_is_finite f64_minus_one" "f64_key f64_minus_one = - (1023 * 2 ^ 52)"
    by (simp_all add: f64_is_finite_def f64_inf_mag_def f64_key_def mags)
  show "f64_real f64_one = 1" "f64_real f64_minus_one = - 1"
    unfolding f64_real_def mags(1,2) one using mags(3,4) by simp_all
qed

lemma f64_between_ones:
  "f64_le f64_minus_one x \<and> f64_le x f64_one \<longleftrightarrow> f64_is_finite x \<and> \<bar>f64_key x\<bar> \<le> 1023 * 2 ^ 52"
proof -
  have "\<bar>f64_key x\<bar> \<le> 1023 * 2 ^ 52 \<Longrightarrow> f64_is_finite x"
    by (simp add: f64_is_finite_def f64_inf_mag_def f64_key_def split: if_splits)
  moreover have "\<not> f64_is_nan f64_one" "\<not> f64_is_nan f64_minus_one"
    using f64_one_facts by (simp_all add: f64_is_finite_def f64_is_nan_def)
  moreover have "f64_is_finite x \<Longrightarrow> \<not> f64_is_nan x"
    by (simp add: f64_is_finite_def f64_is_nan_def)
  ultimately show ?thesis by (auto simp: f64_le_def f64_one_facts)
qed

lemma f64_between_ones_real:
  "f64_le f64_minus_one x \<and> f64_le x f64_one \<longleftrightarrow> f64_is_finite x \<and> \<bar>f64_real x\<bar> \<le> 1"
proof (cases "f64_is_finite x")
  case True
  then show ?thesis
    using f64_le_iff_real [of f64_minus_one x] f64_le_iff_real [of x f64_one]
    by (auto simp: f64_one_facts)
next
  case False
  then show ?thesis by (simp add: f64_between_ones)
qed

lemma u32_range: "1 \<le> (w :: u32) \<and> w \<le> 16777215 \<longleftrightarrow> unat w \<in> {1..16777215}"
  by (simp add: word_le_nat_alt)

lemma u16_range: "1 \<le> (w :: u16) \<and> w \<le> 65534 \<longleftrightarrow> unat w \<in> {1..65534}"
  by (simp add: word_le_nat_alt)

lemma validate_message_iff: "validate_message msg = Inr () \<longleftrightarrow> valid_message msg"
proof -
  have "validate_ioa (msg_ioa msg) = Inr () \<longleftrightarrow> unat (msg_ioa msg) \<in> {1..16777215}"
    by (simp add: validate_ioa_def u32_range)
  moreover have "validate_ca (msg_ca msg) = Inr ()
      \<longleftrightarrow> (\<forall>ca. msg_ca msg = Some ca \<longrightarrow> unat ca \<in> {1..65534})"
    by (simp add: validate_ca_def u16_range split: option.split)
  moreover have "validate_timestamp (msg_timestamp msg) = Inr ()
      \<longleftrightarrow> (\<forall>t. msg_timestamp msg = Some t \<longrightarrow> 0 \<le> unix_timestamp_nanos t)"
    by (simp add: validate_timestamp_def not_less split: option.split)
  moreover have "validate_normalized_value (msg_data_type msg) (msg_value msg) = Inr ()
      \<longleftrightarrow> (msg_data_type msg = Some Normalized \<longrightarrow>
            (\<exists>x. msg_value msg = Number x \<and> f64_is_finite x \<and> \<bar>f64_real x\<bar> \<le> 1))"
    by (simp add: validate_normalized_value_def f64_between_ones_real split: DataValue.split)
  moreover have "validate_boolean_point_value (msg_data_type msg) (msg_value msg) = Inr ()
      \<longleftrightarrow> (msg_data_type msg \<in> {Some SinglePoint, Some DoublePoint} \<longrightarrow>
            (\<exists>b. msg_value msg = Bool b))"
    by (auto simp: validate_boolean_point_value_def split: DataValue.split)
  ultimately show ?thesis
    by (simp only: validate_message_def valid_message_def and_then_Inr_iff unit_all_eq1) auto
qed

section \<open>Properties\<close>

text \<open>C20: Validation accepts exactly the messages in the documented ranges: IOA 1 to 16777215, CA
  absent or 1 to 65534, timestamp absent or not before 1970, normalized values finite numbers
  between -1 and 1, single and double points boolean.\<close>

theorem validate_message_correct: "is_ok (validate_message msg) \<longleftrightarrow> valid_message msg"
  by (auto simp: is_ok_iff simp flip: validate_message_iff)

end
