(* ===== verification/Sink.thy ===== *)
theory Sink
  imports Validation
begin

text \<open>
  The vocabulary that \<open>src/src/bridge.rs\<close> and \<open>src/src/asdu.rs\<close> share: the value types of the
  \<open>lib60870\<close> crate as far as the sources use them, the \<open>DataSink\<close> trait and the \<open>TimedDispatch\<close>
  request. A sink is a record of state transformers, so that one \<open>dispatch\<close> serves the
  capturing, the live and the connection sink.
\<close>

section \<open>Library value types\<close>

text \<open>
  The causes of transmission the sources name. Their numbers belong to the library
  (\<open>as_raw\<close>) and no definition needs them.
\<close>

datatype CauseOfTransmission =
    COT_Spontaneous | COT_Periodic | COT_Background | COT_InterrogatedByStation
  | COT_ReturnRemote | COT_ReturnLocal

text \<open>
  Quality descriptors are bit sets; the bits are those of the quality table of \<open>src/README.md\<close>.
\<close>

type_synonym Quality = u8

definition Quality_GOOD :: Quality where "Quality_GOOD = 0"
definition Quality_OVERFLOW :: Quality where "Quality_OVERFLOW = 0x01"
definition Quality_BLOCKED :: Quality where "Quality_BLOCKED = 0x10"
definition Quality_SUBSTITUTED :: Quality where "Quality_SUBSTITUTED = 0x20"
definition Quality_NOT_TOPICAL :: Quality where "Quality_NOT_TOPICAL = 0x40"
definition Quality_INVALID :: Quality where "Quality_INVALID = 0x80"

lemmas quality_bits =
  Quality_GOOD_def Quality_OVERFLOW_def Quality_BLOCKED_def Quality_SUBSTITUTED_def
  Quality_NOT_TOPICAL_def Quality_INVALID_def

text \<open>
  \<open>Timestamp::from_ms\<close>, by the milliseconds it is asked for. What the library makes of them is not
  part of the model: a CP56Time2a tag has its own range (its year has two digits), and \<open>as_ms\<close>,
  which only the capturing sink of the tests calls, is a parameter of that sink.
\<close>

datatype Timestamp = Timestamp_from_ms (requested_ms: u64)

text \<open>Raw handles of the C library; a server handle and a connection handle are opaque numbers.\<close>

type_synonym CS104_Slave = nat
type_synonym IMasterConnection = nat

section \<open>The sink interface\<close>

record TimedDispatch =
  td_server_ptr :: "CS104_Slave option"
  td_cot :: CauseOfTransmission
  td_ca :: u16
  td_ioa :: u32
  td_value :: DataValue
  td_data_type :: DataType
  td_quality :: Quality
  td_timestamp :: Timestamp

record 's DataSink =
  send_single_point :: "CauseOfTransmission \<Rightarrow> u16 \<Rightarrow> u32 \<Rightarrow> bool \<Rightarrow> Quality \<Rightarrow> 's \<Rightarrow> 's"
  send_measured_float :: "CauseOfTransmission \<Rightarrow> u16 \<Rightarrow> u32 \<Rightarrow> f32 \<Rightarrow> Quality \<Rightarrow> 's \<Rightarrow> 's"
  send_measured_scaled :: "CauseOfTransmission \<Rightarrow> u16 \<Rightarrow> u32 \<Rightarrow> i16 \<Rightarrow> Quality \<Rightarrow> 's \<Rightarrow> 's"
  enqueue_timed :: "TimedDispatch \<Rightarrow> 's \<Rightarrow> 's"

text \<open>
  The contract a client of the trait relies on: every method adds exactly one entry, made
  from its arguments alone, to what the sink records. What an entry is differs from sink to
  sink, so the encoders are parameters.
\<close>

locale tracing_sink =
  fixes sink :: "'s DataSink"
    and trace :: "'s \<Rightarrow> 'c list"
    and enc_single :: "CauseOfTransmission \<Rightarrow> u16 \<Rightarrow> u32 \<Rightarrow> bool \<Rightarrow> Quality \<Rightarrow> 'c"
    and enc_float :: "CauseOfTransmission \<Rightarrow> u16 \<Rightarrow> u32 \<Rightarrow> f32 \<Rightarrow> Quality \<Rightarrow> 'c"
    and enc_scaled :: "CauseOfTransmission \<Rightarrow> u16 \<Rightarrow> u32 \<Rightarrow> i16 \<Rightarrow> Quality \<Rightarrow> 'c"
    and enc_timed :: "TimedDispatch \<Rightarrow> 'c"
    and ok :: "'s \<Rightarrow> bool"
  assumes trace_single:
      "ok s \<Longrightarrow> trace (send_single_point sink cause ca ioa v q s) = trace s @ [enc_single cause ca ioa v q]"
    and trace_float:
      "ok s \<Longrightarrow> trace (send_measured_float sink cause ca ioa x q s) = trace s @ [enc_float cause ca ioa x q]"
    and trace_scaled:
      "ok s \<Longrightarrow> trace (send_measured_scaled sink cause ca ioa n q s) = trace s @ [enc_scaled cause ca ioa n q]"
    and trace_timed: "ok s \<Longrightarrow> trace (enqueue_timed sink td s) = trace s @ [enc_timed td]"
    and ok_single: "ok s \<Longrightarrow> ok (send_single_point sink cause ca ioa v q s)"
    and ok_float: "ok s \<Longrightarrow> ok (send_measured_float sink cause ca ioa x q s)"
    and ok_scaled: "ok s \<Longrightarrow> ok (send_measured_scaled sink cause ca ioa n q s)"
    and ok_timed: "ok s \<Longrightarrow> ok (enqueue_timed sink td s)"
begin

lemmas sink_laws =
  trace_single trace_float trace_scaled trace_timed ok_single ok_float ok_scaled ok_timed

end

end
