(* ===== verification/Asdu.thy ===== *)
theory Asdu
  imports Sink
begin

text \<open>
  Building and handing over ASDUs through the C library, \<open>src/src/asdu.rs\<close>. Every foreign call the
  code makes is an entry of a call log, in order and with the value the library returned. What
  the library returns is a parameter: an environment that answers each call from the history
  before it. Replaying a log gives the library's heap, which is what the memory and content
  lemmas speak about.
\<close>

section \<open>Foreign calls\<close>

text \<open>A C pointer; null is 0.\<close>

type_synonym ptr = nat

datatype DoublePointValue = DOUBLE_POINT_ON | DOUBLE_POINT_OFF

text \<open>The information objects, by the constructor function called and its arguments.\<close>

datatype InformationObject =
    SinglePointInformation i32 bool u8
  | MeasuredValueShort i32 f32 u8
  | MeasuredValueScaled i32 i32 u8
  | SinglePointWithCP56Time2a i32 bool u8 Timestamp
  | DoublePointWithCP56Time2a i32 DoublePointValue u8 Timestamp
  | MeasuredValueScaledWithCP56Time2a i32 i32 u8 Timestamp
  | MeasuredValueShortWithCP56Time2a i32 f32 u8 Timestamp
  | MeasuredValueNormalizedWithCP56Time2a i32 f32 u8 Timestamp

text \<open>The type identification of an object.\<close>

fun type_identification :: "InformationObject \<Rightarrow> nat" where
  "type_identification (SinglePointInformation a v q) = 1"
| "type_identification (MeasuredValueShort a x q) = 13"
| "type_identification (MeasuredValueScaled a n q) = 11"
| "type_identification (SinglePointWithCP56Time2a a v q ts) = 30"
| "type_identification (DoublePointWithCP56Time2a a v q ts) = 31"
| "type_identification (MeasuredValueScaledWithCP56Time2a a n q ts) = 35"
| "type_identification (MeasuredValueShortWithCP56Time2a a x q ts) = 36"
| "type_identification (MeasuredValueNormalizedWithCP56Time2a a x q ts) = 34"

text \<open>The arguments of \<open>CS101_ASDU_create\<close> after the application layer parameters.\<close>

record AsduHeader =
  hdr_isSequence :: bool
  hdr_cot :: CauseOfTransmission
  hdr_oa :: nat
  hdr_ca :: i32
  hdr_isTest :: bool
  hdr_isNegative :: bool

datatype NativeCall =
    CreateIO InformationObject ptr
  | DestroyIO ptr
  | CreateAsdu AsduHeader ptr
  | AddIO ptr ptr
  | DestroyAsdu ptr
  | EnqueueAsdu CS104_Slave ptr
  | SendAsdu IMasterConnection ptr bool
  | SendActCon IMasterConnection ptr bool bool
  | SendActTerm IMasterConnection ptr bool
  | ServerSinglePoint CauseOfTransmission u16 u32 bool Quality
  | ServerMeasuredFloat CauseOfTransmission u16 u32 f32 Quality
  | ServerMeasuredScaled CauseOfTransmission u16 u32 i16 Quality

type_synonym call_log = "NativeCall list"

record native_env =
  ret_create_io :: "call_log \<Rightarrow> InformationObject \<Rightarrow> ptr"
  ret_create_asdu :: "call_log \<Rightarrow> AsduHeader \<Rightarrow> ptr"
  ret_send_asdu :: "call_log \<Rightarrow> IMasterConnection \<Rightarrow> ptr \<Rightarrow> bool"
  ret_act_con :: "call_log \<Rightarrow> IMasterConnection \<Rightarrow> bool \<Rightarrow> bool"
  ret_act_term :: "call_log \<Rightarrow> IMasterConnection \<Rightarrow> bool"

section \<open>The operations\<close>

datatype UntimedValue = Single bool | UFloat f32 | UScaled i16

definition create_io :: "native_env \<Rightarrow> InformationObject \<Rightarrow> call_log \<Rightarrow> ptr \<times> call_log" where
  "create_io env io calls = (let p = ret_create_io env calls io in (p, calls @ [CreateIO io p]))"

text \<open>Wrap one information object in a new ASDU; the caller destroys the ASDU.\<close>

definition single_object_asdu ::
  "native_env \<Rightarrow> CauseOfTransmission \<Rightarrow> u16 \<Rightarrow> ptr \<Rightarrow> call_log \<Rightarrow> ptr option \<times> call_log" where
  "single_object_asdu env cause ca io calls =
     (if io = 0 then (None, calls)
      else
        let hdr = \<lparr>hdr_isSequence = False, hdr_cot = cause, hdr_oa = 0, hdr_ca = ucast ca,
                   hdr_isTest = False, hdr_isNegative = False\<rparr>;
            asdu = ret_create_asdu env calls hdr;
            calls = calls @ [CreateAsdu hdr asdu]
        in if asdu = 0 then (None, calls @ [DestroyIO io])
           else (Some asdu, calls @ [AddIO asdu io, DestroyIO io]))"

definition value_is_on :: "DataValue \<Rightarrow> bool" where
  "value_is_on v \<longleftrightarrow>
     (case v of Bool b \<Rightarrow> b | Number x \<Rightarrow> \<not> f64_eq x (F64 0))"

definition f64_i16_min :: f64 where "f64_i16_min = F64 0xC0E0000000000000"
definition f64_i16_max :: f64 where "f64_i16_max = F64 0x40DFFFC000000000"

text \<open>The literals \<open>1.0\<close> and \<open>0.0\<close> as \<open>f32\<close>.\<close>

definition f32_one :: f32 where "f32_one = F32 0x3F800000"
definition f32_zero :: f32 where "f32_zero = F32 0"

definition timed_scaled_value :: "DataValue \<Rightarrow> i32" where
  "timed_scaled_value v =
     (case v of
        Bool True \<Rightarrow> 1
      | Bool False \<Rightarrow> 0
      | Number x \<Rightarrow> f64_as_i32 (f64_clamp x f64_i16_min f64_i16_max))"

definition timed_float_value :: "DataValue \<Rightarrow> f32" where
  "timed_float_value v =
     (case v of
        Bool True \<Rightarrow> f32_one
      | Bool False \<Rightarrow> f32_zero
      | Number x \<Rightarrow> f64_to_f32 x)"

fun information_object ::
  "u32 \<Rightarrow> DataValue \<Rightarrow> DataType \<Rightarrow> Quality \<Rightarrow> Timestamp \<Rightarrow> InformationObject" where
  "information_object ioa v SinglePoint q ts =
     SinglePointWithCP56Time2a (ucast ioa) (value_is_on v) q ts"
| "information_object ioa v DoublePoint q ts =
     DoublePointWithCP56Time2a (ucast ioa)
       (if value_is_on v then DOUBLE_POINT_ON else DOUBLE_POINT_OFF) q ts"
| "information_object ioa v Scaled q ts =
     MeasuredValueScaledWithCP56Time2a (ucast ioa) (timed_scaled_value v) q ts"
| "information_object ioa v Float q ts =
     MeasuredValueShortWithCP56Time2a (ucast ioa) (timed_float_value v) q ts"
| "information_object ioa v Normalized q ts =
     MeasuredValueNormalizedWithCP56Time2a (ucast ioa) (timed_float_value v) q ts"

definition create_information_object ::
  "native_env \<Rightarrow> u32 \<Rightarrow> DataValue \<Rightarrow> DataType \<Rightarrow> Quality \<Rightarrow> Timestamp
    \<Rightarrow> call_log \<Rightarrow> ptr \<times> call_log" where
  "create_information_object env ioa v data_type q ts calls =
     create_io env (information_object ioa v data_type q ts) calls"

definition timed_asdu :: "native_env \<Rightarrow> TimedDispatch \<Rightarrow> call_log \<Rightarrow> ptr option \<times> call_log" where
  "timed_asdu env td calls =
     (case create_information_object env (td_ioa td) (td_value td) (td_data_type td)
             (td_quality td) (td_timestamp td) calls of
        (io, calls) \<Rightarrow> single_object_asdu env (td_cot td) (td_ca td) io calls)"

definition send_to_connection ::
  "native_env \<Rightarrow> IMasterConnection \<Rightarrow> ptr \<Rightarrow> call_log \<Rightarrow> bool \<times> call_log" where
  "send_to_connection env conn asdu calls =
     (let sent = ret_send_asdu env calls conn asdu
      in (sent, calls @ [SendAsdu conn asdu sent, DestroyAsdu asdu]))"

definition enqueue_timed_asdu :: "native_env \<Rightarrow> TimedDispatch \<Rightarrow> call_log \<Rightarrow> bool \<times> call_log" where
  "enqueue_timed_asdu env td calls =
     (case td_server_ptr td of
        None \<Rightarrow> (False, calls)
      | Some server \<Rightarrow>
          (case timed_asdu env td calls of
             (None, calls) \<Rightarrow> (False, calls)
           | (Some asdu, calls) \<Rightarrow> (True, calls @ [EnqueueAsdu server asdu, DestroyAsdu asdu])))"

definition send_timed_to_connection ::
  "native_env \<Rightarrow> IMasterConnection \<Rightarrow> TimedDispatch \<Rightarrow> call_log \<Rightarrow> bool \<times> call_log" where
  "send_timed_to_connection env conn td calls =
     (case timed_asdu env td calls of
        (None, calls) \<Rightarrow> (False, calls)
      | (Some asdu, calls) \<Rightarrow> send_to_connection env conn asdu calls)"

fun untimed_object :: "u32 \<Rightarrow> UntimedValue \<Rightarrow> Quality \<Rightarrow> InformationObject" where
  "untimed_object ioa (Single v) q = SinglePointInformation (ucast ioa) v q"
| "untimed_object ioa (UFloat v) q = MeasuredValueShort (ucast ioa) v q"
| "untimed_object ioa (UScaled v) q = MeasuredValueScaled (ucast ioa) (scast v) q"

definition send_untimed_to_connection ::
  "native_env \<Rightarrow> IMasterConnection \<Rightarrow> CauseOfTransmission \<Rightarrow> u16 \<Rightarrow> u32 \<Rightarrow> UntimedValue
    \<Rightarrow> Quality \<Rightarrow> call_log \<Rightarrow> bool \<times> call_log" where
  "send_untimed_to_connection env conn cause ca ioa v q calls =
     (case create_io env (untimed_object ioa v q) calls of
        (io, calls) \<Rightarrow>
          (case single_object_asdu env cause ca io calls of
             (None, calls) \<Rightarrow> (False, calls)
           | (Some asdu, calls) \<Rightarrow> send_to_connection env conn asdu calls))"


section \<open>The pinned copy of a request\<close>

text \<open>
  A static ASDU carries pointers into its own buffer. A move copies the bytes to another place
  and leaves the pointers behind; \<open>PinnedAsdu::copy_of\<close> copies into a box and re-bases them.
  The buffer's address is part of the model, the encoded bytes are not interpreted.
\<close>

record StaticASDU =
  sa_buffer :: ptr
  sa_asduHeaderLength :: nat
  sa_asdu :: ptr
  sa_payload :: ptr
  sa_encodedData :: "u8 list"

definition move_to :: "ptr \<Rightarrow> StaticASDU \<Rightarrow> StaticASDU" where
  "move_to place a = a\<lparr>sa_buffer := place\<rparr>"

definition PinnedAsdu_copy_of :: "ptr \<Rightarrow> StaticASDU \<Rightarrow> StaticASDU" where
  "PinnedAsdu_copy_of box a =
     (let inner = move_to box a;
          base = sa_buffer inner;
          inner = inner\<lparr>sa_asdu := base\<rparr>
      in inner\<lparr>sa_payload := base + sa_asduHeaderLength inner\<rparr>)"

definition self_contained :: "StaticASDU \<Rightarrow> bool" where
  "self_contained a \<longleftrightarrow> sa_asdu a = sa_buffer a \<and> sa_payload a = sa_buffer a + sa_asduHeaderLength a"

lemma pinned_self_contained: "self_contained (PinnedAsdu_copy_of box a)"
  by (simp add: PinnedAsdu_copy_of_def self_contained_def Let_def)

lemma pinned_content:
  "sa_encodedData (PinnedAsdu_copy_of box a) = sa_encodedData a"
  "sa_asduHeaderLength (PinnedAsdu_copy_of box a) = sa_asduHeaderLength a"
  by (simp_all add: PinnedAsdu_copy_of_def move_to_def Let_def)

lemma moved_dangles: "self_contained a \<Longrightarrow> place \<noteq> sa_buffer a \<Longrightarrow> \<not> self_contained (move_to place a)"
  by (simp add: self_contained_def move_to_def)

section \<open>Replaying a call log\<close>

text \<open>
  The library's objects and what it was handed, as the calls of a log leave them. A call on a
  pointer that is not live, or a creation that returns a live one, has no result: it would be a
  use after free, a double free or a broken allocator.
\<close>

type_synonym AsduContent = "AsduHeader \<times> InformationObject list"

datatype Delivery =
    Enqueued CS104_Slave AsduContent
  | Sent IMasterConnection AsduContent bool
  | ActCon IMasterConnection bool bool
  | ActTerm IMasterConnection bool
  | ServerSinglePointOut CauseOfTransmission u16 u32 bool Quality
  | ServerMeasuredFloatOut CauseOfTransmission u16 u32 f32 Quality
  | ServerMeasuredScaledOut CauseOfTransmission u16 u32 i16 Quality

record Heap =
  heap_io :: "ptr \<rightharpoonup> InformationObject"
  heap_asdu :: "ptr \<rightharpoonup> AsduContent"
  heap_out :: "Delivery list"

definition empty_heap :: Heap where
  "empty_heap = \<lparr>heap_io = Map.empty, heap_asdu = Map.empty, heap_out = []\<rparr>"

definition live :: "Heap \<Rightarrow> ptr set" where
  "live h = dom (heap_io h) \<union> dom (heap_asdu h)"

lemma not_live: "p \<notin> live h \<longleftrightarrow> heap_io h p = None \<and> heap_asdu h p = None"
  unfolding live_def Un_iff domIff de_Morgan_disj not_not by (rule refl)

definition hand_over :: "Delivery \<Rightarrow> Heap \<Rightarrow> Heap" where
  "hand_over d h = h\<lparr>heap_out := heap_out h @ [d]\<rparr>"

fun exec_call :: "NativeCall \<Rightarrow> Heap \<Rightarrow> Heap option" where
  "exec_call (CreateIO io p) h =
     (if p = 0 then Some h
      else if heap_io h p = None \<and> heap_asdu h p = None then Some (h\<lparr>heap_io := (heap_io h)(p \<mapsto> io)\<rparr>)
      else None)"
| "exec_call (DestroyIO p) h =
     (case heap_io h p of
        None \<Rightarrow> None
      | Some _ \<Rightarrow> Some (h\<lparr>heap_io := (heap_io h)(p := None)\<rparr>))"
| "exec_call (CreateAsdu hdr p) h =
     (if p = 0 then Some h
      else if heap_io h p = None \<and> heap_asdu h p = None
      then Some (h\<lparr>heap_asdu := (heap_asdu h)(p \<mapsto> (hdr, []))\<rparr>)
      else None)"
| "exec_call (AddIO a p) h =
     (case (heap_asdu h a, heap_io h p) of
        (Some (hdr, ios), Some io) \<Rightarrow>
          Some (h\<lparr>heap_asdu := (heap_asdu h)(a \<mapsto> (hdr, ios @ [io]))\<rparr>)
      | _ \<Rightarrow> None)"
| "exec_call (DestroyAsdu a) h =
     (case heap_asdu h a of
        None \<Rightarrow> None
      | Some _ \<Rightarrow> Some (h\<lparr>heap_asdu := (heap_asdu h)(a := None)\<rparr>))"
| "exec_call (EnqueueAsdu srv a) h = map_option (\<lambda>c. hand_over (Enqueued srv c) h) (heap_asdu h a)"
| "exec_call (SendAsdu conn a ok) h = map_option (\<lambda>c. hand_over (Sent conn c ok) h) (heap_asdu h a)"
| "exec_call (SendActCon conn req neg ok) h = Some (hand_over (ActCon conn neg ok) h)"
| "exec_call (SendActTerm conn req ok) h = Some (hand_over (ActTerm conn ok) h)"
| "exec_call (ServerSinglePoint cause ca ioa v q) h =
     Some (hand_over (ServerSinglePointOut cause ca ioa v q) h)"
| "exec_call (ServerMeasuredFloat cause ca ioa x q) h =
     Some (hand_over (ServerMeasuredFloatOut cause ca ioa x q) h)"
| "exec_call (ServerMeasuredScaled cause ca ioa n q) h =
     Some (hand_over (ServerMeasuredScaledOut cause ca ioa n q) h)"

fun exec_log :: "call_log \<Rightarrow> Heap \<Rightarrow> Heap option" where
  "exec_log [] h = Some h"
| "exec_log (c # cs) h = (case exec_call c h of None \<Rightarrow> None | Some h' \<Rightarrow> exec_log cs h')"

lemma exec_log_append:
  "exec_log (cs @ cs') h = (case exec_log cs h of None \<Rightarrow> None | Some h' \<Rightarrow> exec_log cs' h')"
  by (induction cs arbitrary: h) (auto split: option.split)

definition heap_after :: "call_log \<Rightarrow> Heap option" where
  "heap_after calls = exec_log calls empty_heap"

lemma heap_after_append:
  "heap_after (cs @ cs') = (case heap_after cs of None \<Rightarrow> None | Some h \<Rightarrow> exec_log cs' h)"
  by (simp add: heap_after_def exec_log_append)


section \<open>The allocator contract\<close>

text \<open>
  What the code relies on: a constructor returns null or a pointer that is not in use. The lemmas
  for the library's clients are proved once under this contract.
\<close>

definition single_header :: "CauseOfTransmission \<Rightarrow> u16 \<Rightarrow> AsduHeader" where
  "single_header cause ca =
     \<lparr>hdr_isSequence = False, hdr_cot = cause, hdr_oa = 0, hdr_ca = ucast ca,
      hdr_isTest = False, hdr_isNegative = False\<rparr>"

definition timed_object :: "TimedDispatch \<Rightarrow> InformationObject" where
  "timed_object td =
     information_object (td_ioa td) (td_value td) (td_data_type td) (td_quality td) (td_timestamp td)"

definition fresh_allocator :: "native_env \<Rightarrow> bool" where
  "fresh_allocator env \<longleftrightarrow>
     (\<forall>calls h. heap_after calls = Some h \<longrightarrow>
        (\<forall>io. ret_create_io env calls io \<notin> live h) \<and>
        (\<forall>hdr. ret_create_asdu env calls hdr \<notin> live h))"

locale native_lib =
  fixes env :: native_env
  assumes fresh: "fresh_allocator env"
begin

lemma fresh_io: "heap_after calls = Some h \<Longrightarrow> ret_create_io env calls io \<notin> live h"
  and fresh_asdu: "heap_after calls = Some h \<Longrightarrow> ret_create_asdu env calls hdr \<notin> live h"
  using fresh unfolding fresh_allocator_def by blast+

lemma create_io_heap:
  assumes "heap_after calls = Some h" and "create_io env io calls = (p, calls')"
  shows "heap_after calls' = Some (if p = 0 then h else h\<lparr>heap_io := (heap_io h)(p \<mapsto> io)\<rparr>)"
    and "p \<notin> live h"
  using assms fresh_io [OF assms(1), of io]
  by (auto simp: create_io_def Let_def heap_after_append not_live)

text \<open>Object and ASDU: afterwards either nothing is left, or one ASDU that holds the object.\<close>

lemma object_asdu_heap:
  assumes h: "heap_after calls = Some h" and io: "create_io env io calls = (p, calls1)"
    and asdu: "single_object_asdu env cause ca p calls1 = (res, calls2)"
  shows "case res of
      None \<Rightarrow> heap_after calls2 = Some h
    | Some a \<Rightarrow> a \<notin> live h \<and>
        heap_after calls2 =
          Some (h\<lparr>heap_asdu := (heap_asdu h)(a \<mapsto> (single_header cause ca, [io]))\<rparr>)"
proof (cases "p = 0")
  case True
  with asdu create_io_heap(1) [OF h io] show ?thesis by (auto simp: single_object_asdu_def)
next
  case False
  let ?h1 = "h\<lparr>heap_io := (heap_io h)(p \<mapsto> io)\<rparr>"
  let ?a = "ret_create_asdu env calls1 (single_header cause ca)"
  note h1 = create_io_heap [OF h io]
  from False h1(1) have heap1: "heap_after calls1 = Some ?h1" by simp
  have p: "heap_io h p = None" "heap_asdu h p = None" using h1(2) by (simp_all add: not_live)
  have a: "?a \<noteq> p" "heap_io h ?a = None" "heap_asdu h ?a = None"
    using fresh_asdu [OF heap1, of "single_header cause ca"]
    by (auto simp: not_live split: if_splits)
  have restore: "h\<lparr>heap_io := heap_io h\<rparr> = h" by simp
  show ?thesis
  proof (cases "?a = 0")
    case True
    have "calls2 = calls1 @ [CreateAsdu (single_header cause ca) ?a, DestroyIO p] \<and> res = None"
      using asdu False True by (auto simp: single_object_asdu_def single_header_def Let_def)
    with True p show ?thesis
      by (simp add: heap_after_append heap1 restore fun_upd_idem)
  next
    case nonnull: False
    have "calls2 = calls1 @ [CreateAsdu (single_header cause ca) ?a, AddIO ?a p, DestroyIO p]
        \<and> res = Some ?a"
      using asdu False nonnull by (auto simp: single_object_asdu_def single_header_def Let_def)
    with nonnull p a show ?thesis
      by (simp add: heap_after_append heap1 restore fun_upd_idem not_live)
  qed
qed

lemma send_to_connection_heap:
  assumes "heap_after calls = Some (h\<lparr>heap_asdu := (heap_asdu h)(a \<mapsto> c)\<rparr>)" and "a \<notin> live h"
    and "send_to_connection env conn a calls = (sent, calls')"
  shows "heap_after calls' = Some (hand_over (Sent conn c sent) h)"
  using assms
  by (auto simp: send_to_connection_def Let_def heap_after_append hand_over_def not_live
      fun_upd_idem)

lemma send_untimed_heap:
  assumes h: "heap_after calls = Some h"
    and run: "send_untimed_to_connection env conn cause ca ioa v q calls = (sent, calls')"
  shows "heap_after calls' = Some h \<and> \<not> sent \<or>
    heap_after calls' =
      Some (hand_over (Sent conn (single_header cause ca, [untimed_object ioa v q]) sent) h)"
proof -
  obtain p calls1 where io: "create_io env (untimed_object ioa v q) calls = (p, calls1)" by fastforce
  obtain res calls2 where asdu: "single_object_asdu env cause ca p calls1 = (res, calls2)" by fastforce
  show ?thesis
    using object_asdu_heap [OF h io asdu] run send_to_connection_heap
    by (cases res) (auto simp: send_untimed_to_connection_def io asdu)
qed

lemma timed_asdu_heap:
  assumes h: "heap_after calls = Some h" and asdu: "timed_asdu env td calls = (res, calls')"
  shows "case res of
      None \<Rightarrow> heap_after calls' = Some h
    | Some a \<Rightarrow> a \<notin> live h \<and>
        heap_after calls' = Some (h\<lparr>heap_asdu := (heap_asdu h)
          (a \<mapsto> (single_header (td_cot td) (td_ca td), [timed_object td]))\<rparr>)"
proof -
  obtain p calls1 where io: "create_io env (timed_object td) calls = (p, calls1)" by fastforce
  then have "single_object_asdu env (td_cot td) (td_ca td) p calls1 = (res, calls')"
    using asdu by (simp add: timed_asdu_def create_information_object_def timed_object_def)
  from object_asdu_heap [OF h io this] show ?thesis .
qed

lemma send_timed_heap:
  assumes h: "heap_after calls = Some h"
    and run: "send_timed_to_connection env conn td calls = (sent, calls')"
  shows "heap_after calls' = Some h \<and> \<not> sent \<or>
    heap_after calls' = Some
      (hand_over (Sent conn (single_header (td_cot td) (td_ca td), [timed_object td]) sent) h)"
proof -
  obtain res calls1 where asdu: "timed_asdu env td calls = (res, calls1)" by fastforce
  show ?thesis
    using timed_asdu_heap [OF h asdu] run send_to_connection_heap
    by (cases res) (auto simp: send_timed_to_connection_def asdu)
qed

lemma enqueue_timed_heap:
  assumes h: "heap_after calls = Some h"
    and run: "enqueue_timed_asdu env td calls = (queued, calls')"
  shows "heap_after calls' = Some h \<and> \<not> queued \<or>
    queued \<and> (\<exists>srv. td_server_ptr td = Some srv \<and>
      heap_after calls' = Some
        (hand_over (Enqueued srv (single_header (td_cot td) (td_ca td), [timed_object td])) h))"
proof -
  obtain res calls1 where asdu: "timed_asdu env td calls = (res, calls1)" by fastforce
  show ?thesis
    using timed_asdu_heap [OF h asdu] h run
    by (cases res; cases "td_server_ptr td")
      (auto simp: enqueue_timed_asdu_def asdu heap_after_append hand_over_def not_live
        fun_upd_idem)
qed

end

section \<open>A library that meets the contract\<close>

text \<open>
  A library that never reuses a handle and whose connection queue takes \<open>cap\<close> entries, the
  confirmation and the termination of an interrogation among them. It shows that the contract
  can be met, and the witnesses run on it.
\<close>

fun created :: "NativeCall \<Rightarrow> ptr" where
  "created (CreateIO io p) = p"
| "created (CreateAsdu hdr p) = p"
| "created _ = 0"

fun queued_entries :: "NativeCall \<Rightarrow> nat" where
  "queued_entries (SendAsdu conn a sent) = (if sent then 1 else 0)"
| "queued_entries (SendActCon conn req neg sent) = (if sent then 1 else 0)"
| "queued_entries (SendActTerm conn req sent) = (if sent then 1 else 0)"
| "queued_entries _ = 0"

definition next_handle :: "call_log \<Rightarrow> ptr" where
  "next_handle calls = Suc (sum_list (map created calls))"

definition has_room :: "nat \<Rightarrow> call_log \<Rightarrow> bool" where
  "has_room cap calls \<longleftrightarrow> sum_list (map queued_entries calls) < cap"

definition queue_env :: "nat \<Rightarrow> native_env" where
  "queue_env cap = \<lparr>
     ret_create_io = (\<lambda>calls io. next_handle calls),
     ret_create_asdu = (\<lambda>calls hdr. next_handle calls),
     ret_send_asdu = (\<lambda>calls conn a. has_room cap calls),
     ret_act_con = (\<lambda>calls conn neg. has_room cap calls),
     ret_act_term = (\<lambda>calls conn. has_room cap calls)\<rparr>"

lemma exec_call_live:
  assumes "exec_call c h = Some h'" and "p \<in> live h'"
  shows "p \<in> live h \<or> p = created c"
  using assms
  by (cases c) (auto simp: live_def hand_over_def domIff split: if_splits option.splits prod.splits)

lemma exec_log_live:
  assumes "exec_log cs h = Some h'" and "p \<in> live h'"
  shows "p \<in> live h \<or> p \<le> sum_list (map created cs)"
  using assms
proof (induction cs arbitrary: h)
  case (Cons c cs)
  then obtain h1 where step: "exec_call c h = Some h1" "exec_log cs h1 = Some h'"
    by (auto split: option.splits)
  from Cons.IH [OF step(2) Cons.prems(2)] exec_call_live [OF step(1), of p] show ?case by fastforce
qed simp

lemma queue_env_fresh: "fresh_allocator (queue_env cap)"
proof -
  have "next_handle calls \<notin> live h" if "heap_after calls = Some h" for calls h
    using exec_log_live [of calls empty_heap h "next_handle calls"] that
    by (auto simp: heap_after_def empty_heap_def live_def next_handle_def)
  then show ?thesis by (simp add: fresh_allocator_def queue_env_def)
qed

interpretation queue_lib: native_lib "queue_env cap" for cap
  by unfold_locales (rule queue_env_fresh)

lemmas native_run =
  queue_env_def next_handle_def has_room_def create_io_def single_object_asdu_def
  send_to_connection_def timed_asdu_def create_information_object_def Let_def

section \<open>Properties\<close>

text \<open>C10: Sending one untimed point to a connection frees every object it creates, whatever the
  library answers: afterwards the library's heap holds what it held before. The point is handed
  to the connection exactly when the result says so, as the only object of one ASDU whose cause,
  address, value and quality are the arguments.\<close>

theorem send_untimed_safe:
  assumes "fresh_allocator env" and "heap_after calls = Some h"
    and "send_untimed_to_connection env conn cause ca ioa v q calls = (sent, calls')"
  shows "\<exists>h'. heap_after calls' = Some h' \<and> heap_io h' = heap_io h \<and> heap_asdu h' = heap_asdu h \<and>
    (sent \<longrightarrow> heap_out h' = heap_out h @
       [Sent conn (single_header cause ca, [untimed_object ioa v q]) True]) \<and>
    (\<not> sent \<longrightarrow> heap_out h' = heap_out h \<or> heap_out h' = heap_out h @
       [Sent conn (single_header cause ca, [untimed_object ioa v q]) False])"
  using native_lib.send_untimed_heap [OF native_lib.intro, OF assms]
  by (cases sent) (auto simp: hand_over_def)

text \<open>On a queue for one entry the first point is sent and the second refused, with nothing left
  behind.\<close>

theorem send_untimed_safe_witness:
  "\<exists>calls h. send_untimed_to_connection (queue_env 1) 7 COT_InterrogatedByStation 1 100
       (UScaled 5) 0 [] = (True, calls) \<and>
     heap_after calls = Some h \<and> heap_io h = Map.empty \<and> heap_asdu h = Map.empty \<and>
     heap_out h = [Sent 7 (single_header COT_InterrogatedByStation 1,
                           [MeasuredValueScaled 100 5 0]) True] \<and>
     \<not> fst (send_untimed_to_connection (queue_env 1) 7 COT_InterrogatedByStation 1 101
       (Single True) 0 calls)"
proof -
  let ?calls = "[CreateIO (MeasuredValueScaled 100 5 0) 1,
    CreateAsdu (single_header COT_InterrogatedByStation 1) 2, AddIO 2 1, DestroyIO 1,
    SendAsdu 7 2 True, DestroyAsdu 2]"
  have run: "send_untimed_to_connection (queue_env 1) 7 COT_InterrogatedByStation 1 100
      (UScaled 5) 0 [] = (True, ?calls)"
    by (simp add: send_untimed_to_connection_def native_run single_header_def)
  have "\<not> fst (send_untimed_to_connection (queue_env 1) 7 COT_InterrogatedByStation 1 101
      (Single True) 0 ?calls)"
    by (simp add: send_untimed_to_connection_def native_run)
  with send_untimed_safe [OF queue_env_fresh _ run, of empty_heap] run show ?thesis
    by (auto simp: heap_after_def empty_heap_def)
qed

text \<open>C40: The same for a time-tagged point on a connection: no object is leaked, freed twice or used
  after it is freed, and the connection receives the one time-tagged object the request
  describes exactly when the result is true.\<close>

theorem send_timed_safe:
  assumes "fresh_allocator env" and "heap_after calls = Some h"
    and "send_timed_to_connection env conn td calls = (sent, calls')"
  shows "\<exists>h'. heap_after calls' = Some h' \<and> heap_io h' = heap_io h \<and> heap_asdu h' = heap_asdu h \<and>
    (sent \<longrightarrow> heap_out h' = heap_out h @
       [Sent conn (single_header (td_cot td) (td_ca td), [timed_object td]) True]) \<and>
    (\<not> sent \<longrightarrow> heap_out h' = heap_out h \<or> heap_out h' = heap_out h @
       [Sent conn (single_header (td_cot td) (td_ca td), [timed_object td]) False])"
  using native_lib.send_timed_heap [OF native_lib.intro, OF assms]
  by (cases sent) (auto simp: hand_over_def)

definition td_example :: TimedDispatch where
  "td_example = \<lparr>td_server_ptr = Some 3, td_cot = COT_Spontaneous, td_ca = 1, td_ioa = 9,
     td_value = Bool True, td_data_type = SinglePoint, td_quality = Quality_INVALID,
     td_timestamp = Timestamp_from_ms 1000\<rparr>"

theorem send_timed_safe_witness:
  "\<exists>calls h. send_timed_to_connection (queue_env 1) 7 td_example [] = (True, calls) \<and>
     heap_after calls = Some h \<and> heap_io h = Map.empty \<and> heap_asdu h = Map.empty \<and>
     heap_out h = [Sent 7 (single_header COT_Spontaneous 1,
       [SinglePointWithCP56Time2a 9 True Quality_INVALID (Timestamp_from_ms 1000)]) True]"
proof -
  obtain calls where run: "send_timed_to_connection (queue_env 1) 7 td_example [] = (True, calls)"
    by (simp add: send_timed_to_connection_def native_run)
  with send_timed_safe [OF queue_env_fresh _ run, of empty_heap] show ?thesis
    by (auto simp: heap_after_def empty_heap_def timed_object_def td_example_def value_is_on_def)
qed

text \<open>C14: A time-tagged point is enqueued at the server exactly once when the result is true, and
  not at all when it is false; a request without a server is refused without any call; in every
  case the library's heap is left as it was.\<close>

theorem enqueue_timed_safe:
  assumes "fresh_allocator env" and "heap_after calls = Some h"
    and "enqueue_timed_asdu env td calls = (queued, calls')"
  shows "(td_server_ptr td = None \<longrightarrow> \<not> queued \<and> calls' = calls) \<and>
    (\<exists>h'. heap_after calls' = Some h' \<and> heap_io h' = heap_io h \<and> heap_asdu h' = heap_asdu h \<and>
       heap_out h' = heap_out h @
         (case td_server_ptr td of
            Some srv \<Rightarrow>
              if queued then [Enqueued srv (single_header (td_cot td) (td_ca td), [timed_object td])]
              else []
          | None \<Rightarrow> []))"
proof -
  have "td_server_ptr td = None \<longrightarrow> \<not> queued \<and> calls' = calls"
    using assms(3) by (auto simp: enqueue_timed_asdu_def)
  with native_lib.enqueue_timed_heap [OF native_lib.intro, OF assms] show ?thesis
    by (auto simp: hand_over_def split: option.split)
qed

theorem enqueue_timed_safe_witness:
  "\<exists>calls h. enqueue_timed_asdu (queue_env 0) td_example [] = (True, calls) \<and>
     heap_after calls = Some h \<and> heap_io h = Map.empty \<and> heap_asdu h = Map.empty \<and>
     heap_out h = [Enqueued 3 (single_header COT_Spontaneous 1,
       [SinglePointWithCP56Time2a 9 True Quality_INVALID (Timestamp_from_ms 1000)])]"
proof -
  obtain calls where run: "enqueue_timed_asdu (queue_env 0) td_example [] = (True, calls)"
    by (simp add: enqueue_timed_asdu_def native_run td_example_def)
  with enqueue_timed_safe [OF queue_env_fresh _ run, of empty_heap] show ?thesis
    by (auto simp: heap_after_def empty_heap_def timed_object_def td_example_def value_is_on_def)
qed

end
