(* ===== verification/Bridge.thy ===== *)
theory Bridge
  imports Asdu "HOL-Library.Sublist"
begin

text \<open>
  From a message to calls on a sink, \<open>src/src/bridge.rs\<close>: the quality and cause tables, type
  inference, the output policy, and dispatch on any sink; the sinks themselves are in \<open>Sinks\<close>.
\<close>

unbundle bit_operations_syntax

section \<open>Quality and cause of transmission\<close>

definition QUALITY_MAP :: "Quality list" where
  "QUALITY_MAP =
     [Quality_GOOD, Quality_INVALID, Quality_NOT_TOPICAL, Quality_SUBSTITUTED, Quality_BLOCKED,
      Quality_OVERFLOW]"

definition COT_MAP :: "CauseOfTransmission list" where
  "COT_MAP =
     [COT_Spontaneous, COT_Periodic, COT_Background, COT_InterrogatedByStation,
      COT_ReturnRemote, COT_ReturnLocal]"

text \<open>The casts \<open>q as usize\<close> and \<open>cot as usize\<close>: the position among the variants.\<close>

fun QualityField_index :: "QualityField \<Rightarrow> nat" where
  "QualityField_index Good = 0"
| "QualityField_index Invalid = 1"
| "QualityField_index NotTopical = 2"
| "QualityField_index Substituted = 3"
| "QualityField_index Blocked = 4"
| "QualityField_index Overflow = 5"

fun CotField_index :: "CotField \<Rightarrow> nat" where
  "CotField_index Spontaneous = 0"
| "CotField_index Periodic = 1"
| "CotField_index BackgroundScan = 2"
| "CotField_index Interrogated = 3"
| "CotField_index ReturnInfoRemote = 4"
| "CotField_index ReturnInfoLocal = 5"

definition map_quality :: "QualityField \<Rightarrow> Quality" where
  "map_quality q = QUALITY_MAP ! QualityField_index q"

definition map_cot :: "CotField \<Rightarrow> CauseOfTransmission" where
  "map_cot c = COT_MAP ! CotField_index c"

lemma map_quality_simps [simp]:
  "map_quality Good = 0" "map_quality Invalid = 0x80" "map_quality NotTopical = 0x40"
  "map_quality Substituted = 0x20" "map_quality Blocked = 0x10" "map_quality Overflow = 0x01"
  by (simp_all add: map_quality_def QUALITY_MAP_def quality_bits)

lemma map_cot_simps [simp]:
  "map_cot Spontaneous = COT_Spontaneous" "map_cot Periodic = COT_Periodic"
  "map_cot BackgroundScan = COT_Background" "map_cot Interrogated = COT_InterrogatedByStation"
  "map_cot ReturnInfoRemote = COT_ReturnRemote" "map_cot ReturnInfoLocal = COT_ReturnLocal"
  by (simp_all add: map_cot_def COT_MAP_def)

section \<open>Type inference\<close>

definition is_scaled_number :: "f64 \<Rightarrow> bool" where
  "is_scaled_number x \<longleftrightarrow> f64_fract_is_zero x \<and> f64_le f64_i16_min x \<and> f64_le x f64_i16_max"

fun infer_type :: "DataValue \<Rightarrow> DataType" where
  "infer_type (Bool _) = SinglePoint"
| "infer_type (Number x) = (if is_scaled_number x then Scaled else Float)"

section \<open>The output policy\<close>

record OutputPolicy =
  send_timestamps :: bool
  max_age :: "Duration option"

definition OutputPolicy_default :: OutputPolicy where
  "OutputPolicy_default = \<lparr>send_timestamps = True, max_age = None\<rparr>"

record Outgoing =
  out_message :: Iec104Message
  not_topical :: bool

definition prepare_for_output ::
  "Iec104Message \<Rightarrow> OffsetDateTime \<Rightarrow> OffsetDateTime \<Rightarrow> OutputPolicy \<Rightarrow> Outgoing" where
  "prepare_for_output msg received_at now policy =
     (let older_than_limit = (\<lambda>limit t. elapsed_exceeds now t limit);
          nt = (case max_age policy of
                  None \<Rightarrow> False
                | Some limit \<Rightarrow>
                    let stale = older_than_limit limit received_at \<or>
                          (case msg_timestamp msg of
                             None \<Rightarrow> False
                           | Some t \<Rightarrow> older_than_limit limit t)
                    in stale \<and> msg_quality msg \<noteq> Invalid);
          message = (if \<not> send_timestamps policy then msg\<lparr>msg_timestamp := None\<rparr> else msg)
      in \<lparr>out_message = message, not_topical = nt\<rparr>)"

section \<open>Dispatch\<close>

record DispatchContext =
  ctx_ca :: u16
  ctx_ioa :: u32
  ctx_quality :: Quality
  ctx_cot :: CauseOfTransmission
  ctx_data_type :: DataType
  ctx_timestamp :: "Timestamp option"

text \<open>The cast \<open>i128 as u64\<close> keeps the low 64 bits; the division is unsigned.\<close>

definition offset_datetime_to_cp56_timestamp :: "OffsetDateTime \<Rightarrow> Timestamp" where
  "offset_datetime_to_cp56_timestamp t =
     Timestamp_from_ms ((word_of_int (unix_timestamp_nanos t) :: u64) div 1000000)"

definition DispatchContext_from_message :: "Iec104Message \<Rightarrow> u16 \<Rightarrow> DispatchContext" where
  "DispatchContext_from_message msg default_ca = \<lparr>
     ctx_ca = unwrap_or (msg_ca msg) default_ca,
     ctx_ioa = msg_ioa msg,
     ctx_quality = map_quality (msg_quality msg),
     ctx_cot = map_cot (msg_cot msg),
     ctx_data_type = (case msg_data_type msg of None \<Rightarrow> infer_type (msg_value msg) | Some t \<Rightarrow> t),
     ctx_timestamp = map_option offset_datetime_to_cp56_timestamp (msg_timestamp msg)\<rparr>"

fun as_single_point_value :: "DataValue \<Rightarrow> bool" where
  "as_single_point_value (Bool b) = b"
| "as_single_point_value (Number x) = (\<not> f64_eq x (F64 0))"

fun as_float_value :: "DataValue \<Rightarrow> f32" where
  "as_float_value (Bool b) = (if b then f32_one else f32_zero)"
| "as_float_value (Number x) = f64_to_f32 x"

fun as_scaled_value :: "DataValue \<Rightarrow> i16" where
  "as_scaled_value (Bool b) = (if b then 1 else 0)"
| "as_scaled_value (Number x) = f64_as_i16 (f64_clamp x f64_i16_min f64_i16_max)"

definition dispatch_single_point ::
  "'s DataSink \<Rightarrow> DispatchContext \<Rightarrow> DataValue \<Rightarrow> 's \<Rightarrow> 's" where
  "dispatch_single_point sink ctx v =
     (case ctx_timestamp ctx of
        Some ts \<Rightarrow> enqueue_timed sink
          \<lparr>td_server_ptr = None, td_cot = ctx_cot ctx, td_ca = ctx_ca ctx, td_ioa = ctx_ioa ctx,
           td_value = v, td_data_type = SinglePoint, td_quality = ctx_quality ctx,
           td_timestamp = ts\<rparr>
      | None \<Rightarrow> send_single_point sink (ctx_cot ctx) (ctx_ca ctx) (ctx_ioa ctx)
          (as_single_point_value v) (ctx_quality ctx))"

definition dispatch_float_like ::
  "'s DataSink \<Rightarrow> DispatchContext \<Rightarrow> DataValue \<Rightarrow> 's \<Rightarrow> 's" where
  "dispatch_float_like sink ctx v =
     (case ctx_timestamp ctx of
        Some ts \<Rightarrow> enqueue_timed sink
          \<lparr>td_server_ptr = None, td_cot = ctx_cot ctx, td_ca = ctx_ca ctx, td_ioa = ctx_ioa ctx,
           td_value = v, td_data_type = ctx_data_type ctx, td_quality = ctx_quality ctx,
           td_timestamp = ts\<rparr>
      | None \<Rightarrow> send_measured_float sink (ctx_cot ctx) (ctx_ca ctx) (ctx_ioa ctx)
          (as_float_value v) (ctx_quality ctx))"

definition dispatch_scaled ::
  "'s DataSink \<Rightarrow> DispatchContext \<Rightarrow> DataValue \<Rightarrow> 's \<Rightarrow> 's" where
  "dispatch_scaled sink ctx v =
     (case ctx_timestamp ctx of
        Some ts \<Rightarrow> enqueue_timed sink
          \<lparr>td_server_ptr = None, td_cot = ctx_cot ctx, td_ca = ctx_ca ctx, td_ioa = ctx_ioa ctx,
           td_value = v, td_data_type = Scaled, td_quality = ctx_quality ctx,
           td_timestamp = ts\<rparr>
      | None \<Rightarrow> send_measured_scaled sink (ctx_cot ctx) (ctx_ca ctx) (ctx_ioa ctx)
          (as_scaled_value v) (ctx_quality ctx))"

definition dispatch_double_point ::
  "'s DataSink \<Rightarrow> DispatchContext \<Rightarrow> DataValue \<Rightarrow> 's \<Rightarrow> 's" where
  "dispatch_double_point sink ctx v = dispatch_single_point sink ctx v"

definition dispatch_context ::
  "'s DataSink \<Rightarrow> DispatchContext \<Rightarrow> DataValue \<Rightarrow> 's \<Rightarrow> 's" where
  "dispatch_context sink ctx v =
     (case ctx_data_type ctx of
        SinglePoint \<Rightarrow> dispatch_single_point sink ctx v
      | Float \<Rightarrow> dispatch_float_like sink ctx v
      | Normalized \<Rightarrow> dispatch_float_like sink ctx v
      | Scaled \<Rightarrow> dispatch_scaled sink ctx v
      | DoublePoint \<Rightarrow> dispatch_double_point sink ctx v)"

definition dispatch :: "'s DataSink \<Rightarrow> Iec104Message \<Rightarrow> u16 \<Rightarrow> 's \<Rightarrow> 's" where
  "dispatch sink msg default_ca =
     dispatch_context sink (DispatchContext_from_message msg default_ca) (msg_value msg)"

definition dispatch_outgoing :: "'s DataSink \<Rightarrow> Outgoing \<Rightarrow> u16 \<Rightarrow> 's \<Rightarrow> 's" where
  "dispatch_outgoing sink out default_ca =
     (let ctx = DispatchContext_from_message (out_message out) default_ca;
          ctx = (if not_topical out
                 then ctx\<lparr>ctx_quality := ctx_quality ctx OR Quality_NOT_TOPICAL\<rparr> else ctx)
      in dispatch_context sink ctx (msg_value (out_message out)))"

section \<open>Value conversions\<close>

lemma f64_i16_bounds:
  "\<not> f64_is_nan f64_i16_min" "\<not> f64_is_nan f64_i16_max"
  "f64_is_finite f64_i16_min" "f64_is_finite f64_i16_max"
  "f64_key f64_i16_min \<le> f64_key f64_i16_max"
  "f64_trunc f64_i16_min = - 32768" "f64_trunc f64_i16_max = 32767"
  "f64_fract_is_zero f64_i16_min" "f64_fract_is_zero f64_i16_max"
  by (simp_all add: f64_i16_min_def f64_i16_max_def float_eval)

lemma f64_i16_real: "f64_real f64_i16_min = - 32768" "f64_real f64_i16_max = 32767"
  using f64_trunc_integral [OF f64_i16_bounds(8)] f64_trunc_integral [OF f64_i16_bounds(9)]
  by (simp_all add: f64_i16_bounds)

lemma saturate_clamp_i16:
  assumes "l \<le> - 32768" and "32767 \<le> h"
  shows "saturate l h (f64_clamp x f64_i16_min f64_i16_max) = saturate (- 32768) 32767 x"
  using saturate_clamp [OF f64_i16_bounds(1,2,5,6,7) assms] by simp

lemma as_scaled_value_number:
  "sint (as_scaled_value (Number x)) = saturate (- 32768) 32767 x"
  by (simp add: word_facts saturate_clamp_i16)

lemma timed_scaled_value_number:
  "sint (timed_scaled_value (Number x)) = saturate (- 32768) 32767 x"
  by (simp add: timed_scaled_value_def word_facts saturate_clamp_i16)

lemma f64_fract_is_zero_real:
  assumes "f64_is_finite x"
  shows "f64_fract_is_zero x \<longleftrightarrow> (\<exists>k. f64_real x = of_int k)"
proof
  assume "f64_fract_is_zero x"
  then show "\<exists>k. f64_real x = of_int k" using f64_trunc_integral by metis
next
  assume "\<exists>k. f64_real x = of_int k"
  then obtain k where "f64_real x = of_int k" by blast
  then have "real_of_int (signed_units x) = of_int (k * 2 ^ unit_exp)"
    by (simp add: f64_real_signed_units field_simps)
  then have "signed_units x = k * 2 ^ unit_exp" by (simp only: of_int_eq_iff)
  then have "2 ^ unit_exp dvd signed_units x" by simp
  then have "int (2 ^ unit_exp) dvd int (mag_units (f64_mag x))"
    by (simp add: signed_units_def split: if_splits)
  then show "f64_fract_is_zero x"
    using assms by (simp only: int_dvd_int_iff f64_fract_is_zero_def mag_integral_units)
qed

lemma is_scaled_number_iff:
  "is_scaled_number x \<longleftrightarrow>
     f64_is_finite x \<and> (\<exists>k. - 32768 \<le> k \<and> k \<le> 32767 \<and> f64_real x = of_int k)"
proof (cases "f64_is_finite x")
  case True
  have "f64_fract_is_zero x \<longleftrightarrow> (\<exists>k. f64_real x = of_int k)"
    using True f64_fract_is_zero_real by blast
  moreover have "f64_le f64_i16_min x \<longleftrightarrow> - 32768 \<le> f64_real x"
    "f64_le x f64_i16_max \<longleftrightarrow> f64_real x \<le> 32767"
    using f64_le_iff_real [OF f64_i16_bounds(3) True] f64_le_iff_real [OF True f64_i16_bounds(4)]
    by (simp_all add: f64_i16_real)
  ultimately show ?thesis using True by (auto simp: is_scaled_number_def)
next
  case False
  then show ?thesis by (simp add: is_scaled_number_def f64_fract_is_zero_def)
qed

lemma f64_trunc_floor_ceiling:
  "f64_trunc x = (if f64_real x < 0 then \<lceil>f64_real x\<rceil> else \<lfloor>f64_real x\<rfloor>)"
proof -
  let ?t = "f64_trunc x" and ?r = "f64_real x"
  have sign: "f64_neg x \<Longrightarrow> ?t \<le> 0 \<and> ?r \<le> 0" "\<not> f64_neg x \<Longrightarrow> 0 \<le> ?t \<and> 0 \<le> ?r"
    by (simp_all add: f64_trunc_def f64_real_def)
  note near = f64_trunc_real [of x]
  show ?thesis
  proof (cases "f64_neg x")
    case True
    with sign near have "?r \<le> of_int ?t" "of_int ?t < ?r + 1" by linarith+
    then have "\<lceil>?r\<rceil> = ?t" by (simp add: ceiling_unique)
    moreover have "?t = 0" if "?r = 0" using that near by simp
    ultimately show ?thesis using sign(1) [OF True] by auto
  next
    case False
    with sign near have "of_int ?t \<le> ?r" "?r < of_int ?t + 1" by linarith+
    then have "\<lfloor>?r\<rfloor> = ?t" by (simp add: floor_unique)
    then show ?thesis using sign(2) [OF False] by auto
  qed
qed

lemma same_quotient_close:
  fixes x y c :: int
  assumes "x div c = y div c" and "0 < c"
  shows "\<bar>x - y\<bar> < c"
proof -
  have "x - y = x mod c - y mod c"
    using div_mult_mod_eq [of x c] div_mult_mod_eq [of y c] assms(1) by (metis add_diff_cancel_left)
  with assms(2) pos_mod_bound [of c x] pos_mod_bound [of c y] pos_mod_sign [of c x]
    pos_mod_sign [of c y] show ?thesis by linarith
qed

lemma saturate_infinite:
  assumes "\<not> f64_is_finite x" and "\<not> f64_is_nan x"
  shows "saturate (- 32768) 32767 x = (if f64_neg x then - 32768 else 32767)"
proof -
  have "f64_mag x = f64_inf_mag" using assms by (simp add: f64_is_finite_def f64_is_nan_def)
  then have "mag_trunc (f64_mag x) = 2 ^ 52 * 2 ^ 972"
    by (simp add: mag_trunc_def f64_inf_mag_def Let_def)
  then show ?thesis using assms(2) by (simp add: saturate_def f64_trunc_def)
qed

lemma f64_in_f32_normal_range:
  assumes "1 / 2 ^ 126 \<le> \<bar>f64_real x\<bar>" and "\<bar>f64_real x\<bar> < 2 ^ 127"
  shows "f32_normal_range x"
proof -
  have lo: "mag_units (897 * 2 ^ 52) = 2 ^ 948" and hi: "mag_units (1150 * 2 ^ 52) = 2 ^ 1201"
    using mag_units_at [of 0 896] mag_units_at [of 0 1149] by (simp_all flip: power_add)
  have r: "\<bar>f64_real x\<bar> = real (mag_units (f64_mag x)) / 2 ^ unit_exp"
    by (simp add: f64_real_def)
  have "(2::real) ^ 948 = 2 ^ unit_exp / 2 ^ 126" "(2::real) ^ 1201 = 2 ^ 127 * 2 ^ unit_exp"
    by (simp_all add: unit_exp_def flip: power_diff power_add)
  with assms r have "real (2 ^ 948) \<le> real (mag_units (f64_mag x))"
    "real (mag_units (f64_mag x)) < real (2 ^ 1201)"
    by (simp_all add: field_simps)
  then have "mag_units (897 * 2 ^ 52) \<le> mag_units (f64_mag x)"
    "mag_units (f64_mag x) < mag_units (1150 * 2 ^ 52)"
    unfolding lo hi by (simp_all only: of_nat_le_iff of_nat_less_iff)
  then show ?thesis
    unfolding f32_normal_range_def mag_units_less_iff
    using mag_units_less_iff [of "f64_mag x" "897 * 2 ^ 52"] by linarith
qed

section \<open>Properties\<close>

text \<open>C15: A number sent as a scaled value is truncated towards zero and clamped to the i16 range;
  not-a-number becomes 0 and the infinities the ends of the range. The untimed and the
  time-tagged path put the same value on the wire, for booleans too.\<close>

theorem scaled_value_spec:
  "sint (as_scaled_value (Number x)) =
     (if f64_is_finite x
      then max (- 32768) (min 32767
        (if f64_real x < 0 then \<lceil>f64_real x\<rceil> else \<lfloor>f64_real x\<rfloor>))
      else if f64_is_nan x then 0 else if f64_neg x then - 32768 else 32767) \<and>
   sint (timed_scaled_value v) = sint (as_scaled_value v)"
proof
  have "f64_is_finite x \<Longrightarrow> \<not> f64_is_nan x" by (simp add: f64_is_finite_def f64_is_nan_def)
  then show "sint (as_scaled_value (Number x)) =
     (if f64_is_finite x
      then max (- 32768) (min 32767
        (if f64_real x < 0 then \<lceil>f64_real x\<rceil> else \<lfloor>f64_real x\<rfloor>))
      else if f64_is_nan x then 0 else if f64_neg x then - 32768 else 32767)"
    unfolding as_scaled_value_number f64_trunc_floor_ceiling [symmetric]
    using saturate_infinite [of x] by (auto simp: saturate_def)
  show "sint (timed_scaled_value v) = sint (as_scaled_value v)"
  proof (cases v)
    case (Bool b)
    then show ?thesis by (cases b) (simp_all add: timed_scaled_value_def)
  next
    case (Number y)
    then show ?thesis by (simp only: as_scaled_value_number timed_scaled_value_number)
  qed
qed

text \<open>C26: Without a type, a number becomes a scaled value exactly when it is an integer of the i16
  range, and a number inferred to be scaled is sent without loss.\<close>

theorem inferred_scaled_lossless:
  "(infer_type (Number x) = Scaled \<longleftrightarrow>
      f64_is_finite x \<and> (\<exists>k. - 32768 \<le> k \<and> k \<le> 32767 \<and> f64_real x = of_int k)) \<and>
   (infer_type (Number x) = Scaled \<longrightarrow>
      real_of_int (sint (as_scaled_value (Number x))) = f64_real x)"
proof -
  have scaled: "infer_type (Number x) = Scaled \<longleftrightarrow> is_scaled_number x" by simp
  have "real_of_int (sint (as_scaled_value (Number x))) = f64_real x" if "is_scaled_number x"
  proof -
    from that obtain k where k: "- 32768 \<le> k" "k \<le> 32767" "f64_real x = of_int k"
      and fin: "f64_is_finite x" unfolding is_scaled_number_iff by blast
    then have "f64_trunc x = k" by (simp add: f64_trunc_floor_ceiling)
    with k fin show ?thesis
      by (simp add: as_scaled_value_number saturate_def f64_is_finite_def f64_is_nan_def
          del: as_scaled_value.simps)
  qed
  then show ?thesis unfolding scaled is_scaled_number_iff [symmetric] by blast
qed

theorem inferred_scaled_lossless_witness:
  "infer_type (Number (f64_of_int 42)) = Scaled \<and>
   real_of_int (sint (as_scaled_value (Number (f64_of_int 42)))) = 42"
proof -
  have "infer_type (Number (f64_of_int 42)) = Scaled"
    by (simp add: is_scaled_number_def f64_i16_min_def f64_i16_max_def float_eval)
  with inferred_scaled_lossless [of "f64_of_int 42"] f64_of_int_exact(2) [of 42]
  show ?thesis by (simp del: infer_type.simps as_scaled_value.simps)
qed

definition json_integer :: "int \<Rightarrow> json" where
  "json_integer k = JNumber (if k < 0 then NegInt (word_of_int k) else PosInt (word_of_int k))"

text \<open>C36: A JSON integer of the i16 range without a type is sent as the scaled value of exactly
  that integer, time-tagged or not.\<close>

theorem json_integer_scaled:
  assumes "- 32768 \<le> k" and "k \<le> 32767"
  shows "\<exists>v. de_DataValue (json_integer k) = Some v \<and> infer_type v = Scaled \<and>
    sint (as_scaled_value v) = k \<and> sint (timed_scaled_value v) = k"
proof -
  let ?v = "Number (f64_of_int k)"
  have small: "\<bar>k\<bar> < 2 ^ 53" using assms by simp
  note exact = f64_of_int_exact [OF small]
  have "sint (word_of_int k :: u64) = k" "0 \<le> k \<Longrightarrow> uint (word_of_int k :: u64) = k"
    using assms by (simp_all add: sint_sbintrunc' signed_take_bit_int_eq_self
        uint_word_of_int take_bit_int_eq_self)
  then have "de_DataValue (json_integer k) = Some ?v" by (simp add: json_integer_def)
  moreover have "infer_type ?v = Scaled"
    using assms exact by (auto simp: is_scaled_number_iff)
  moreover have "saturate (- 32768) 32767 (f64_of_int k) = k"
    using assms exact by (simp add: saturate_def f64_is_finite_def f64_is_nan_def)
  ultimately show ?thesis
    using as_scaled_value_number [of "f64_of_int k"] timed_scaled_value_number [of "f64_of_int k"]
    by metis
qed

theorem json_integer_scaled_witness:
  "\<exists>v. de_DataValue (json_integer (- 12)) = Some v \<and> infer_type v = Scaled \<and>
    sint (as_scaled_value v) = - 12 \<and> sint (timed_scaled_value v) = - 12"
  by (rule json_integer_scaled) simp_all

text \<open>C28: A message of type normalized that passes validation is sent as a finite single precision
  value between -1 and 1, on the untimed and on the time-tagged path.\<close>

theorem normalized_stays_in_range:
  assumes "validate_message msg = Inr ()" and "msg_data_type msg = Some Normalized"
  shows "\<bar>f32_real (as_float_value (msg_value msg))\<bar> \<le> 1 \<and>
    f32_mag (as_float_value (msg_value msg)) < f32_inf_mag \<and>
    timed_float_value (msg_value msg) = as_float_value (msg_value msg)"
proof -
  from assms obtain x where x: "msg_value msg = Number x"
    and range: "f64_is_finite x" "\<bar>f64_real x\<bar> \<le> 1"
    by (auto simp: validate_message_iff valid_message_def)
  then have key: "\<bar>f64_key x\<bar> \<le> 1023 * 2 ^ 52"
    using f64_between_ones f64_between_ones_real by blast
  then have "f64_mag x \<le> 1023 * 2 ^ 52" by (simp add: f64_key_def split: if_splits)
  then have "f32_mag (f64_to_f32 x) < f32_inf_mag"
    using mag_to_f32_le_one range(1) f64_to_f32_parts(1) by (fastforce simp: f32_inf_mag_def)
  then show ?thesis
    using f64_to_f32_unit_interval [OF range(1) key] by (simp add: x timed_float_value_def)
qed

theorem normalized_stays_in_range_witness:
  "\<bar>f32_real (as_float_value (Number (F64 0xBFD0000000000000)))\<bar> \<le> 1"
proof -
  let ?msg = "\<lparr>msg_ioa = 5, msg_value = Number (F64 0xBFD0000000000000),
    msg_data_type = Some Normalized, msg_ca = None, msg_quality = Good, msg_cot = Spontaneous,
    msg_timestamp = None\<rparr>"
  have "validate_message ?msg = Inr ()"
    by (simp add: validate_message_def validate_ioa_def validate_ca_def validate_timestamp_def
        validate_normalized_value_def validate_boolean_point_value_def f64_minus_one_def
        f64_one_def float_eval)
  from normalized_stays_in_range [OF this] show ?thesis by simp
qed

text \<open>C29: Within the normal range of single precision (up to 2^127) the value sent as a float differs
  from the JSON number by at most one part in 2^24.\<close>

theorem float_value_error:
  assumes "1 / 2 ^ 126 \<le> \<bar>f64_real x\<bar>" and "\<bar>f64_real x\<bar> < 2 ^ 127"
  shows "\<bar>f32_real (as_float_value (Number x)) - f64_real x\<bar> \<le> \<bar>f64_real x\<bar> / 2 ^ 24"
  using f64_to_f32_relative_error [OF f64_in_f32_normal_range [OF assms]] by simp

theorem float_value_error_witness:
  "\<bar>f32_real (as_float_value (Number (f64_of_int 100000))) - 100000\<bar> \<le> 100000 / 2 ^ 24"
  using float_value_error [of "f64_of_int 100000"] by (simp add: f64_of_int_exact)

lemma requested_ms_exact_iff:
  "int (unat (requested_ms (offset_datetime_to_cp56_timestamp t))) = unix_timestamp_nanos t div 1000000
     \<longleftrightarrow> 0 \<le> unix_timestamp_nanos t \<and> unix_timestamp_nanos t < 2 ^ 64"
proof -
  let ?n = "unix_timestamp_nanos t"
  have ms: "int (unat (requested_ms (offset_datetime_to_cp56_timestamp t))) = (?n mod 2 ^ 64) div 1000000"
    by (simp add: offset_datetime_to_cp56_timestamp_def uint_div uint_word_of_int take_bit_eq_mod
        flip: uint_nat)
  have range: "0 \<le> ?n \<and> ?n < 2 ^ 64 \<longleftrightarrow> ?n div 2 ^ 64 = 0"
    by (auto simp: zdiv_eq_0_iff)
  have "?n mod 2 ^ 64 div 1000000 = ?n div 1000000 \<longleftrightarrow> ?n div 2 ^ 64 = 0"
  proof
    assume "?n mod 2 ^ 64 div 1000000 = ?n div 1000000"
    from same_quotient_close [OF this] have "\<bar>?n mod 2 ^ 64 - ?n\<bar> < 1000000" by simp
    moreover have "?n mod 2 ^ 64 - ?n = - (?n div 2 ^ 64) * 2 ^ 64"
      by (simp add: minus_mult_div_eq_mod [symmetric])
    ultimately show "?n div 2 ^ 64 = 0" by (simp only: abs_mult abs_minus_cancel) simp
  next
    assume "?n div 2 ^ 64 = 0"
    then have "?n mod 2 ^ 64 = ?n" using div_mult_mod_eq [of ?n "2 ^ 64"] by simp
    then show "?n mod 2 ^ 64 div 1000000 = ?n div 1000000" by (simp only:)
  qed
  then show ?thesis unfolding ms range .
qed

text \<open>C25: The output policy changes nothing but the timestamp, which it drops when timestamps are
  switched off, and marks a point not topical exactly when the policy has an age limit, the
  point is not of invalid quality, and its arrival or its own timestamp is longer ago than the
  limit; a marked point stays marked at any later time.\<close>

theorem prepare_for_output_spec:
  "out_message (prepare_for_output msg received_at now policy) =
     msg\<lparr>msg_timestamp := if send_timestamps policy then msg_timestamp msg else None\<rparr> \<and>
   (not_topical (prepare_for_output msg received_at now policy) \<longleftrightarrow>
     msg_quality msg \<noteq> Invalid \<and>
     (\<exists>limit t. max_age policy = Some limit \<and> (t = received_at \<or> msg_timestamp msg = Some t) \<and>
        unix_timestamp_nanos now - unix_timestamp_nanos t > int limit)) \<and>
   (not_topical (prepare_for_output msg received_at now policy) \<longrightarrow>
     not_topical (prepare_for_output msg received_at
       (OffsetDateTime (unix_timestamp_nanos now + int later)) policy))"
  by (auto simp: prepare_for_output_def elapsed_exceeds_def Let_def split: option.splits)

theorem prepare_for_output_spec_witness:
  "not_topical (prepare_for_output
     \<lparr>msg_ioa = 5, msg_value = Bool True, msg_data_type = None, msg_ca = None, msg_quality = Good,
      msg_cot = Spontaneous, msg_timestamp = Some (OffsetDateTime 0)\<rparr>
     (OffsetDateTime 900) (OffsetDateTime (1000 + int 5))
     \<lparr>send_timestamps = True, max_age = Some 500\<rparr>)"
proof -
  let ?msg = "\<lparr>msg_ioa = 5, msg_value = Bool True, msg_data_type = None, msg_ca = None,
    msg_quality = Good, msg_cot = Spontaneous, msg_timestamp = Some (OffsetDateTime 0)\<rparr>"
  let ?policy = "\<lparr>send_timestamps = True, max_age = Some 500\<rparr> :: OutputPolicy"
  have "not_topical (prepare_for_output ?msg (OffsetDateTime 900) (OffsetDateTime 1000) ?policy)"
    by (simp add: prepare_for_output_def elapsed_exceeds_def)
  with prepare_for_output_spec [of ?msg "OffsetDateTime 900" "OffsetDateTime 1000" ?policy 5]
  show ?thesis by simp
qed

end
