(* ===== verification/Sinks.thy ===== *)
theory Sinks
  imports Bridge
begin

text \<open>
  The three sinks of \<open>src/src/bridge.rs\<close>: \<open>LiveSink\<close> around the running server, \<open>ConnectionSink\<close>
  around one master connection, and the \<open>CapturingSink\<close> of the tests. Each one is shown to be a
  tracing sink; what dispatch sends follows for all of them from one lemma about the contract.
\<close>

section \<open>LiveSink\<close>

text \<open>The state is the log of foreign calls; a failure to enqueue is only logged.\<close>

definition LiveSink :: "native_env \<Rightarrow> CS104_Slave \<Rightarrow> call_log DataSink" where
  "LiveSink env server = \<lparr>
     send_single_point = (\<lambda>cause ca ioa v q calls. calls @ [ServerSinglePoint cause ca ioa v q]),
     send_measured_float = (\<lambda>cause ca ioa x q calls. calls @ [ServerMeasuredFloat cause ca ioa x q]),
     send_measured_scaled = (\<lambda>cause ca ioa n q calls. calls @ [ServerMeasuredScaled cause ca ioa n q]),
     enqueue_timed = (\<lambda>td calls. snd (enqueue_timed_asdu env (td\<lparr>td_server_ptr := Some server\<rparr>) calls))\<rparr>"

section \<open>ConnectionSink\<close>

text \<open>The connection is a parameter; the log of foreign calls and the failure counter are the state.\<close>

record ConnectionState =
  conn_calls :: call_log
  conn_failed :: nat

definition ConnectionSink_new :: "call_log \<Rightarrow> ConnectionState" where
  "ConnectionSink_new calls = \<lparr>conn_calls = calls, conn_failed = 0\<rparr>"

definition failed :: "ConnectionState \<Rightarrow> nat" where
  "failed s = conn_failed s"

definition count_failure :: "bool \<times> call_log \<Rightarrow> ConnectionState \<Rightarrow> ConnectionState" where
  "count_failure r s =
     (case r of (sent, calls) \<Rightarrow>
        \<lparr>conn_calls = calls, conn_failed = (if \<not> sent then conn_failed s + 1 else conn_failed s)\<rparr>)"

definition send_untimed ::
  "native_env \<Rightarrow> IMasterConnection \<Rightarrow> CauseOfTransmission \<Rightarrow> u16 \<Rightarrow> u32 \<Rightarrow> UntimedValue \<Rightarrow> Quality
    \<Rightarrow> ConnectionState \<Rightarrow> ConnectionState" where
  "send_untimed env conn cause ca ioa v q s =
     count_failure (send_untimed_to_connection env conn cause ca ioa v q (conn_calls s)) s"

definition ConnectionSink :: "native_env \<Rightarrow> IMasterConnection \<Rightarrow> ConnectionState DataSink" where
  "ConnectionSink env conn = \<lparr>
     send_single_point = (\<lambda>cause ca ioa v q. send_untimed env conn cause ca ioa (Single v) q),
     send_measured_float = (\<lambda>cause ca ioa x q. send_untimed env conn cause ca ioa (UFloat x) q),
     send_measured_scaled = (\<lambda>cause ca ioa n q. send_untimed env conn cause ca ioa (UScaled n) q),
     enqueue_timed = (\<lambda>td s. count_failure (send_timed_to_connection env conn td (conn_calls s)) s)\<rparr>"

section \<open>CapturingSink\<close>

datatype TypeId = SinglePointTime | DoublePointTime | MeasuredScaledTime | MeasuredFloatTime

datatype SentCall =
    CallSinglePoint CauseOfTransmission u16 u32 bool Quality
  | CallMeasuredFloat CauseOfTransmission u16 u32 f32 Quality
  | CallMeasuredScaled CauseOfTransmission u16 u32 i16 Quality
  | CallTimed CauseOfTransmission u16 u32 TypeId DataValue Quality u64

fun timed_type_id :: "DataType \<Rightarrow> TypeId" where
  "timed_type_id SinglePoint = SinglePointTime"
| "timed_type_id DoublePoint = DoublePointTime"
| "timed_type_id Scaled = MeasuredScaledTime"
| "timed_type_id Float = MeasuredFloatTime"
| "timed_type_id Normalized = MeasuredFloatTime"

definition timed_call :: "(Timestamp \<Rightarrow> u64) \<Rightarrow> TimedDispatch \<Rightarrow> SentCall" where
  "timed_call as_ms td = CallTimed (td_cot td) (td_ca td) (td_ioa td) (timed_type_id (td_data_type td))
     (td_value td) (td_quality td) (as_ms (td_timestamp td))"

definition CapturingSink :: "(Timestamp \<Rightarrow> u64) \<Rightarrow> SentCall list DataSink" where
  "CapturingSink as_ms = \<lparr>
     send_single_point = (\<lambda>cause ca ioa v q calls. calls @ [CallSinglePoint cause ca ioa v q]),
     send_measured_float = (\<lambda>cause ca ioa x q calls. calls @ [CallMeasuredFloat cause ca ioa x q]),
     send_measured_scaled = (\<lambda>cause ca ioa n q calls. calls @ [CallMeasuredScaled cause ca ioa n q]),
     enqueue_timed = (\<lambda>td calls. calls @ [timed_call as_ms td])\<rparr>"

section \<open>What dispatch asks of a sink\<close>

text \<open>
  The abstract specification of dispatch: one request per point, time-tagged when the message
  carries a timestamp and by its type otherwise; a double point is sent as a single point.
\<close>

datatype PointRequest =
    ReqSingle CauseOfTransmission u16 u32 bool Quality
  | ReqFloat CauseOfTransmission u16 u32 f32 Quality
  | ReqScaled CauseOfTransmission u16 u32 i16 Quality
  | ReqTimed TimedDispatch

definition effective_type :: "Iec104Message \<Rightarrow> DataType" where
  "effective_type msg = unwrap_or (msg_data_type msg) (infer_type (msg_value msg))"

definition wire_quality :: "Outgoing \<Rightarrow> Quality" where
  "wire_quality out =
     map_quality (msg_quality (out_message out))
       OR (if not_topical out then Quality_NOT_TOPICAL else 0)"

definition point_request :: "u16 \<Rightarrow> Outgoing \<Rightarrow> PointRequest" where
  "point_request default_ca out =
     (let msg = out_message out; q = wire_quality out; cause = map_cot (msg_cot msg);
          ca = unwrap_or (msg_ca msg) default_ca; ioa = msg_ioa msg; v = msg_value msg;
          ty = (if effective_type msg = DoublePoint then SinglePoint else effective_type msg)
      in case msg_timestamp msg of
           Some t \<Rightarrow> ReqTimed \<lparr>td_server_ptr = None, td_cot = cause, td_ca = ca, td_ioa = ioa,
             td_value = v, td_data_type = ty, td_quality = q,
             td_timestamp = offset_datetime_to_cp56_timestamp t\<rparr>
         | None \<Rightarrow>
             if ty = SinglePoint then ReqSingle cause ca ioa (as_single_point_value v) q
             else if ty = Scaled then ReqScaled cause ca ioa (as_scaled_value v) q
             else ReqFloat cause ca ioa (as_float_value v) q)"

fun perform :: "'s DataSink \<Rightarrow> PointRequest \<Rightarrow> 's \<Rightarrow> 's" where
  "perform sink (ReqSingle cause ca ioa v q) s = send_single_point sink cause ca ioa v q s"
| "perform sink (ReqFloat cause ca ioa x q) s = send_measured_float sink cause ca ioa x q s"
| "perform sink (ReqScaled cause ca ioa n q) s = send_measured_scaled sink cause ca ioa n q s"
| "perform sink (ReqTimed td) s = enqueue_timed sink td s"

lemma dispatch_outgoing_performs:
  "dispatch_outgoing sink out ca s = perform sink (point_request ca out) s"
  by (cases "msg_data_type (out_message out)"; cases "infer_type (msg_value (out_message out))";
      cases "the (msg_data_type (out_message out))"; cases "msg_timestamp (out_message out)")
    (simp_all add: dispatch_outgoing_def dispatch_context_def DispatchContext_from_message_def
      dispatch_single_point_def dispatch_float_like_def dispatch_scaled_def
      dispatch_double_point_def point_request_def effective_type_def wire_quality_def Let_def)

lemma dispatch_is_outgoing:
  "dispatch sink msg ca = dispatch_outgoing sink \<lparr>out_message = msg, not_topical = False\<rparr> ca"
  by (simp add: dispatch_def dispatch_outgoing_def Let_def)

text \<open>The entry of a request, by the encoders of a sink.\<close>

fun render where
  "render es ef en et (ReqSingle cause ca ioa v q) = es cause ca ioa v q"
| "render es ef en et (ReqFloat cause ca ioa x q) = ef cause ca ioa x q"
| "render es ef en et (ReqScaled cause ca ioa n q) = en cause ca ioa n q"
| "render es ef en et (ReqTimed td) = et td"

context tracing_sink
begin

lemma trace_perform:
  "ok s \<Longrightarrow> trace (perform sink req s) = trace s @ [render enc_single enc_float enc_scaled enc_timed req] \<and> ok (perform sink req s)"
  by (cases req) (simp_all add: sink_laws)

text \<open>One entry per point, in the order of the points.\<close>

lemma trace_dispatch_all:
  "ok s \<Longrightarrow>
    trace (fold (\<lambda>out. dispatch_outgoing sink out ca) outs s)
      = trace s @ map (\<lambda>out. render enc_single enc_float enc_scaled enc_timed (point_request ca out)) outs \<and>
    ok (fold (\<lambda>out. dispatch_outgoing sink out ca) outs s)"
  by (induction outs arbitrary: s) (simp_all add: dispatch_outgoing_performs trace_perform)

end

section \<open>The sinks meet the contract\<close>

interpretation capturing: tracing_sink "CapturingSink as_ms" "\<lambda>calls. calls"
    CallSinglePoint CallMeasuredFloat CallMeasuredScaled "timed_call as_ms" "\<lambda>_. True" for as_ms
  by unfold_locales (simp_all add: CapturingSink_def)

text \<open>
  In a log of foreign calls the points are what the library is asked for: the information objects
  it is asked to create, whether or not it then returns null, and the values given to the server's
  convenience methods. What of it the library hands on is read from its heap, not from here.
\<close>

fun point_of :: "NativeCall \<Rightarrow> NativeCall option" where
  "point_of (CreateIO io p) = Some (CreateIO io 0)"
| "point_of (ServerSinglePoint cause ca ioa v q) = Some (ServerSinglePoint cause ca ioa v q)"
| "point_of (ServerMeasuredFloat cause ca ioa x q) = Some (ServerMeasuredFloat cause ca ioa x q)"
| "point_of (ServerMeasuredScaled cause ca ioa n q) = Some (ServerMeasuredScaled cause ca ioa n q)"
| "point_of _ = None"

definition points :: "call_log \<Rightarrow> NativeCall list" where
  "points calls = List.map_filter point_of calls"

lemma points_simps [simp]:
  "points [] = []"
  "points (c # cs) = (case point_of c of None \<Rightarrow> points cs | Some p \<Rightarrow> p # points cs)"
  by (simp_all add: points_def split: option.split)

lemma points_append [simp]: "points (cs @ cs') = points cs @ points cs'"
  by (induction cs) (auto split: option.split)

lemma points_single_object_asdu:
  "points (snd (single_object_asdu env cause ca io calls)) = points calls"
  by (simp add: single_object_asdu_def Let_def)

lemma points_send_to_connection:
  "points (snd (send_to_connection env conn a calls)) = points calls"
  by (simp add: send_to_connection_def Let_def)

lemma points_timed_asdu:
  "points (snd (timed_asdu env td calls)) = points calls @ [CreateIO (timed_object td) 0]"
  by (simp add: timed_asdu_def create_information_object_def create_io_def timed_object_def Let_def
      points_single_object_asdu)

lemma points_enqueue_timed:
  "td_server_ptr td = Some server \<Longrightarrow>
    points (snd (enqueue_timed_asdu env td calls)) = points calls @ [CreateIO (timed_object td) 0]"
  using points_timed_asdu [of env td calls]
  by (auto simp: enqueue_timed_asdu_def split: prod.split option.split)

lemma points_send_timed:
  "points (snd (send_timed_to_connection env conn td calls))
     = points calls @ [CreateIO (timed_object td) 0]"
  using points_timed_asdu [of env td calls]
  by (auto simp: send_timed_to_connection_def points_send_to_connection split: prod.split option.split)

lemma points_send_untimed:
  "points (snd (send_untimed_to_connection env conn cause ca ioa v q calls))
     = points calls @ [CreateIO (untimed_object ioa v q) 0]"
  using points_single_object_asdu
    [of env cause ca "ret_create_io env calls (untimed_object ioa v q)"
       "calls @ [CreateIO (untimed_object ioa v q) (ret_create_io env calls (untimed_object ioa v q))]"]
  by (auto simp: send_untimed_to_connection_def create_io_def Let_def points_send_to_connection
      split: prod.split option.split)

lemma timed_object_server [simp]: "timed_object (td\<lparr>td_server_ptr := srv\<rparr>) = timed_object td"
  by (simp add: timed_object_def)

interpretation live_sink: tracing_sink "LiveSink env server" points
    ServerSinglePoint ServerMeasuredFloat ServerMeasuredScaled
    "\<lambda>td. CreateIO (timed_object td) 0" "\<lambda>_. True" for env server
  by unfold_locales (simp_all add: LiveSink_def points_enqueue_timed)

lemma conn_calls_count_failure [simp]: "conn_calls (count_failure r s) = snd r"
  by (simp add: count_failure_def split: prod.split)

interpretation connection: tracing_sink "ConnectionSink env conn" "\<lambda>s. points (conn_calls s)"
    "\<lambda>cause ca ioa v q. CreateIO (SinglePointInformation (ucast ioa) v q) 0"
    "\<lambda>cause ca ioa x q. CreateIO (MeasuredValueShort (ucast ioa) x q) 0"
    "\<lambda>cause ca ioa n q. CreateIO (MeasuredValueScaled (ucast ioa) (scast n) q) 0"
    "\<lambda>td. CreateIO (timed_object td) 0" "\<lambda>_. True" for env conn
  by unfold_locales
    (simp_all add: ConnectionSink_def send_untimed_def points_send_untimed points_send_timed)

section \<open>Delivery on a connection\<close>

text \<open>The ASDU of a request, and the ASDUs a connection accepted.\<close>

fun request_asdu :: "PointRequest \<Rightarrow> AsduContent" where
  "request_asdu (ReqSingle cause ca ioa v q) = (single_header cause ca, [untimed_object ioa (Single v) q])"
| "request_asdu (ReqFloat cause ca ioa x q) = (single_header cause ca, [untimed_object ioa (UFloat x) q])"
| "request_asdu (ReqScaled cause ca ioa n q) = (single_header cause ca, [untimed_object ioa (UScaled n) q])"
| "request_asdu (ReqTimed td) = (single_header (td_cot td) (td_ca td), [timed_object td])"

fun accepted_by :: "IMasterConnection \<Rightarrow> Delivery \<Rightarrow> AsduContent option" where
  "accepted_by conn (Sent c a sent) = (if c = conn \<and> sent then Some a else None)"
| "accepted_by conn _ = None"

definition accepted :: "IMasterConnection \<Rightarrow> Delivery list \<Rightarrow> AsduContent list" where
  "accepted conn ds = List.map_filter (accepted_by conn) ds"

lemma accepted_simps [simp]:
  "accepted conn [] = []"
  "accepted conn (d # ds) = (case accepted_by conn d of None \<Rightarrow> accepted conn ds | Some a \<Rightarrow> a # accepted conn ds)"
  by (simp_all add: accepted_def split: option.split)

lemma accepted_append [simp]: "accepted conn (ds @ ds') = accepted conn ds @ accepted conn ds'"
  by (induction ds) (auto split: option.split)

text \<open>One request on a connection: it is either accepted or counted as failed, and nothing of it
  stays behind in the library.\<close>

definition request_settled ::
  "IMasterConnection \<Rightarrow> AsduContent \<Rightarrow> ConnectionState \<Rightarrow> Heap \<Rightarrow> ConnectionState \<Rightarrow> Heap \<Rightarrow> bool" where
  "request_settled conn a s h s' h' \<longleftrightarrow>
     heap_after (conn_calls s') = Some h' \<and> heap_io h' = heap_io h \<and> heap_asdu h' = heap_asdu h \<and>
     (accepted conn (heap_out h') = accepted conn (heap_out h) @ [a] \<and> conn_failed s' = conn_failed s \<or>
      accepted conn (heap_out h') = accepted conn (heap_out h) \<and> conn_failed s' = Suc (conn_failed s))"

context native_lib
begin

lemma count_failure_settled:
  assumes "heap_after calls' = Some h \<and> \<not> sent \<or>
      heap_after calls' = Some (hand_over (Sent conn a sent) h)"
  shows "\<exists>h'. request_settled conn a s h (count_failure (sent, calls') s) h'"
  using assms by (cases sent) (auto simp: request_settled_def count_failure_def hand_over_def)

lemma perform_settled:
  assumes "heap_after (conn_calls s) = Some h"
  shows "\<exists>h'. request_settled conn (request_asdu req) s h (perform (ConnectionSink env conn) req s) h'"
proof -
  have untimed: "\<exists>h'. request_settled conn (single_header cause ca, [untimed_object ioa v q]) s h
      (send_untimed env conn cause ca ioa v q s) h'" for cause ca ioa v q
  proof -
    obtain sent calls' where run:
      "send_untimed_to_connection env conn cause ca ioa v q (conn_calls s) = (sent, calls')" by fastforce
    show ?thesis
      using count_failure_settled [OF send_untimed_heap [OF assms run]] by (simp add: send_untimed_def run)
  qed
  have timed: "\<exists>h'. request_settled conn (single_header (td_cot td) (td_ca td), [timed_object td]) s h
      (count_failure (send_timed_to_connection env conn td (conn_calls s)) s) h'" for td
  proof -
    obtain sent calls' where run:
      "send_timed_to_connection env conn td (conn_calls s) = (sent, calls')" by fastforce
    show ?thesis
      using count_failure_settled [OF send_timed_heap [OF assms run]] by (simp add: run)
  qed
  show ?thesis
    using untimed timed by (cases req) (simp_all add: ConnectionSink_def del: untimed_object.simps)
qed

lemma dispatch_all_settled:
  assumes "heap_after (conn_calls s) = Some h"
    and "s' = fold (\<lambda>out. dispatch_outgoing (ConnectionSink env conn) out ca) outs s"
  shows "\<exists>h' sent. heap_after (conn_calls s') = Some h' \<and>
    heap_io h' = heap_io h \<and> heap_asdu h' = heap_asdu h \<and>
    accepted conn (heap_out h') = accepted conn (heap_out h) @ sent \<and>
    subseq sent (map (\<lambda>out. request_asdu (point_request ca out)) outs) \<and>
    length sent + conn_failed s' = conn_failed s + length outs"
  using assms
proof (induction outs arbitrary: s h)
  case Nil
  then show ?case by simp
next
  case (Cons out outs)
  let ?s1 = "perform (ConnectionSink env conn) (point_request ca out) s"
  from perform_settled [OF Cons.prems(1)] obtain h1
    where one: "request_settled conn (request_asdu (point_request ca out)) s h ?s1 h1" by blast
  then have "heap_after (conn_calls ?s1) = Some h1" by (simp add: request_settled_def)
  moreover have "s' = fold (\<lambda>out. dispatch_outgoing (ConnectionSink env conn) out ca) outs ?s1"
    using Cons.prems(2) dispatch_outgoing_performs [of "ConnectionSink env conn" out ca s] by simp
  ultimately obtain h' sent where rest: "heap_after (conn_calls s') = Some h'"
      "heap_io h' = heap_io h1" "heap_asdu h' = heap_asdu h1"
      "accepted conn (heap_out h') = accepted conn (heap_out h1) @ sent"
      "subseq sent (map (\<lambda>out. request_asdu (point_request ca out)) outs)"
      "length sent + conn_failed s' = conn_failed ?s1 + length outs"
    using Cons.IH by blast
  show ?case
  proof (cases "conn_failed ?s1 = conn_failed s")
    case True
    with one rest show ?thesis
      by (intro exI [of _ h'] exI [of _ "request_asdu (point_request ca out) # sent"])
        (auto simp: request_settled_def)
  next
    case False
    with one rest show ?thesis
      by (intro exI [of _ h'] exI [of _ sent]) (auto simp: request_settled_def)
  qed
qed

end

section \<open>Properties\<close>

text \<open>C16: Dispatch emits exactly one entry per point on every sink, and the three sinks render the
  same request: the capturing sink records it as a call, the server receives it through its
  convenience method or as a time-tagged object, the connection as an information object with
  the same address, value and quality.\<close>

theorem dispatch_same_on_all_sinks:
  "dispatch_outgoing (CapturingSink as_ms) out ca calls =
     calls @ [render CallSinglePoint CallMeasuredFloat CallMeasuredScaled (timed_call as_ms)
       (point_request ca out)] \<and>
   points (dispatch_outgoing (LiveSink env server) out ca log0) =
     points log0 @ [render ServerSinglePoint ServerMeasuredFloat ServerMeasuredScaled
       (\<lambda>td. CreateIO (timed_object td) 0) (point_request ca out)] \<and>
   points (conn_calls (dispatch_outgoing (ConnectionSink env conn) out ca s)) =
     points (conn_calls s) @ [render
       (\<lambda>cause ca ioa v q. CreateIO (SinglePointInformation (ucast ioa) v q) 0)
       (\<lambda>cause ca ioa x q. CreateIO (MeasuredValueShort (ucast ioa) x q) 0)
       (\<lambda>cause ca ioa n q. CreateIO (MeasuredValueScaled (ucast ioa) (scast n) q) 0)
       (\<lambda>td. CreateIO (timed_object td) 0) (point_request ca out)]"
  using capturing.trace_dispatch_all [where as_ms = as_ms and s = calls and ca = ca and outs = "[out]"]
    live_sink.trace_dispatch_all [where s = log0 and env = env and server = server and ca = ca and outs = "[out]"]
    connection.trace_dispatch_all [where s = s and env = env and conn = conn and ca = ca and outs = "[out]"]
  by simp

fun call_quality :: "SentCall \<Rightarrow> Quality" where
  "call_quality (CallSinglePoint cause ca ioa v q) = q"
| "call_quality (CallMeasuredFloat cause ca ioa x q) = q"
| "call_quality (CallMeasuredScaled cause ca ioa n q) = q"
| "call_quality (CallTimed cause ca ioa ty v q ms) = q"

lemma dispatched_call:
  "dispatch_outgoing (CapturingSink as_ms) out ca calls =
     calls @ [render CallSinglePoint CallMeasuredFloat CallMeasuredScaled (timed_call as_ms)
       (point_request ca out)]"
  using capturing.trace_dispatch_all [where as_ms = as_ms and s = calls and ca = ca and outs = "[out]"] by simp

lemma call_quality_dispatched:
  "call_quality (last (dispatch_outgoing (CapturingSink as_ms) out ca calls)) = wire_quality out"
  by (auto simp: dispatched_call point_request_def timed_call_def Let_def split: option.split)

text \<open>C24: The quality on the wire is the bits of the message's own quality and the not-topical bit:
  an invalid point is sent as invalid alone whatever its age, a point that is not stale keeps
  its quality, and any other stale point has the not-topical bit added and nothing else
  changed.\<close>

theorem wire_quality_spec:
  assumes "out = prepare_for_output msg received_at now policy"
  shows "call_quality (last (dispatch_outgoing (CapturingSink as_ms) out ca calls)) =
     (if msg_quality msg = Invalid then Quality_INVALID
      else if not_topical out then map_quality (msg_quality msg) OR Quality_NOT_TOPICAL
      else map_quality (msg_quality msg)) \<and>
   (\<not> bit (map_quality (msg_quality msg)) 6 \<or> msg_quality msg = NotTopical)"
proof -
  have "msg_quality (out_message out) = msg_quality msg"
    and "msg_quality msg = Invalid \<longrightarrow> \<not> not_topical out"
    by (auto simp: assms prepare_for_output_def Let_def split: option.splits)
  then show ?thesis
    unfolding call_quality_dispatched wire_quality_def
    by (cases "msg_quality msg") (auto simp: quality_bits bit_numeral_word_iff)
qed

theorem wire_quality_spec_witness:
  "call_quality (last (dispatch_outgoing (CapturingSink requested_ms)
     (prepare_for_output
       \<lparr>msg_ioa = 5, msg_value = Bool True, msg_data_type = None, msg_ca = None,
        msg_quality = Substituted, msg_cot = Spontaneous, msg_timestamp = None\<rparr>
       (OffsetDateTime 0) (OffsetDateTime 1000) \<lparr>send_timestamps = True, max_age = Some 500\<rparr>)
     1 [])) = 0x60"
  using wire_quality_spec [OF refl, of requested_ms
      "\<lparr>msg_ioa = 5, msg_value = Bool True, msg_data_type = None, msg_ca = None,
        msg_quality = Substituted, msg_cot = Spontaneous, msg_timestamp = None\<rparr>"
      "OffsetDateTime 0" "OffsetDateTime 1000" "\<lparr>send_timestamps = True, max_age = Some 500\<rparr>" 1 "[]"]
  by (simp add: prepare_for_output_def elapsed_exceeds_def quality_bits)

text \<open>A double point is sent as the single point of the same value on every sink, and no
  time-tagged call ever has the double point type.\<close>

theorem double_point_sent_as_single:
  "dispatch sink (msg\<lparr>msg_data_type := Some DoublePoint\<rparr>) ca s
     = dispatch sink (msg\<lparr>msg_data_type := Some SinglePoint\<rparr>) ca s \<and>
   last (dispatch (CapturingSink as_ms) msg ca calls) \<noteq> CallTimed cause ca' ioa DoublePointTime v q ms"
proof
  show "dispatch sink (msg\<lparr>msg_data_type := Some DoublePoint\<rparr>) ca s
     = dispatch sink (msg\<lparr>msg_data_type := Some SinglePoint\<rparr>) ca s"
    by (simp add: dispatch_is_outgoing dispatch_outgoing_performs point_request_def
        effective_type_def wire_quality_def Let_def split: option.split)
  have "timed_type_id ty = DoublePointTime \<longleftrightarrow> ty = DoublePoint" for ty
    by (cases ty) simp_all
  then show "last (dispatch (CapturingSink as_ms) msg ca calls) \<noteq> CallTimed cause ca' ioa DoublePointTime v q ms"
    by (auto simp: dispatch_is_outgoing dispatched_call point_request_def timed_call_def Let_def
        split: option.split)
qed

text \<open>C8: Sending any list of points to one connection accounts for every point: the connection
  accepts a subsequence of the points' ASDUs, in order and each with exactly one object, the
  failure counter grows by the number of the others, and the library holds no object of them
  afterwards.\<close>

theorem connection_accounts_for_every_point:
  assumes "fresh_allocator env" and "heap_after (conn_calls s) = Some h"
    and "s' = fold (\<lambda>out. dispatch_outgoing (ConnectionSink env conn) out ca) outs s"
  shows "\<exists>h' sent. heap_after (conn_calls s') = Some h' \<and>
    heap_io h' = heap_io h \<and> heap_asdu h' = heap_asdu h \<and>
    accepted conn (heap_out h') = accepted conn (heap_out h) @ sent \<and>
    subseq sent (map (\<lambda>out. request_asdu (point_request ca out)) outs) \<and>
    length sent + failed s' = failed s + length outs"
  using native_lib.dispatch_all_settled [OF native_lib.intro, OF assms] by (simp only: failed_def)

definition bool_point :: "u32 \<Rightarrow> bool \<Rightarrow> Outgoing" where
  "bool_point ioa b = \<lparr>out_message = \<lparr>msg_ioa = ioa, msg_value = Bool b, msg_data_type = None,
     msg_ca = None, msg_quality = Good, msg_cot = Interrogated, msg_timestamp = None\<rparr>,
     not_topical = False\<rparr>"

text \<open>Two points on a queue for one: one is accepted, one counted.\<close>

theorem connection_accounts_for_every_point_witness:
  "\<exists>s' h'. s' = fold (\<lambda>out. dispatch_outgoing (ConnectionSink (queue_env 1) 7) out 1)
       [bool_point 1 True, bool_point 2 False] (ConnectionSink_new []) \<and>
     heap_after (conn_calls s') = Some h' \<and> heap_io h' = Map.empty \<and>
     length (accepted 7 (heap_out h')) = 1 \<and> failed s' = 1"
proof -
  let ?s = "fold (\<lambda>out. dispatch_outgoing (ConnectionSink (queue_env 1) 7) out 1)
       [bool_point 1 True, bool_point 2 False] (ConnectionSink_new [])"
  have "failed ?s = 1"
    by (simp add: dispatch_outgoing_performs point_request_def bool_point_def effective_type_def
        ConnectionSink_def ConnectionSink_new_def send_untimed_def count_failure_def failed_def
        send_untimed_to_connection_def native_run)
  with connection_accounts_for_every_point [OF queue_env_fresh [of 1] _ refl, where s = "ConnectionSink_new []" and
      h = empty_heap and conn = 7 and ca = 1 and outs = "[bool_point 1 True, bool_point 2 False]"]
  show ?thesis
    by (auto simp: heap_after_def empty_heap_def ConnectionSink_new_def failed_def)
qed

end
