(* ===== verification/Config.thy ===== *)
theory Config
  imports Prelude
begin

text \<open>
  The configuration, \<open>src/src/config.rs\<close>: the record, and its construction from a key lookup (the
  process environment in production) with every default, parser and check in source order. A
  string is its UTF-8 bytes; \<open>to_lowercase\<close> is modelled on ASCII letters, which decides every
  comparison the code makes (no other letter lowers to a letter of \<open>true\<close>, \<open>yes\<close>, \<open>false\<close>, \<open>no\<close>).
\<close>

datatype InputTransport = Nats | UnixSocket

datatype config_error =
    TransportUnknown string
  | MustBeSet string
  | MustBeSetForTls string
  | MustBeValid string
  | MustBePositive string
  | MustBeBool string

fun InputTransport_as_str :: "InputTransport \<Rightarrow> string" where
  "InputTransport_as_str Nats = ''nats''"
| "InputTransport_as_str UnixSocket = ''unix_socket''"

definition InputTransport_parse :: "string \<Rightarrow> (config_error, InputTransport) result" where
  "InputTransport_parse s =
     (if s = ''nats'' then Inr Nats
      else if s = ''unix_socket'' then Inr UnixSocket
      else Inl (TransportUnknown s))"

record Config =
  input_transport :: InputTransport
  nats_url :: string
  nats_stream :: string
  nats_consumer :: string
  nats_subject_filter :: "string option"
  nats_credentials_path :: "string option"
  unix_socket_path :: string
  unix_socket_allowed_uid :: "u32 option"
  unix_socket_allowed_gid :: "u32 option"
  unix_socket_max_line_bytes :: u64
  iec104_bind_addr :: string
  iec104_port :: u16
  iec104_default_ca :: u16
  iec104_gi_only :: bool
  iec104_timestamps :: bool
  iec104_max_age :: "Duration option"
  iec104_queue_size :: u16
  metrics_port :: u16
  tls_enabled :: bool
  tls_cert_path :: "string option"
  tls_key_path :: "string option"
  tls_ca_cert_path :: "string option"
  tls_port :: u16

type_synonym lookup = "string \<Rightarrow> string option"

section \<open>Parsing\<close>

text \<open>\<open>str::parse\<close> for an unsigned type: an optional plus sign and decimal digits, no overflow.\<close>

definition digit_value :: "char \<Rightarrow> nat option" where
  "digit_value c = (let n = of_char c in if 48 \<le> n \<and> n \<le> 57 then Some (n - 48) else None)"

fun parse_digits :: "nat \<Rightarrow> nat \<Rightarrow> string \<Rightarrow> nat option" where
  "parse_digits lim acc [] = Some acc"
| "parse_digits lim acc (c # cs) =
     (case digit_value c of
        None \<Rightarrow> None
      | Some d \<Rightarrow> if acc * 10 + d < lim then parse_digits lim (acc * 10 + d) cs else None)"

definition parse_unsigned :: "nat \<Rightarrow> string \<Rightarrow> nat option" where
  "parse_unsigned lim s =
     (case s of
        [] \<Rightarrow> None
      | c # cs \<Rightarrow>
          if c = CHR ''+'' then (if cs = [] then None else parse_digits lim 0 cs)
          else parse_digits lim 0 s)"

definition parse_u16 :: "string \<Rightarrow> u16 option" where
  "parse_u16 s = map_option of_nat (parse_unsigned (2 ^ 16) s)"

definition parse_u32 :: "string \<Rightarrow> u32 option" where
  "parse_u32 s = map_option of_nat (parse_unsigned (2 ^ 32) s)"

definition parse_u64 :: "string \<Rightarrow> u64 option" where
  "parse_u64 s = map_option of_nat (parse_unsigned (2 ^ 64) s)"

definition parse_optional ::
  "(string \<Rightarrow> 'a option) \<Rightarrow> lookup \<Rightarrow> string \<Rightarrow> (config_error, 'a option) result" where
  "parse_optional parse get key =
     (case get key of
        None \<Rightarrow> Inr None
      | Some v \<Rightarrow> (case parse v of None \<Rightarrow> Inl (MustBeValid key) | Some x \<Rightarrow> Inr (Some x)))"

definition parse_with_default ::
  "(string \<Rightarrow> 'a option) \<Rightarrow> lookup \<Rightarrow> string \<Rightarrow> string \<Rightarrow> (config_error, 'a) result" where
  "parse_with_default parse get key dflt =
     ok_or (parse (unwrap_or (get key) dflt)) (MustBeValid key)"

definition to_lower_char :: "char \<Rightarrow> char" where
  "to_lower_char c =
     (let n = of_char c in if (65::nat) \<le> n \<and> n \<le> 90 then char_of (n + 32) else c)"

definition to_lowercase :: "string \<Rightarrow> string" where
  "to_lowercase s = map to_lower_char s"

definition is_truthy :: "string option \<Rightarrow> bool" where
  "is_truthy v =
     (case v of
        None \<Rightarrow> False
      | Some s \<Rightarrow> let s = to_lowercase s in s = ''true'' \<or> s = ''1'' \<or> s = ''yes'')"

definition parse_bool_with_default ::
  "lookup \<Rightarrow> string \<Rightarrow> bool \<Rightarrow> (config_error, bool) result" where
  "parse_bool_with_default get key dflt =
     (case map_option to_lowercase (get key) of
        None \<Rightarrow> Inr dflt
      | Some s \<Rightarrow>
          if s = ''true'' \<or> s = ''1'' \<or> s = ''yes'' then Inr True
          else if s = ''false'' \<or> s = ''0'' \<or> s = ''no'' then Inr False
          else Inl (MustBeBool key))"

definition required :: "lookup \<Rightarrow> string \<Rightarrow> (config_error, string) result" where
  "required get key = ok_or (get key) (MustBeSet key)"

section \<open>Loading\<close>

definition load_input_transport :: "lookup \<Rightarrow> (config_error, InputTransport) result" where
  "load_input_transport get =
     InputTransport_parse (unwrap_or (get ''INPUT_TRANSPORT'') ''nats'')"

definition load_nats_consumer_parts ::
  "lookup \<Rightarrow> InputTransport \<Rightarrow> (config_error, string \<times> string) result" where
  "load_nats_consumer_parts get transport =
     (case transport of
        Nats \<Rightarrow>
          and_then (required get ''NATS_STREAM'') (\<lambda>stream.
          and_then (required get ''NATS_CONSUMER'') (\<lambda>consumer.
          Inr (stream, consumer)))
      | UnixSocket \<Rightarrow> Inr ([], []))"

type_synonym NatsConfigParts = "string \<times> string \<times> string \<times> string option \<times> string option"

definition load_nats_config ::
  "lookup \<Rightarrow> InputTransport \<Rightarrow> (config_error, NatsConfigParts) result" where
  "load_nats_config get transport =
     (let url = unwrap_or (get ''NATS_URL'') ''nats://localhost:4222''
      in and_then (load_nats_consumer_parts get transport) (\<lambda>(stream, consumer).
         Inr (url, stream, consumer, get ''NATS_SUBJECT_FILTER'', get ''NATS_CREDENTIALS'')))"

definition load_unix_socket_max_line_bytes :: "lookup \<Rightarrow> (config_error, u64) result" where
  "load_unix_socket_max_line_bytes get =
     and_then (parse_with_default parse_u64 get ''UNIX_SOCKET_MAX_LINE_BYTES'' ''65536'') (\<lambda>n.
       if n = 0 then Inl (MustBePositive ''UNIX_SOCKET_MAX_LINE_BYTES'') else Inr n)"

type_synonym UnixSocketConfigParts = "string \<times> u32 option \<times> u32 option \<times> u64"

definition load_unix_socket_config :: "lookup \<Rightarrow> (config_error, UnixSocketConfigParts) result" where
  "load_unix_socket_config get =
     and_then (load_unix_socket_max_line_bytes get) (\<lambda>max_line_bytes.
     let path = unwrap_or (get ''UNIX_SOCKET_PATH'') ''/run/iec104bridge/input.sock'' in
     and_then (parse_optional parse_u32 get ''UNIX_SOCKET_ALLOWED_UID'') (\<lambda>uid.
     and_then (parse_optional parse_u32 get ''UNIX_SOCKET_ALLOWED_GID'') (\<lambda>gid.
     Inr (path, uid, gid, max_line_bytes))))"

type_synonym ServerConfigParts =
  "string \<times> u16 \<times> u16 \<times> bool \<times> u16 \<times> u16 \<times> bool \<times> Duration option"

definition load_server_config :: "lookup \<Rightarrow> (config_error, ServerConfigParts) result" where
  "load_server_config get =
     and_then (parse_with_default parse_u16 get ''IEC104_QUEUE_SIZE'' ''1024'') (\<lambda>queue_size.
     if queue_size = 0 then Inl (MustBePositive ''IEC104_QUEUE_SIZE'')
     else
     and_then (parse_optional parse_u64 get ''IEC104_MAX_AGE_SECONDS'') (\<lambda>max_age_secs.
     if max_age_secs = Some 0 then Inl (MustBePositive ''IEC104_MAX_AGE_SECONDS'')
     else
     let bind_addr = unwrap_or (get ''IEC104_BIND_ADDR'') ''0.0.0.0'' in
     and_then (parse_with_default parse_u16 get ''IEC104_PORT'' ''2404'') (\<lambda>port.
     and_then (parse_with_default parse_u16 get ''IEC104_CA'' ''1'') (\<lambda>ca.
     let gi_only = is_truthy (get ''IEC104_GI_ONLY'') in
     and_then (parse_with_default parse_u16 get ''METRICS_PORT'' ''9091'') (\<lambda>metrics.
     and_then (parse_bool_with_default get ''IEC104_TIMESTAMPS'' True) (\<lambda>timestamps.
     Inr (bind_addr, port, ca, gi_only, metrics, queue_size, timestamps,
          map_option (\<lambda>s. duration_from_secs (unat s)) max_age_secs)))))))"

definition require_present :: "string option \<Rightarrow> string \<Rightarrow> (config_error, unit) result" where
  "require_present v key = (if v = None then Inl (MustBeSetForTls key) else Inr ())"

definition validate_tls_paths ::
  "bool \<Rightarrow> string option \<Rightarrow> string option \<Rightarrow> string option \<Rightarrow> (config_error, unit) result" where
  "validate_tls_paths enabled cert key ca =
     (if \<not> enabled then Inr ()
      else
        and_then (require_present cert ''TLS_CERT_PATH'') (\<lambda>_.
        and_then (require_present key ''TLS_KEY_PATH'') (\<lambda>_.
        and_then (require_present ca ''TLS_CA_CERT_PATH'') (\<lambda>_.
        Inr ()))))"

type_synonym TlsConfigParts = "bool \<times> string option \<times> string option \<times> string option \<times> u16"

definition load_tls_config :: "lookup \<Rightarrow> (config_error, TlsConfigParts) result" where
  "load_tls_config get =
     (let enabled = is_truthy (get ''TLS_ENABLED''); cert = get ''TLS_CERT_PATH'';
          key = get ''TLS_KEY_PATH''; ca = get ''TLS_CA_CERT_PATH''
      in and_then (validate_tls_paths enabled cert key ca) (\<lambda>_.
         and_then (parse_with_default parse_u16 get ''TLS_PORT'' ''19998'') (\<lambda>port.
         Inr (enabled, cert, key, ca, port))))"

record ConfigParts =
  parts_input_transport :: InputTransport
  parts_nats :: NatsConfigParts
  parts_unix_socket :: UnixSocketConfigParts
  parts_server :: ServerConfigParts
  parts_tls :: TlsConfigParts

definition load_config_parts :: "lookup \<Rightarrow> (config_error, ConfigParts) result" where
  "load_config_parts get =
     and_then (load_input_transport get) (\<lambda>transport.
     and_then (load_nats_config get transport) (\<lambda>nats.
     and_then (load_unix_socket_config get) (\<lambda>unix_socket.
     and_then (load_server_config get) (\<lambda>server.
     and_then (load_tls_config get) (\<lambda>tls.
     Inr \<lparr>parts_input_transport = transport, parts_nats = nats, parts_unix_socket = unix_socket,
          parts_server = server, parts_tls = tls\<rparr>)))))"

definition from_lookup :: "lookup \<Rightarrow> (config_error, Config) result" where
  "from_lookup get =
     and_then (load_config_parts get) (\<lambda>parts.
     case parts_nats parts of (url, stream, consumer, subject_filter, credentials_path) \<Rightarrow>
     case parts_unix_socket parts of (path, uid, gid, max_line_bytes) \<Rightarrow>
     case parts_server parts of
       (bind_addr, port, ca, gi_only, metrics, queue_size, timestamps, max_age) \<Rightarrow>
     case parts_tls parts of (enabled, cert, key, ca_cert, t_port) \<Rightarrow>
     Inr \<lparr>input_transport = parts_input_transport parts,
          nats_url = url, nats_stream = stream, nats_consumer = consumer,
          nats_subject_filter = subject_filter, nats_credentials_path = credentials_path,
          unix_socket_path = path, unix_socket_allowed_uid = uid, unix_socket_allowed_gid = gid,
          unix_socket_max_line_bytes = max_line_bytes,
          iec104_bind_addr = bind_addr, iec104_port = port, iec104_default_ca = ca,
          iec104_gi_only = gi_only, iec104_timestamps = timestamps, iec104_max_age = max_age,
          iec104_queue_size = queue_size, metrics_port = metrics,
          tls_enabled = enabled, tls_cert_path = cert, tls_key_path = key,
          tls_ca_cert_path = ca_cert, tls_port = t_port\<rparr>)"

section \<open>Decimal numbers\<close>

text \<open>What the sources' \<open>format!\<close> writes for an unsigned integer.\<close>

fun decimal :: "nat \<Rightarrow> string" where
  "decimal n = (if n < 10 then [char_of (48 + n)] else decimal (n div 10) @ [char_of (48 + n mod 10)])"

declare decimal.simps [simp del]

definition is_digit :: "char \<Rightarrow> bool" where
  "is_digit c \<longleftrightarrow> digit_value c \<noteq> None"

definition numeral_value :: "nat \<Rightarrow> string \<Rightarrow> nat" where
  "numeral_value acc s = foldl (\<lambda>a c. a * 10 + the (digit_value c)) acc s"

lemma digit_value_char_of: "d < 10 \<Longrightarrow> digit_value (char_of (48 + d)) = Some d"
  by (simp add: digit_value_def of_char_of)

lemma decimal_nonempty [simp]: "decimal n \<noteq> []"
  by (subst decimal.simps) simp

lemma is_digit_char_of: "d < (10::nat) \<Longrightarrow> is_digit (char_of (48 + d))"
  by (simp add: is_digit_def digit_value_char_of)

lemma decimal_digits: "list_all is_digit (decimal n)"
  by (induction n rule: decimal.induct) (subst decimal.simps, simp add: is_digit_char_of)

lemma plus_no_digit: "\<not> is_digit (CHR ''+'')"
  by (simp add: is_digit_def digit_value_def)

lemma numeral_value_decimal: "numeral_value 0 (decimal n) = n"
proof (induction n rule: decimal.induct)
  case (1 n)
  show ?case
  proof (cases "n < 10")
    case True
    then show ?thesis
      by (subst decimal.simps) (simp add: numeral_value_def digit_value_char_of)
  next
    case False
    with 1 show ?thesis
      by (subst decimal.simps) (simp add: numeral_value_def digit_value_char_of)
  qed
qed

lemma numeral_value_ge: "acc \<le> numeral_value acc s"
proof (induction s arbitrary: acc)
  case (Cons c s)
  have "acc \<le> acc * 10 + the (digit_value c)" by simp
  with Cons [of "acc * 10 + the (digit_value c)"] show ?case by (simp add: numeral_value_def)
qed (simp add: numeral_value_def)

lemma parse_digits_iff:
  "acc < lim \<Longrightarrow> parse_digits lim acc s = Some n \<longleftrightarrow>
     list_all is_digit s \<and> n = numeral_value acc s \<and> n < lim"
proof (induction s arbitrary: acc)
  case Nil
  then show ?case by (auto simp: numeral_value_def)
next
  case (Cons c s)
  show ?case
  proof (cases "digit_value c")
    case None
    then show ?thesis by (simp add: is_digit_def)
  next
    case (Some d)
    show ?thesis
    proof (cases "acc * 10 + d < lim")
      case True
      then show ?thesis using Cons.IH by (simp add: Some is_digit_def numeral_value_def)
    next
      case False
      then show ?thesis
        using numeral_value_ge [of "acc * 10 + d" s] by (auto simp: Some is_digit_def numeral_value_def)
    qed
  qed
qed

lemma parse_unsigned_digits:
  assumes "0 < lim"
  shows "parse_unsigned lim s = Some n \<longleftrightarrow>
    (\<exists>ds. (s = ds \<or> s = CHR ''+'' # ds) \<and> ds \<noteq> [] \<and> list_all is_digit ds \<and>
       n = numeral_value 0 ds \<and> n < lim)"
proof (cases s)
  case Nil
  then show ?thesis by (simp add: parse_unsigned_def)
next
  case (Cons c cs)
  show ?thesis
  proof (cases "c = CHR ''+''")
    case True
    then show ?thesis
      using parse_digits_iff [OF assms, of cs n] plus_no_digit
      by (auto simp: parse_unsigned_def Cons)
  next
    case False
    then show ?thesis
      using parse_digits_iff [OF assms, of s n] by (auto simp: parse_unsigned_def Cons)
  qed
qed

lemma parse_unsigned_decimal:
  "0 < lim \<Longrightarrow> parse_unsigned lim (decimal n) = (if n < lim then Some n else None)"
proof -
  assume lim: "0 < lim"
  have "decimal n \<noteq> CHR ''+'' # ds" for ds
    using decimal_digits [of n] plus_no_digit by auto
  then have "parse_unsigned lim (decimal n) = Some m \<longleftrightarrow> m = n \<and> n < lim" for m
    using parse_unsigned_digits [OF lim, of "decimal n" m] decimal_digits [of n]
      numeral_value_decimal [of n] by auto
  then show ?thesis by (metis not_None_eq)
qed

section \<open>Acceptable environments\<close>

text \<open>The abstract specification of loading: a condition per key, in any order.\<close>

definition numeric_setting :: "lookup \<Rightarrow> string \<Rightarrow> nat \<Rightarrow> nat \<Rightarrow> bool" where
  "numeric_setting get key lo hi \<longleftrightarrow>
     (case get key of
        None \<Rightarrow> True
      | Some v \<Rightarrow> (case parse_unsigned hi v of None \<Rightarrow> False | Some n \<Rightarrow> lo \<le> n))"

definition acceptable :: "lookup \<Rightarrow> bool" where
  "acceptable get \<longleftrightarrow>
     get ''INPUT_TRANSPORT'' \<in> {None, Some ''nats'', Some ''unix_socket''} \<and>
     (get ''INPUT_TRANSPORT'' \<noteq> Some ''unix_socket'' \<longrightarrow>
        get ''NATS_STREAM'' \<noteq> None \<and> get ''NATS_CONSUMER'' \<noteq> None) \<and>
     numeric_setting get ''UNIX_SOCKET_MAX_LINE_BYTES'' 1 (2 ^ 64) \<and>
     numeric_setting get ''UNIX_SOCKET_ALLOWED_UID'' 0 (2 ^ 32) \<and>
     numeric_setting get ''UNIX_SOCKET_ALLOWED_GID'' 0 (2 ^ 32) \<and>
     numeric_setting get ''IEC104_QUEUE_SIZE'' 1 (2 ^ 16) \<and>
     numeric_setting get ''IEC104_MAX_AGE_SECONDS'' 1 (2 ^ 64) \<and>
     numeric_setting get ''IEC104_PORT'' 0 (2 ^ 16) \<and>
     numeric_setting get ''IEC104_CA'' 0 (2 ^ 16) \<and>
     numeric_setting get ''METRICS_PORT'' 0 (2 ^ 16) \<and>
     map_option to_lowercase (get ''IEC104_TIMESTAMPS'')
       \<in> {None, Some ''true'', Some ''1'', Some ''yes'', Some ''false'', Some ''0'', Some ''no''} \<and>
     (is_truthy (get ''TLS_ENABLED'') \<longrightarrow>
        get ''TLS_CERT_PATH'' \<noteq> None \<and> get ''TLS_KEY_PATH'' \<noteq> None \<and> get ''TLS_CA_CERT_PATH'' \<noteq> None) \<and>
     numeric_setting get ''TLS_PORT'' 0 (2 ^ 16)"

lemma of_nat_eq_0_small: "n < 2 ^ LENGTH('a) \<Longrightarrow> (of_nat n :: 'a::len word) = 0 \<longleftrightarrow> n = 0"
  by (cases "n = 0") (simp_all add: word_of_nat_eq_0_iff nat_dvd_not_less)

lemma parse_unsigned_less: "0 < lim \<Longrightarrow> parse_unsigned lim s = Some n \<Longrightarrow> n < lim"
  by (auto simp: parse_unsigned_digits)

definition parse_word :: "string \<Rightarrow> 'a::len word option" where
  "parse_word s = map_option of_nat (parse_unsigned (2 ^ LENGTH('a)) s)"

lemma parse_words: "parse_u16 = parse_word" "parse_u32 = parse_word" "parse_u64 = parse_word"
  by (simp_all add: fun_eq_iff parse_word_def parse_u16_def parse_u32_def parse_u64_def)

lemma parse_with_default_ok:
  assumes "(parse_word dflt :: 'a::len word option) \<noteq> None"
  shows "is_ok (parse_with_default (parse_word :: string \<Rightarrow> 'a word option) get key dflt)
    \<longleftrightarrow> numeric_setting get key 0 (2 ^ LENGTH('a))"
  using assms
  by (auto simp: parse_with_default_def numeric_setting_def is_ok_iff ok_or_Inr_iff parse_word_def
      unwrap_or_def split: option.splits)

lemma parse_with_default_positive:
  assumes "\<exists>w. (parse_word dflt :: 'a::len word option) = Some w \<and> w \<noteq> 0"
  shows "(\<exists>w. parse_with_default (parse_word :: string \<Rightarrow> 'a word option) get key dflt = Inr w \<and> w \<noteq> 0)
    \<longleftrightarrow> numeric_setting get key 1 (2 ^ LENGTH('a))"
proof (cases "get key")
  case None
  with assms show ?thesis by (simp add: parse_with_default_def numeric_setting_def ok_or_Inr_iff)
next
  case (Some v)
  show ?thesis
  proof (cases "parse_unsigned (2 ^ LENGTH('a)) v")
    case None
    then show ?thesis
      by (simp add: parse_with_default_def numeric_setting_def parse_word_def \<open>get key = Some v\<close>)
  next
    case (Some n)
    then have "n < 2 ^ LENGTH('a)" by (rule parse_unsigned_less [rotated]) simp
    then show ?thesis
      using Some \<open>get key = Some v\<close>
      by (simp add: parse_with_default_def numeric_setting_def parse_word_def of_nat_eq_0_small
          Suc_le_eq)
  qed
qed

lemma parse_optional_ok:
  "is_ok (parse_optional (parse_word :: string \<Rightarrow> 'a::len word option) get key)
    \<longleftrightarrow> numeric_setting get key 0 (2 ^ LENGTH('a))"
  by (auto simp: parse_optional_def numeric_setting_def parse_word_def split: option.splits)

lemma parse_optional_positive:
  "(\<exists>w. parse_optional (parse_word :: string \<Rightarrow> 'a::len word option) get key = Inr w \<and> w \<noteq> Some 0)
    \<longleftrightarrow> numeric_setting get key 1 (2 ^ LENGTH('a))"
proof (cases "get key")
  case None
  then show ?thesis by (simp add: parse_optional_def numeric_setting_def)
next
  case (Some v)
  show ?thesis
  proof (cases "parse_unsigned (2 ^ LENGTH('a)) v")
    case None
    then show ?thesis
      by (simp add: parse_optional_def numeric_setting_def parse_word_def \<open>get key = Some v\<close>)
  next
    case (Some n)
    then have "n < 2 ^ LENGTH('a)" by (rule parse_unsigned_less [rotated]) simp
    then show ?thesis
      using Some \<open>get key = Some v\<close>
      by (simp add: parse_optional_def numeric_setting_def parse_word_def of_nat_eq_0_small Suc_le_eq)
  qed
qed

lemma parse_bool_ok:
  "is_ok (parse_bool_with_default get key dflt) \<longleftrightarrow>
     map_option to_lowercase (get key)
       \<in> {None, Some ''true'', Some ''1'', Some ''yes'', Some ''false'', Some ''0'', Some ''no''}"
  by (auto simp: parse_bool_with_default_def split: option.split)

lemma default_literals:
  "parse_word ''65536'' = Some (65536 :: u64)" "parse_word ''1024'' = Some (1024 :: u16)"
  "parse_word ''2404'' = Some (2404 :: u16)" "parse_word ''1'' = Some (1 :: u16)"
  "parse_word ''9091'' = Some (9091 :: u16)" "parse_word ''19998'' = Some (19998 :: u16)"
  by (simp_all add: parse_word_def parse_unsigned_def digit_value_def)

section \<open>The loaders\<close>

lemma is_ok_and_then_const: "is_ok (and_then r (\<lambda>_. s)) \<longleftrightarrow> is_ok r \<and> is_ok s"
  by (cases r) simp_all

lemma ex_Inr: "(\<exists>a. r = Inr a) \<longleftrightarrow> is_ok r"
  by (simp add: is_ok_iff)

lemma ex_Inr_const: "(\<exists>a. r = Inr a \<and> Q) \<longleftrightarrow> is_ok r \<and> Q"
  by (auto simp: is_ok_iff)

lemma load_input_transport_iff:
  "load_input_transport get = Inr t \<longleftrightarrow>
     (t = Nats \<and> get ''INPUT_TRANSPORT'' \<in> {None, Some ''nats''} \<or>
      t = UnixSocket \<and> get ''INPUT_TRANSPORT'' = Some ''unix_socket'')"
  by (cases "get ''INPUT_TRANSPORT''") (auto simp: load_input_transport_def InputTransport_parse_def)

lemma transport_choice:
  "(\<exists>t. (t = Nats \<and> x \<in> {a, b} \<or> t = UnixSocket \<and> x = c) \<and> (t = Nats \<longrightarrow> R)) \<longleftrightarrow>
     x \<in> {a, b, c} \<and> (x \<noteq> c \<longrightarrow> R)"
  by blast

lemma load_nats_config_ok:
  "is_ok (load_nats_config get t) \<longleftrightarrow>
     (t = Nats \<longrightarrow> get ''NATS_STREAM'' \<noteq> None \<and> get ''NATS_CONSUMER'' \<noteq> None)"
  by (cases t; cases "get ''NATS_STREAM''"; cases "get ''NATS_CONSUMER''")
    (simp_all add: load_nats_config_def load_nats_consumer_parts_def required_def)

lemma load_unix_socket_config_ok:
  "is_ok (load_unix_socket_config get) \<longleftrightarrow>
     numeric_setting get ''UNIX_SOCKET_MAX_LINE_BYTES'' 1 (2 ^ 64) \<and>
     numeric_setting get ''UNIX_SOCKET_ALLOWED_UID'' 0 (2 ^ 32) \<and>
     numeric_setting get ''UNIX_SOCKET_ALLOWED_GID'' 0 (2 ^ 32)"
proof -
  have "is_ok (load_unix_socket_max_line_bytes get)
      \<longleftrightarrow> numeric_setting get ''UNIX_SOCKET_MAX_LINE_BYTES'' 1 (2 ^ 64)"
    using parse_with_default_positive [of "''65536''" get "''UNIX_SOCKET_MAX_LINE_BYTES''", where 'a = 64]
    by (auto simp: load_unix_socket_max_line_bytes_def is_ok_and_then parse_words default_literals)
  then show ?thesis
    using parse_optional_ok [of get "''UNIX_SOCKET_ALLOWED_UID''", where 'a = 32]
      parse_optional_ok [of get "''UNIX_SOCKET_ALLOWED_GID''", where 'a = 32]
    by (simp add: load_unix_socket_config_def Let_def parse_words is_ok_and_then ex_Inr)
qed

lemma if_error_ok: "is_ok (if b then Inl e else r) \<longleftrightarrow> \<not> b \<and> is_ok r"
  by simp

lemma ex_Inr_positive:
  "(\<exists>a. r = Inr a \<and> P a \<and> Q) \<longleftrightarrow> (\<exists>a. r = Inr a \<and> P a) \<and> Q"
  by blast

lemma load_server_config_ok:
  "is_ok (load_server_config get) \<longleftrightarrow>
     numeric_setting get ''IEC104_QUEUE_SIZE'' 1 (2 ^ 16) \<and>
     numeric_setting get ''IEC104_MAX_AGE_SECONDS'' 1 (2 ^ 64) \<and>
     numeric_setting get ''IEC104_PORT'' 0 (2 ^ 16) \<and>
     numeric_setting get ''IEC104_CA'' 0 (2 ^ 16) \<and>
     numeric_setting get ''METRICS_PORT'' 0 (2 ^ 16) \<and>
     map_option to_lowercase (get ''IEC104_TIMESTAMPS'')
       \<in> {None, Some ''true'', Some ''1'', Some ''yes'', Some ''false'', Some ''0'', Some ''no''}"
proof -
  note positive = parse_with_default_positive [of "''1024''" get "''IEC104_QUEUE_SIZE''", where 'a = 16]
    parse_optional_positive [of get "''IEC104_MAX_AGE_SECONDS''", where 'a = 64]
  note plain = parse_with_default_ok [of "''2404''" get "''IEC104_PORT''", where 'a = 16]
    parse_with_default_ok [of "''1''" get "''IEC104_CA''", where 'a = 16]
    parse_with_default_ok [of "''9091''" get "''METRICS_PORT''", where 'a = 16]
  show ?thesis
    using positive plain parse_bool_ok [of get "''IEC104_TIMESTAMPS''" True]
    by (simp only: load_server_config_def Let_def parse_words is_ok_and_then if_error_ok
        ex_Inr_positive is_ok_simps simp_thms)
      (simp add: default_literals ex_Inr ex_Inr_const)
qed

lemma load_tls_config_ok:
  "is_ok (load_tls_config get) \<longleftrightarrow>
     (is_truthy (get ''TLS_ENABLED'') \<longrightarrow>
        get ''TLS_CERT_PATH'' \<noteq> None \<and> get ''TLS_KEY_PATH'' \<noteq> None \<and> get ''TLS_CA_CERT_PATH'' \<noteq> None) \<and>
     numeric_setting get ''TLS_PORT'' 0 (2 ^ 16)"
proof -
  have "validate_tls_paths enabled cert key ca = Inr () \<longleftrightarrow>
      (enabled \<longrightarrow> cert \<noteq> None \<and> key \<noteq> None \<and> ca \<noteq> None)" for enabled cert key ca
    by (simp add: validate_tls_paths_def require_present_def)
  then show ?thesis
    using parse_with_default_ok [of "''19998''" get "''TLS_PORT''", where 'a = 16]
    by (simp add: load_tls_config_def Let_def parse_words is_ok_and_then ex_Inr default_literals)
qed

lemma from_lookup_ok: "is_ok (from_lookup get) \<longleftrightarrow> is_ok (load_config_parts get)"
  by (cases "load_config_parts get") (simp_all add: from_lookup_def split: prod.split)

lemma loaded_tls_paths:
  assumes "from_lookup get = Inr c" and "tls_enabled c"
  shows "\<exists>cert key ca. get ''TLS_CERT_PATH'' = Some cert \<and> tls_cert_path c = Some cert \<and>
      get ''TLS_KEY_PATH'' = Some key \<and> tls_key_path c = Some key \<and>
      get ''TLS_CA_CERT_PATH'' = Some ca \<and> tls_ca_cert_path c = Some ca"
proof -
  from assms(1) have "\<exists>po. load_tls_config get =
      Inr (tls_enabled c, tls_cert_path c, tls_key_path c, tls_ca_cert_path c, po)"
    by (auto simp: from_lookup_def load_config_parts_def and_then_Inr_iff)
  with assms(2) show ?thesis
    by (auto simp: load_tls_config_def Let_def and_then_Inr_iff validate_tls_paths_def
        require_present_def split: if_splits)
qed

section \<open>Properties\<close>

text \<open>C21: Loading succeeds exactly when every key satisfies its condition: a known transport, stream
  and consumer names for NATS, numbers in range, a positive line limit, queue size and age
  limit, a boolean timestamps switch, and all three certificate paths when TLS is on.\<close>

theorem from_lookup_accepts_iff: "is_ok (from_lookup get) \<longleftrightarrow> acceptable get"
proof -
  have parts: "is_ok (load_config_parts get) \<longleftrightarrow>
      (\<exists>t. load_input_transport get = Inr t \<and> is_ok (load_nats_config get t)) \<and>
      is_ok (load_unix_socket_config get) \<and> is_ok (load_server_config get) \<and>
      is_ok (load_tls_config get)"
    by (cases "load_input_transport get")
      (auto simp: load_config_parts_def is_ok_iff and_then_Inr_iff)
  have transport: "(\<exists>t. load_input_transport get = Inr t \<and> is_ok (load_nats_config get t)) \<longleftrightarrow>
      get ''INPUT_TRANSPORT'' \<in> {None, Some ''nats'', Some ''unix_socket''} \<and>
      (get ''INPUT_TRANSPORT'' \<noteq> Some ''unix_socket'' \<longrightarrow>
        get ''NATS_STREAM'' \<noteq> None \<and> get ''NATS_CONSUMER'' \<noteq> None)"
    unfolding load_input_transport_iff load_nats_config_ok
    by (rule transport_choice)
  show ?thesis
    unfolding from_lookup_ok parts transport load_unix_socket_config_ok load_server_config_ok
      load_tls_config_ok acceptable_def conj_assoc by (rule refl)
qed

text \<open>A configuration that loads keeps the promises the rest of the program builds on: positive
  line limit, queue size and age limit, the three certificate paths of the environment when TLS
  is on, and the stream and consumer of the environment in NATS mode.\<close>

theorem from_lookup_sound:
  assumes "from_lookup get = Inr c"
  shows "0 < unix_socket_max_line_bytes c \<and> 0 < iec104_queue_size c \<and> iec104_max_age c \<noteq> Some 0 \<and>
    (tls_enabled c \<longrightarrow>
       (\<exists>cert key ca. get ''TLS_CERT_PATH'' = Some cert \<and> tls_cert_path c = Some cert \<and>
          get ''TLS_KEY_PATH'' = Some key \<and> tls_key_path c = Some key \<and>
          get ''TLS_CA_CERT_PATH'' = Some ca \<and> tls_ca_cert_path c = Some ca)) \<and>
    (input_transport c = Nats \<longrightarrow>
       get ''NATS_STREAM'' = Some (nats_stream c) \<and> get ''NATS_CONSUMER'' = Some (nats_consumer c))"
proof -
  from assms obtain t where t: "load_input_transport get = Inr t"
    and transport: "input_transport c = t"
    and nats: "\<exists>url f cr. load_nats_config get t = Inr (url, nats_stream c, nats_consumer c, f, cr)"
    and unix: "\<exists>p u g. load_unix_socket_config get = Inr (p, u, g, unix_socket_max_line_bytes c)"
    and server: "\<exists>b po ca gi m ts. load_server_config get =
      Inr (b, po, ca, gi, m, iec104_queue_size c, ts, iec104_max_age c)"
    by (auto simp: from_lookup_def load_config_parts_def and_then_Inr_iff)
  have "0 < unix_socket_max_line_bytes c"
    using unix by (auto simp: load_unix_socket_config_def load_unix_socket_max_line_bytes_def
        Let_def and_then_Inr_iff word_gt_0 split: if_splits)
  moreover have "0 < iec104_queue_size c \<and> iec104_max_age c \<noteq> Some 0"
    using server by (auto simp: load_server_config_def Let_def and_then_Inr_iff word_gt_0
        duration_from_secs_def unat_eq_0 split: if_splits)
  moreover have "t = Nats \<longrightarrow>
      get ''NATS_STREAM'' = Some (nats_stream c) \<and> get ''NATS_CONSUMER'' = Some (nats_consumer c)"
    using nats by (auto simp: load_nats_config_def load_nats_consumer_parts_def required_def
        and_then_Inr_iff ok_or_Inr_iff)
  moreover have "tls_enabled c \<longrightarrow> (\<exists>cert key ca. get ''TLS_CERT_PATH'' = Some cert \<and>
      tls_cert_path c = Some cert \<and> get ''TLS_KEY_PATH'' = Some key \<and> tls_key_path c = Some key \<and>
      get ''TLS_CA_CERT_PATH'' = Some ca \<and> tls_ca_cert_path c = Some ca)"
    using loaded_tls_paths [OF assms] by blast
  ultimately show ?thesis unfolding transport by blast
qed

lemmas load_defs =
  from_lookup_def load_config_parts_def load_input_transport_def load_nats_config_def
  load_nats_consumer_parts_def load_unix_socket_config_def load_unix_socket_max_line_bytes_def
  load_server_config_def load_tls_config_def validate_tls_paths_def require_present_def
  required_def InputTransport_parse_def parse_bool_with_default_def Let_def

lemmas parse_eval =
  parse_words parse_with_default_def parse_optional_def default_literals parse_word_def
  parse_unsigned_def digit_value_def is_truthy_def to_lowercase_def to_lower_char_def

text \<open>
  The configurations there are, stated without the loader: the limits are positive, the age limit
  is a whole number of seconds, socket mode has no stream and consumer, and TLS has its paths.
\<close>

definition loadable :: "Config \<Rightarrow> bool" where
  "loadable c \<longleftrightarrow>
     (input_transport c = UnixSocket \<longrightarrow> nats_stream c = [] \<and> nats_consumer c = []) \<and>
     0 < unix_socket_max_line_bytes c \<and> 0 < iec104_queue_size c \<and>
     (\<forall>age. iec104_max_age c = Some age \<longrightarrow> (\<exists>n. 0 < n \<and> n < 2 ^ 64 \<and> age = duration_from_secs n)) \<and>
     (tls_enabled c \<longrightarrow> tls_cert_path c \<noteq> None \<and> tls_key_path c \<noteq> None \<and> tls_ca_cert_path c \<noteq> None)"

text \<open>How an operator writes a configuration down with the keys of the README: numbers in decimal,
  the age limit in seconds, switches as \<open>true\<close> and \<open>false\<close>, what is not set left out.\<close>

definition switch :: "bool \<Rightarrow> string" where
  "switch b = (if b then ''true'' else ''false'')"

definition age_seconds :: "Duration \<Rightarrow> nat" where
  "age_seconds age = age div 1000000000"

definition config_environment :: "Config \<Rightarrow> lookup" where
  "config_environment c = (map_of
     [(''INPUT_TRANSPORT'', case input_transport c of Nats \<Rightarrow> ''nats'' | UnixSocket \<Rightarrow> ''unix_socket''),
      (''NATS_URL'', nats_url c),
      (''NATS_STREAM'', nats_stream c),
      (''NATS_CONSUMER'', nats_consumer c),
      (''UNIX_SOCKET_PATH'', unix_socket_path c),
      (''UNIX_SOCKET_MAX_LINE_BYTES'', decimal (unat (unix_socket_max_line_bytes c))),
      (''IEC104_BIND_ADDR'', iec104_bind_addr c),
      (''IEC104_PORT'', decimal (unat (iec104_port c))),
      (''IEC104_CA'', decimal (unat (iec104_default_ca c))),
      (''IEC104_GI_ONLY'', switch (iec104_gi_only c)),
      (''IEC104_TIMESTAMPS'', switch (iec104_timestamps c)),
      (''IEC104_QUEUE_SIZE'', decimal (unat (iec104_queue_size c))),
      (''METRICS_PORT'', decimal (unat (metrics_port c))),
      (''TLS_ENABLED'', switch (tls_enabled c)),
      (''TLS_PORT'', decimal (unat (tls_port c)))])
     (''NATS_SUBJECT_FILTER'' := nats_subject_filter c,
      ''NATS_CREDENTIALS'' := nats_credentials_path c,
      ''UNIX_SOCKET_ALLOWED_UID'' := map_option (decimal \<circ> unat) (unix_socket_allowed_uid c),
      ''UNIX_SOCKET_ALLOWED_GID'' := map_option (decimal \<circ> unat) (unix_socket_allowed_gid c),
      ''IEC104_MAX_AGE_SECONDS'' := map_option (decimal \<circ> age_seconds) (iec104_max_age c),
      ''TLS_CERT_PATH'' := tls_cert_path c,
      ''TLS_KEY_PATH'' := tls_key_path c,
      ''TLS_CA_CERT_PATH'' := tls_ca_cert_path c)"

lemma parse_word_decimal [simp]: "parse_word (decimal (unat w)) = Some (w :: 'a::len word)"
  by (simp add: parse_word_def parse_unsigned_decimal)

lemma parse_word_decimal_nat:
  "n < 2 ^ LENGTH('a) \<Longrightarrow> parse_word (decimal n) = Some (of_nat n :: 'a::len word)"
  by (simp add: parse_word_def parse_unsigned_decimal)

lemma switch_lower [simp]: "to_lowercase (switch b) = switch b"
  by (simp add: switch_def to_lowercase_def to_lower_char_def)

lemma switch_truthy [simp]: "is_truthy (Some (switch b)) = b"
  by (simp add: is_truthy_def) (simp add: switch_def)

lemma switch_bool [simp]: "get key = Some (switch b) \<Longrightarrow> parse_bool_with_default get key d = Inr b"
  by (simp add: parse_bool_with_default_def) (simp add: switch_def)

lemma parse_optional_word:
  "get key = map_option (decimal \<circ> unat) v \<Longrightarrow> parse_optional parse_word get key = Inr v"
  by (cases v) (simp_all add: parse_optional_def)

lemma environment_unix_socket:
  assumes "0 < unix_socket_max_line_bytes c"
  shows "load_unix_socket_config (config_environment c) =
    Inr (unix_socket_path c, unix_socket_allowed_uid c, unix_socket_allowed_gid c,
      unix_socket_max_line_bytes c)"
  using assms
  by (simp add: load_unix_socket_config_def load_unix_socket_max_line_bytes_def parse_words
      parse_with_default_def parse_optional_word config_environment_def word_gt_0)

lemma environment_age:
  assumes "loadable c"
  shows "\<exists>age :: u64 option. parse_optional parse_word (config_environment c) ''IEC104_MAX_AGE_SECONDS'' = Inr age \<and>
    age \<noteq> Some 0 \<and> map_option (\<lambda>s. duration_from_secs (unat s)) age = iec104_max_age c"
proof (cases "iec104_max_age c")
  case None
  then show ?thesis by (simp add: config_environment_def parse_optional_def)
next
  case (Some age)
  with assms obtain n where n: "0 < n" "n < 2 ^ 64" and age: "age = duration_from_secs n"
    unfolding loadable_def by blast
  then show ?thesis
    by (simp add: Some config_environment_def parse_optional_def age_seconds_def duration_from_secs_def
        parse_word_decimal_nat of_nat_eq_0_small unat_of_nat take_bit_nat_eq_self)
qed

lemma environment_server:
  assumes "loadable c"
  shows "load_server_config (config_environment c) =
    Inr (iec104_bind_addr c, iec104_port c, iec104_default_ca c, iec104_gi_only c, metrics_port c,
      iec104_queue_size c, iec104_timestamps c, iec104_max_age c)"
proof -
  obtain age :: "u64 option" where age:
    "parse_optional parse_word (config_environment c) ''IEC104_MAX_AGE_SECONDS'' = Inr age"
    "age \<noteq> Some 0" "map_option (\<lambda>s. duration_from_secs (unat s)) age = iec104_max_age c"
    using environment_age [OF assms] by blast
  moreover have "iec104_queue_size c \<noteq> 0"
    using assms by (auto simp: loadable_def)
  moreover have
    "config_environment c ''IEC104_QUEUE_SIZE'' = Some (decimal (unat (iec104_queue_size c)))"
    "config_environment c ''IEC104_BIND_ADDR'' = Some (iec104_bind_addr c)"
    "config_environment c ''IEC104_PORT'' = Some (decimal (unat (iec104_port c)))"
    "config_environment c ''IEC104_CA'' = Some (decimal (unat (iec104_default_ca c)))"
    "config_environment c ''IEC104_GI_ONLY'' = Some (switch (iec104_gi_only c))"
    "config_environment c ''METRICS_PORT'' = Some (decimal (unat (metrics_port c)))"
    "config_environment c ''IEC104_TIMESTAMPS'' = Some (switch (iec104_timestamps c))"
    by (simp_all add: config_environment_def)
  ultimately show ?thesis
    by (simp add: load_server_config_def Let_def parse_words parse_with_default_def)
qed

lemma environment_tls:
  assumes "loadable c"
  shows "load_tls_config (config_environment c) =
    Inr (tls_enabled c, tls_cert_path c, tls_key_path c, tls_ca_cert_path c, tls_port c)"
  using assms
  by (cases "tls_enabled c") (simp_all add: load_tls_config_def validate_tls_paths_def require_present_def parse_words
      parse_with_default_def config_environment_def loadable_def Let_def)

lemma environment_nats:
  assumes "loadable c"
  shows "load_input_transport (config_environment c) = Inr (input_transport c) \<and>
    load_nats_config (config_environment c) (input_transport c) =
      Inr (nats_url c, nats_stream c, nats_consumer c, nats_subject_filter c, nats_credentials_path c)"
  using assms
  by (cases "input_transport c")
    (simp_all add: load_input_transport_def InputTransport_parse_def load_nats_config_def
      load_nats_consumer_parts_def required_def config_environment_def loadable_def)

lemma environment_loads: "loadable c \<Longrightarrow> from_lookup (config_environment c) = Inr c"
  by (simp add: from_lookup_def load_config_parts_def environment_nats environment_server
      environment_tls environment_unix_socket loadable_def [THEN iffD1])

lemma loaded_age:
  assumes "load_server_config get = Inr (b, po, ca, gi, m, q, ts, Some age)"
  shows "\<exists>n. 0 < n \<and> n < 2 ^ 64 \<and> age = duration_from_secs n"
proof -
  obtain secs :: u64 where "secs \<noteq> 0" "age = duration_from_secs (unat secs)"
    using assms by (auto simp: load_server_config_def Let_def and_then_Inr_iff split: if_splits)
  moreover have "unat secs < 2 ^ LENGTH(64)" by (rule unsigned_less)
  moreover have "0 < unat secs" using \<open>secs \<noteq> 0\<close> by (simp add: unat_gt_0 word_gt_0)
  ultimately show ?thesis by auto
qed

lemma loaded_is_loadable:
  assumes "from_lookup get = Inr c"
  shows "loadable c"
proof -
  obtain b po ca gi m ts where server: "load_server_config get =
      Inr (b, po, ca, gi, m, iec104_queue_size c, ts, iec104_max_age c)"
    using assms by (auto simp: from_lookup_def load_config_parts_def and_then_Inr_iff)
  have nats: "input_transport c = UnixSocket \<longrightarrow> nats_stream c = [] \<and> nats_consumer c = []"
    using assms by (auto simp: from_lookup_def load_config_parts_def load_nats_config_def
        load_nats_consumer_parts_def and_then_Inr_iff)
  show ?thesis
    using from_lookup_sound [OF assms] nats loaded_age [of get] server
    by (auto simp: loadable_def)
qed

text \<open>C38: The loader produces exactly the configurations with positive limits, an age limit of whole
  seconds, no stream and consumer in socket mode and all paths of TLS; and each of them is loaded
  field by field from the environment that writes it down with the documented keys.\<close>

theorem config_roundtrip:
  "((\<exists>get. from_lookup get = Inr c) \<longleftrightarrow> loadable c) \<and>
   (from_lookup (config_environment c) = Inr c \<longleftrightarrow> loadable c)"
  using environment_loads loaded_is_loadable by blast

definition tls_env :: lookup where
  "tls_env = map_of
     [(''INPUT_TRANSPORT'', ''unix_socket''), (''TLS_ENABLED'', ''Yes''), (''TLS_CERT_PATH'', ''c.pem''),
      (''TLS_KEY_PATH'', ''k.pem''), (''TLS_CA_CERT_PATH'', ''ca.pem'')]"

theorem from_lookup_sound_witness:
  "\<exists>c. from_lookup tls_env = Inr c \<and> 0 < iec104_queue_size c \<and> tls_key_path c = Some ''k.pem''"
proof -
  obtain c where c: "from_lookup tls_env = Inr c" and "tls_enabled c"
    by (simp add: tls_env_def load_defs parse_eval char_of_def bit_0)
  with from_lookup_sound [OF c] show ?thesis by (auto simp: tls_env_def)
qed

text \<open>With the two required names of NATS mode and nothing else the documented defaults hold:
  localhost NATS, the runtime socket path with 65536 bytes per line and any peer, port 2404 on
  all interfaces, common address 1, timestamps on, no age limit, a queue of 1024, metrics on
  9091, TLS off on port 19998.\<close>

theorem from_lookup_defaults:
  "from_lookup (map_of [(''NATS_STREAM'', stream), (''NATS_CONSUMER'', consumer)]) = Inr
    \<lparr>input_transport = Nats, nats_url = ''nats://localhost:4222'', nats_stream = stream,
     nats_consumer = consumer, nats_subject_filter = None, nats_credentials_path = None,
     unix_socket_path = ''/run/iec104bridge/input.sock'', unix_socket_allowed_uid = None,
     unix_socket_allowed_gid = None, unix_socket_max_line_bytes = 65536,
     iec104_bind_addr = ''0.0.0.0'', iec104_port = 2404, iec104_default_ca = 1,
     iec104_gi_only = False, iec104_timestamps = True, iec104_max_age = None,
     iec104_queue_size = 1024, metrics_port = 9091, tls_enabled = False, tls_cert_path = None,
     tls_key_path = None, tls_ca_cert_path = None, tls_port = 19998\<rparr>"
  by (simp add: load_defs parse_words parse_with_default_def parse_optional_def default_literals
      is_truthy_def)

definition config_keys :: "string list" where
  "config_keys =
     [''INPUT_TRANSPORT'', ''NATS_URL'', ''NATS_STREAM'', ''NATS_CONSUMER'', ''NATS_SUBJECT_FILTER'',
      ''NATS_CREDENTIALS'', ''UNIX_SOCKET_PATH'', ''UNIX_SOCKET_ALLOWED_UID'',
      ''UNIX_SOCKET_ALLOWED_GID'', ''UNIX_SOCKET_MAX_LINE_BYTES'', ''IEC104_BIND_ADDR'',
      ''IEC104_PORT'', ''IEC104_CA'', ''IEC104_GI_ONLY'', ''IEC104_TIMESTAMPS'',
      ''IEC104_MAX_AGE_SECONDS'', ''IEC104_QUEUE_SIZE'', ''METRICS_PORT'', ''TLS_ENABLED'',
      ''TLS_CERT_PATH'', ''TLS_KEY_PATH'', ''TLS_CA_CERT_PATH'', ''TLS_PORT'']"

text \<open>The configuration depends on the documented keys only: two environments that agree on them
  load the same configuration or fail with the same error.\<close>

theorem from_lookup_frame:
  assumes "map get config_keys = map get' config_keys"
  shows "from_lookup get = from_lookup get'"
  using assms
  by (simp only: config_keys_def list.map list.inject load_defs parse_with_default_def
      parse_optional_def)

theorem from_lookup_frame_witness:
  "from_lookup (map_of [(''PATH'', ''/bin''), (''NATS_STREAM'', ''s''), (''HOME'', ''/'')])
     = from_lookup (map_of [(''NATS_STREAM'', ''s'')])"
  by (rule from_lookup_frame) (simp add: config_keys_def)

text \<open>The default common address has no range check: an address that validation refuses in a
  message is accepted here.\<close>

theorem default_ca_not_checked:
  "\<exists>c. from_lookup (map_of [(''INPUT_TRANSPORT'', ''unix_socket''), (''IEC104_CA'', ''0'')]) = Inr c \<and>
     iec104_default_ca c = 0"
  by (simp add: load_defs parse_eval)

end
