(* ===== verification/Source.thy ===== *)
theory Source
  imports Validation Config
begin

text \<open>
  Message sources, \<open>src/src/source.rs\<close>: the incoming message with its acknowledgement, the NATS
  source, and the in-memory source of the tests. The NATS client library is a parameter: a
  record of the calls the code makes. The JSON parser (\<open>parse_text\<close>) and the RFC 3339 parser
  (\<open>rfc\<close>) are parameters as well; schema and validation are the development's own.
\<close>

section \<open>Incoming messages\<close>

text \<open>The acknowledgement callback is the token of what it acknowledges.\<close>

record 'k IncomingMessage =
  in_message :: Iec104Message
  ack_fn :: "'k option"

definition IncomingMessage_new :: "Iec104Message \<Rightarrow> 'k IncomingMessage" where
  "IncomingMessage_new msg = \<lparr>in_message = msg, ack_fn = None\<rparr>"

definition with_ack :: "Iec104Message \<Rightarrow> 'k \<Rightarrow> 'k IncomingMessage" where
  "with_ack msg k = \<lparr>in_message = msg, ack_fn = Some k\<rparr>"

text \<open>\<open>perform\<close> is what running a callback does to the transport.\<close>

definition ack ::
  "('k \<Rightarrow> 't \<Rightarrow> ('e, unit) result \<times> 't) \<Rightarrow> 'k IncomingMessage \<Rightarrow> 't \<Rightarrow> ('e, unit) result \<times> 't" where
  "ack perform incoming t =
     (case ack_fn incoming of Some k \<Rightarrow> perform k t | None \<Rightarrow> (Inr (), t))"

definition IterSource_into_messages ::
  "Iec104Message list \<Rightarrow> ('e, 'k IncomingMessage) result list" where
  "IterSource_into_messages messages = map (\<lambda>msg. Inr (IncomingMessage_new msg)) messages"

text \<open>\<open>serde_json\<close> on a text: the parser, then the schema.\<close>

definition from_text ::
  "(string \<Rightarrow> json option) \<Rightarrow> (string \<Rightarrow> OffsetDateTime option) \<Rightarrow> string
     \<Rightarrow> (de_error, Iec104Message) result" where
  "from_text parse_text rfc s =
     (case parse_text s of None \<Rightarrow> Inl InvalidValue | Some j \<Rightarrow> deserialize_message rfc j)"

section \<open>NATS\<close>

record JsMessage =
  js_id :: nat
  js_subject :: string
  js_payload :: string

datatype DeliverPolicy = DeliverNew
datatype AckPolicy = AckExplicit

record ConsumerConfig =
  durable_name :: "string option"
  deliver_policy :: DeliverPolicy
  ack_policy :: AckPolicy
  filter_subject :: string

datatype nats_error =
    CredentialsFailed string
  | ConnectFailed string
  | StreamNotFound string
  | ConsumerFailed string
  | MessageStreamFailed

type_synonym 'e js_items = "('e, JsMessage) result list"

record ('client, 'opts, 'stream, 'consumer, 'e) nats_api =
  api_connect :: "string list \<Rightarrow> 'client option"
  api_credentials_file :: "string \<Rightarrow> 'opts option"
  api_connect_with :: "'opts \<Rightarrow> string list \<Rightarrow> 'client option"
  api_get_stream :: "'client \<Rightarrow> string \<Rightarrow> 'stream option"
  api_get_or_create_consumer :: "'stream \<Rightarrow> string \<Rightarrow> ConsumerConfig \<Rightarrow> 'consumer option"
  api_messages :: "'consumer \<Rightarrow> 'e js_items option"

text \<open>\<open>split(',')\<close> and \<open>trim\<close>: the latter drops the characters with the Unicode property White_Space,
  given by their UTF-8 bytes, from both ends.\<close>

fun split_on :: "char \<Rightarrow> string \<Rightarrow> string list" where
  "split_on sep [] = [[]]"
| "split_on sep (c # cs) =
     (if c = sep then [] # split_on sep cs
      else case split_on sep cs of [] \<Rightarrow> [[c]] | p # ps \<Rightarrow> (c # p) # ps)"

definition white_space :: "string list" where
  "white_space =
     map (map char_of)
       ([[9], [10], [11], [12], [13], [32], [0xC2, 0x85], [0xC2, 0xA0], [0xE1, 0x9A, 0x80]] @
        map (\<lambda>b. [0xE2, 0x80, b]) [0x80..<0x8B] @
        [[0xE2, 0x80, 0xA8], [0xE2, 0x80, 0xA9], [0xE2, 0x80, 0xAF], [0xE2, 0x81, 0x9F],
         [0xE3, 0x80, 0x80 :: nat]])"

function trim_front :: "string list \<Rightarrow> string \<Rightarrow> string" where
  "trim_front chars s =
     (case find (\<lambda>c. c \<noteq> [] \<and> take (length c) s = c) chars of
        None \<Rightarrow> s
      | Some c \<Rightarrow> trim_front chars (drop (length c) s))"
  by pat_completeness auto

termination trim_front
proof (relation "measure (\<lambda>(chars, s). length s)")
  fix chars :: "string list" and s c
  assume "find (\<lambda>c. c \<noteq> [] \<and> take (length c) s = c) chars = Some c"
  then have "c \<noteq> []" "take (length c) s = c" by (auto simp: find_Some_iff)
  then show "((chars, drop (length c) s), (chars, s)) \<in> measure (\<lambda>(chars, s). length s)"
    by (cases s; cases c) auto
qed simp

declare trim_front.simps [simp del]

definition trim :: "string \<Rightarrow> string" where
  "trim s = rev (trim_front (map rev white_space) (rev (trim_front white_space s)))"

definition nats_urls :: "string \<Rightarrow> string list" where
  "nats_urls url = map trim (split_on (CHR '','') url)"

definition connect_to_nats_with_credentials ::
  "('client, 'opts, 'stream, 'consumer, 'e) nats_api \<Rightarrow> string \<Rightarrow> string list \<Rightarrow> string
     \<Rightarrow> (nats_error, 'client) result" where
  "connect_to_nats_with_credentials api creds_path urls url =
     and_then (ok_or (api_credentials_file api creds_path) (CredentialsFailed creds_path)) (\<lambda>opts.
     ok_or (api_connect_with api opts urls) (ConnectFailed url))"

definition connect_to_nats ::
  "('client, 'opts, 'stream, 'consumer, 'e) nats_api \<Rightarrow> Config \<Rightarrow> string list
     \<Rightarrow> (nats_error, 'client) result" where
  "connect_to_nats api config urls =
     (case nats_credentials_path config of
        Some creds_path \<Rightarrow>
          connect_to_nats_with_credentials api creds_path urls (nats_url config)
      | None \<Rightarrow> ok_or (api_connect api urls) (ConnectFailed (nats_url config)))"

definition open_jetstream_stream ::
  "('client, 'opts, 'stream, 'consumer, 'e) nats_api \<Rightarrow> 'client \<Rightarrow> string
     \<Rightarrow> (nats_error, 'stream) result" where
  "open_jetstream_stream api client stream_name =
     ok_or (api_get_stream api client stream_name) (StreamNotFound stream_name)"

definition build_consumer_config :: "Config \<Rightarrow> ConsumerConfig" where
  "build_consumer_config config =
     (let consumer_config = \<lparr>durable_name = Some (nats_consumer config),
            deliver_policy = DeliverNew, ack_policy = AckExplicit, filter_subject = []\<rparr>
      in case nats_subject_filter config of
           Some subject \<Rightarrow> consumer_config\<lparr>filter_subject := subject\<rparr>
         | None \<Rightarrow> consumer_config)"

definition get_or_create_consumer ::
  "('client, 'opts, 'stream, 'consumer, 'e) nats_api \<Rightarrow> 'stream \<Rightarrow> string \<Rightarrow> ConsumerConfig
     \<Rightarrow> (nats_error, 'consumer) result" where
  "get_or_create_consumer api stream consumer_name consumer_config =
     ok_or (api_get_or_create_consumer api stream consumer_name consumer_config)
       (ConsumerFailed consumer_name)"

definition consumer_messages ::
  "('client, 'opts, 'stream, 'consumer, 'e) nats_api \<Rightarrow> 'consumer
     \<Rightarrow> (nats_error, 'e js_items) result" where
  "consumer_messages api consumer = ok_or (api_messages api consumer) MessageStreamFailed"

definition NatsSource_from_config ::
  "('client, 'opts, 'stream, 'consumer, 'e) nats_api \<Rightarrow> Config
     \<Rightarrow> (nats_error, 'e js_items) result" where
  "NatsSource_from_config api config =
     (let urls = nats_urls (nats_url config) in
      and_then (connect_to_nats api config urls) (\<lambda>client.
      and_then (open_jetstream_stream api client (nats_stream config)) (\<lambda>stream.
      and_then (get_or_create_consumer api stream (nats_consumer config)
                  (build_consumer_config config)) (\<lambda>consumer.
      consumer_messages api consumer))))"

text \<open>
  One item of the stream: what is passed on, and the log of the messages acknowledged here. The
  outcome of such an acknowledgement is only logged by the code.
\<close>

definition nats_filter_map ::
  "(string \<Rightarrow> json option) \<Rightarrow> (string \<Rightarrow> OffsetDateTime option) \<Rightarrow> ('e, JsMessage) result
     \<Rightarrow> JsMessage list \<Rightarrow> ('e, JsMessage IncomingMessage) result option \<times> JsMessage list" where
  "nats_filter_map parse_text rfc item acked =
     (case item of
        Inl e \<Rightarrow> (Some (Inl e), acked)
      | Inr msg \<Rightarrow>
          (case from_text parse_text rfc (js_payload msg) of
             Inr iec_msg \<Rightarrow>
               (case validate_message iec_msg of
                  Inr _ \<Rightarrow> (Some (Inr (with_ack iec_msg msg)), acked)
                | Inl _ \<Rightarrow> (None, acked @ [msg]))
           | Inl _ \<Rightarrow> (None, acked @ [msg])))"

fun NatsSource_into_messages ::
  "(string \<Rightarrow> json option) \<Rightarrow> (string \<Rightarrow> OffsetDateTime option) \<Rightarrow> 'e js_items \<Rightarrow> JsMessage list
     \<Rightarrow> ('e, JsMessage IncomingMessage) result list \<times> JsMessage list" where
  "NatsSource_into_messages parse_text rfc [] acked = ([], acked)"
| "NatsSource_into_messages parse_text rfc (item # items) acked =
     (case nats_filter_map parse_text rfc item acked of
        (out, acked1) \<Rightarrow>
          (case NatsSource_into_messages parse_text rfc items acked1 of
             (outs, acked2) \<Rightarrow> ((case out of None \<Rightarrow> outs | Some r \<Rightarrow> r # outs), acked2)))"

section \<open>What the NATS source passes on\<close>

definition readable ::
  "(string \<Rightarrow> json option) \<Rightarrow> (string \<Rightarrow> OffsetDateTime option) \<Rightarrow> string \<Rightarrow> Iec104Message option" where
  "readable parse_text rfc s =
     (case from_text parse_text rfc s of
        Inr m \<Rightarrow> if valid_message m then Some m else None
      | Inl _ \<Rightarrow> None)"

text \<open>The specification: errors and readable valid messages in order; the others are acknowledged.\<close>

fun nats_output ::
  "(string \<Rightarrow> json option) \<Rightarrow> (string \<Rightarrow> OffsetDateTime option) \<Rightarrow> ('e, JsMessage) result
     \<Rightarrow> ('e, JsMessage IncomingMessage) result option" where
  "nats_output parse_text rfc (Inl e) = Some (Inl e)"
| "nats_output parse_text rfc (Inr msg) =
     map_option (\<lambda>m. Inr (with_ack m msg)) (readable parse_text rfc (js_payload msg))"

fun nats_rejected ::
  "(string \<Rightarrow> json option) \<Rightarrow> (string \<Rightarrow> OffsetDateTime option) \<Rightarrow> ('e, JsMessage) result
     \<Rightarrow> JsMessage option" where
  "nats_rejected parse_text rfc (Inl e) = None"
| "nats_rejected parse_text rfc (Inr msg) =
     (if readable parse_text rfc (js_payload msg) = None then Some msg else None)"

lemma map_filter_Cons:
  "List.map_filter f (x # xs) = (case f x of None \<Rightarrow> List.map_filter f xs | Some y \<Rightarrow> y # List.map_filter f xs)"
  by (simp split: option.split)

lemma nats_filter_map_spec:
  "nats_filter_map parse_text rfc item acked =
     (nats_output parse_text rfc item,
      acked @ (case nats_rejected parse_text rfc item of None \<Rightarrow> [] | Some m \<Rightarrow> [m]))"
proof (cases item)
  case (Inr msg)
  have "valid_message m \<longleftrightarrow> is_ok (validate_message m)" for m
    by (auto simp: is_ok_iff simp flip: validate_message_iff)
  then show ?thesis
    by (auto simp: nats_filter_map_def readable_def Inr split: sum.split)
qed (simp add: nats_filter_map_def)

lemma nats_into_messages_spec:
  "NatsSource_into_messages parse_text rfc items acked =
     (List.map_filter (nats_output parse_text rfc) items,
      acked @ List.map_filter (nats_rejected parse_text rfc) items)"
  by (induction items arbitrary: acked)
    (simp_all add: nats_filter_map_spec map_filter_Cons split: option.split)

section \<open>Properties\<close>

text \<open>C23: The NATS source passes on every receive error and every readable valid message, in order and
  each with its own acknowledgement still open, and acknowledges at once exactly the messages
  that cannot be read or are not valid, so that they are not delivered again.\<close>

theorem nats_source_acknowledges:
  "NatsSource_into_messages parse_text rfc items [] =
     (List.map_filter (nats_output parse_text rfc) items,
      List.map_filter (nats_rejected parse_text rfc) items)"
  by (simp add: nats_into_messages_spec)

text \<open>A configured credentials file is always used: the result of connecting does not depend on
  what an unauthenticated connection would give, and a credentials file that cannot be loaded
  is an error.\<close>

theorem nats_credentials_always_used:
  assumes "nats_credentials_path config = Some creds"
  shows "NatsSource_from_config (api\<lparr>api_connect := anonymous\<rparr>) config = NatsSource_from_config api config \<and>
    (api_credentials_file api creds = None \<longrightarrow>
       NatsSource_from_config api config = Inl (CredentialsFailed creds))"
  using assms
  by (simp add: NatsSource_from_config_def connect_to_nats_def connect_to_nats_with_credentials_def
      open_jetstream_stream_def get_or_create_consumer_def consumer_messages_def Let_def)

definition nats_example :: Config where
  "nats_example =
    \<lparr>input_transport = Nats, nats_url = ''nats://a:4222, nats://b:4222'', nats_stream = ''s'',
     nats_consumer = ''c'', nats_subject_filter = None, nats_credentials_path = Some ''x.creds'',
     unix_socket_path = [], unix_socket_allowed_uid = None, unix_socket_allowed_gid = None,
     unix_socket_max_line_bytes = 1, iec104_bind_addr = ''::1'', iec104_port = 2404,
     iec104_default_ca = 1, iec104_gi_only = False, iec104_timestamps = True,
     iec104_max_age = None, iec104_queue_size = 1, metrics_port = 1, tls_enabled = False,
     tls_cert_path = None, tls_key_path = None, tls_ca_cert_path = None, tls_port = 1\<rparr>"

definition nats_example_api :: "(nat, nat, nat, nat, nat) nats_api" where
  "nats_example_api = \<lparr>api_connect = (\<lambda>urls. Some (length urls)),
     api_credentials_file = (\<lambda>path. None), api_connect_with = (\<lambda>opts urls. Some opts),
     api_get_stream = (\<lambda>client name. Some client),
     api_get_or_create_consumer = (\<lambda>stream name config. Some stream),
     api_messages = (\<lambda>consumer. Some [])\<rparr>"

theorem nats_credentials_always_used_witness:
  "NatsSource_from_config nats_example_api nats_example = Inl (CredentialsFailed ''x.creds'')"
proof -
  have "nats_credentials_path nats_example = Some ''x.creds''" by (simp add: nats_example_def)
  from nats_credentials_always_used [OF this, where api = nats_example_api] show ?thesis
    by (simp add: nats_example_api_def)
qed

end
