(* ===== verification/SocketPath.thy ===== *)
theory SocketPath
  imports Prelude
begin

text \<open>
  Claiming the path of the Unix socket, \<open>src/src/source.rs\<close> (\<open>prepare_socket_path\<close> and what it
  calls, \<open>set_socket_permissions\<close>, and \<open>UnixSocketSource::bind\<close> up to the listener). The operating
  system is a parameter: a record of the five calls the code makes. What the code relies on is
  the locale \<open>unix_fs\<close>; a small file system that meets it is given at the end.
\<close>

section \<open>Paths and the operating system\<close>

text \<open>A path is absolute or not and has components; \<open>/\<close> and the empty path have none.\<close>

record Path =
  absolute :: bool
  components :: "string list"

definition parent :: "Path \<Rightarrow> Path option" where
  "parent p = (if components p = [] then None else Some (p\<lparr>components := butlast (components p)\<rparr>))"

datatype io_error = NotFound | AlreadyExists | OtherIo nat

datatype FileType = Directory | RegularFile | SocketFile | SymbolicLink | OtherFile

record 'f os =
  create_dir :: "Path \<Rightarrow> 'f \<Rightarrow> (io_error, unit) result \<times> 'f"
  symlink_metadata :: "Path \<Rightarrow> 'f \<Rightarrow> (io_error, FileType) result"
  remove_file :: "Path \<Rightarrow> 'f \<Rightarrow> (io_error, unit) result \<times> 'f"
  set_permissions :: "Path \<Rightarrow> nat \<Rightarrow> 'f \<Rightarrow> (io_error, unit) result \<times> 'f"
  bind_listener :: "Path \<Rightarrow> 'f \<Rightarrow> (io_error, unit) result \<times> 'f"

datatype socket_error =
    NoParent Path
  | CreateDirectoryFailed Path
  | InspectDirectoryFailed Path
  | ParentNotDirectory Path
  | InspectPathFailed Path
  | SymlinkRefused Path
  | RemoveFailed Path
  | NotRemovable Path
  | BindFailed Path
  | PermissionsFailed Path

section \<open>The operations\<close>

definition socket_parent :: "Path \<Rightarrow> (socket_error, Path) result" where
  "socket_parent path = ok_or (parent path) (NoParent path)"

text \<open>
  The result of the recursive call is used for its error only. The recursion is on the
  components: the path it starts from has one more than its parent.
\<close>

function create_directory_if_missing ::
  "'f os \<Rightarrow> Path \<Rightarrow> 'f \<Rightarrow> (socket_error, bool) result \<times> 'f" where
  "create_directory_if_missing os path f =
     (case create_dir os path f of
        (Inr _, f1) \<Rightarrow> (Inr True, f1)
      | (Inl NotFound, f1) \<Rightarrow>
          (case parent path of
             None \<Rightarrow> (Inl (NoParent path), f1)
           | Some up \<Rightarrow>
               (case create_directory_if_missing os up f1 of
                  (Inl e, f2) \<Rightarrow> (Inl e, f2)
                | (Inr _, f2) \<Rightarrow>
                    (case create_dir os path f2 of
                       (Inr _, f3) \<Rightarrow> (Inr True, f3)
                     | (Inl AlreadyExists, f3) \<Rightarrow> (Inr False, f3)
                     | (Inl _, f3) \<Rightarrow> (Inl (CreateDirectoryFailed path), f3))))
      | (Inl AlreadyExists, f1) \<Rightarrow> (Inr False, f1)
      | (Inl _, f1) \<Rightarrow> (Inl (CreateDirectoryFailed path), f1))"
  by pat_completeness auto

lemma parent_shorter: "parent path = Some up \<Longrightarrow> length (components up) < length (components path)"
  by (auto simp: parent_def split: if_splits)

termination create_directory_if_missing
  by (relation "measure (\<lambda>(os, path, f). length (components path))") (auto dest: parent_shorter)

declare create_directory_if_missing.simps [simp del]

definition ensure_socket_parent_dir ::
  "'f os \<Rightarrow> Path \<Rightarrow> 'f \<Rightarrow> (socket_error, bool) result \<times> 'f" where
  "ensure_socket_parent_dir os up f =
     (case create_directory_if_missing os up f of
        (Inl e, f1) \<Rightarrow> (Inl e, f1)
      | (Inr created_parent_dir, f1) \<Rightarrow>
          (case symlink_metadata os up f1 of
             Inl _ \<Rightarrow> (Inl (InspectDirectoryFailed up), f1)
           | Inr kind \<Rightarrow>
               if kind \<noteq> Directory then (Inl (ParentNotDirectory up), f1)
               else (Inr created_parent_dir, f1)))"

definition remove_existing_socket_entry ::
  "'f os \<Rightarrow> Path \<Rightarrow> FileType \<Rightarrow> 'f \<Rightarrow> (socket_error, unit) result \<times> 'f" where
  "remove_existing_socket_entry os path existing f =
     (if existing = SymbolicLink then (Inl (SymlinkRefused path), f)
      else if existing = SocketFile \<or> existing = RegularFile then
        (case remove_file os path f of
           (Inl _, f1) \<Rightarrow> (Inl (RemoveFailed path), f1)
         | (Inr _, f1) \<Rightarrow> (Inr (), f1))
      else (Inl (NotRemovable path), f))"

definition remove_existing_socket_path ::
  "'f os \<Rightarrow> Path \<Rightarrow> 'f \<Rightarrow> (socket_error, unit) result \<times> 'f" where
  "remove_existing_socket_path os path f =
     (case symlink_metadata os path f of
        Inr existing \<Rightarrow> remove_existing_socket_entry os path existing f
      | Inl NotFound \<Rightarrow> (Inr (), f)
      | Inl _ \<Rightarrow> (Inl (InspectPathFailed path), f))"

definition prepare_socket_path ::
  "'f os \<Rightarrow> Path \<Rightarrow> 'f \<Rightarrow> (socket_error, bool) result \<times> 'f" where
  "prepare_socket_path os path f =
     (case socket_parent path of
        Inl e \<Rightarrow> (Inl e, f)
      | Inr up \<Rightarrow>
          (case ensure_socket_parent_dir os up f of
             (Inl e, f1) \<Rightarrow> (Inl e, f1)
           | (Inr created_parent_dir, f1) \<Rightarrow>
               (case remove_existing_socket_path os path f1 of
                  (Inl e, f2) \<Rightarrow> (Inl e, f2)
                | (Inr _, f2) \<Rightarrow> (Inr created_parent_dir, f2))))"

text \<open>The modes \<open>0o750\<close> and \<open>0o660\<close>. A missing parent here would panic; no caller has one.\<close>

definition dir_mode :: nat where "dir_mode = 488"
definition socket_mode :: nat where "socket_mode = 432"

definition set_socket_permissions ::
  "'f os \<Rightarrow> Path \<Rightarrow> bool \<Rightarrow> 'f \<Rightarrow> (socket_error, unit) result \<times> 'f" where
  "set_socket_permissions os path created_parent_dir f =
     (let up = the (parent path);
          socket_step = (\<lambda>f1.
            case set_permissions os path socket_mode f1 of
              (Inl _, f2) \<Rightarrow> (Inl (PermissionsFailed path), f2)
            | (Inr _, f2) \<Rightarrow> (Inr (), f2))
      in if created_parent_dir then
           (case set_permissions os up dir_mode f of
              (Inl _, f1) \<Rightarrow> (Inl (PermissionsFailed up), f1)
            | (Inr _, f1) \<Rightarrow> socket_step f1)
         else socket_step f)"

definition UnixSocketSource_bind :: "'f os \<Rightarrow> Path \<Rightarrow> 'f \<Rightarrow> (socket_error, unit) result \<times> 'f" where
  "UnixSocketSource_bind os path f =
     (case prepare_socket_path os path f of
        (Inl e, f1) \<Rightarrow> (Inl e, f1)
      | (Inr created_parent_dir, f1) \<Rightarrow>
          (case bind_listener os path f1 of
             (Inl _, f2) \<Rightarrow> (Inl (BindFailed path), f2)
           | (Inr _, f2) \<Rightarrow> set_socket_permissions os path created_parent_dir f2))"

section \<open>What the code relies on\<close>

text \<open>
  \<open>kind\<close> is what an \<open>lstat\<close> of a path finds, \<open>mode\<close> its permissions and \<open>ino\<close> its inode, so that two
  paths may name one file. Creating a directory or a socket changes no entry that exists; removing
  a plain file or socket changes no entry of another kind or of another inode; permissions change
  neither kind nor inode. Failed calls change nothing.
\<close>

definition plain :: "FileType option \<Rightarrow> bool" where
  "plain k \<longleftrightarrow> k = Some RegularFile \<or> k = Some SocketFile"

definition same_entry ::
  "('f \<Rightarrow> Path \<Rightarrow> FileType option) \<Rightarrow> ('f \<Rightarrow> Path \<Rightarrow> nat option) \<Rightarrow> ('f \<Rightarrow> Path \<Rightarrow> 'i) \<Rightarrow> 'f \<Rightarrow> 'f \<Rightarrow> Path
     \<Rightarrow> bool" where
  "same_entry kind mode ino f f' q \<longleftrightarrow> kind f' q = kind f q \<and> mode f' q = mode f q \<and> ino f' q = ino f q"

definition keeps_existing ::
  "('f \<Rightarrow> Path \<Rightarrow> FileType option) \<Rightarrow> ('f \<Rightarrow> Path \<Rightarrow> nat option) \<Rightarrow> ('f \<Rightarrow> Path \<Rightarrow> 'i) \<Rightarrow> 'f \<Rightarrow> 'f
     \<Rightarrow> bool" where
  "keeps_existing kind mode ino f f' \<longleftrightarrow> (\<forall>q. kind f q \<noteq> None \<longrightarrow> same_entry kind mode ino f f' q)"

text \<open>The entries that are no names of the file or socket \<open>i\<close>.\<close>

definition other_entry ::
  "('f \<Rightarrow> Path \<Rightarrow> FileType option) \<Rightarrow> ('f \<Rightarrow> Path \<Rightarrow> 'i) \<Rightarrow> 'i \<Rightarrow> 'f \<Rightarrow> Path \<Rightarrow> bool" where
  "other_entry kind ino i f q \<longleftrightarrow> kind f q \<noteq> None \<and> (plain (kind f q) \<longrightarrow> ino f q \<noteq> i)"

definition keeps_others ::
  "('f \<Rightarrow> Path \<Rightarrow> FileType option) \<Rightarrow> ('f \<Rightarrow> Path \<Rightarrow> nat option) \<Rightarrow> ('f \<Rightarrow> Path \<Rightarrow> 'i) \<Rightarrow> 'i \<Rightarrow> 'f \<Rightarrow> 'f
     \<Rightarrow> bool" where
  "keeps_others kind mode ino i f f' \<longleftrightarrow>
     (\<forall>q. other_entry kind ino i f q \<longrightarrow> same_entry kind mode ino f f' q)"

locale unix_fs =
  fixes os :: "'f os"
    and kind :: "'f \<Rightarrow> Path \<Rightarrow> FileType option"
    and mode :: "'f \<Rightarrow> Path \<Rightarrow> nat option"
    and ino :: "'f \<Rightarrow> Path \<Rightarrow> 'i"
  assumes create_dir_ok: "create_dir os p f = (Inr u, f') \<Longrightarrow>
      kind f p = None \<and> kind f' p = Some Directory \<and> keeps_existing kind mode ino f f'"
    and create_dir_err: "create_dir os p f = (Inl e, f') \<Longrightarrow> f' = f"
    and metadata_ok: "symlink_metadata os p f = Inr k \<Longrightarrow> kind f p = Some k"
    and metadata_missing: "symlink_metadata os p f = Inl NotFound \<Longrightarrow> kind f p = None"
    and remove_file_ok: "remove_file os p f = (Inr u, f') \<Longrightarrow> plain (kind f p) \<Longrightarrow>
      kind f' p = None \<and> keeps_others kind mode ino (ino f p) f f'"
    and remove_file_err: "remove_file os p f = (Inl e, f') \<Longrightarrow> f' = f"
    and set_permissions_ok:
      "set_permissions os p m f = (Inr u, f') \<Longrightarrow> kind f p \<noteq> Some SymbolicLink \<Longrightarrow>
        kind f' = kind f \<and> ino f' = ino f \<and> mode f' p = Some m \<and> (\<forall>q. kind f q \<noteq> kind f p \<longrightarrow> mode f' q = mode f q)"
    and set_permissions_err: "set_permissions os p m f = (Inl e, f') \<Longrightarrow> f' = f"
    and bind_ok: "bind_listener os p f = (Inr u, f') \<Longrightarrow>
      kind f' p = Some SocketFile \<and> keeps_existing kind mode ino f f'"
    and bind_err: "bind_listener os p f = (Inl e, f') \<Longrightarrow> f' = f"
begin

lemma keeps_existing_refl: "keeps_existing kind mode ino f f"
  by (simp add: keeps_existing_def same_entry_def)

lemma keeps_existing_trans:
  "keeps_existing kind mode ino f g \<Longrightarrow> keeps_existing kind mode ino g h \<Longrightarrow> keeps_existing kind mode ino f h"
  by (simp add: keeps_existing_def same_entry_def)

lemma keeps_existing_others: "keeps_existing kind mode ino f g \<Longrightarrow> keeps_others kind mode ino i f g"
  by (simp add: keeps_existing_def keeps_others_def other_entry_def)

lemma keeps_others_trans:
  "keeps_others kind mode ino i f g \<Longrightarrow> keeps_others kind mode ino i g h \<Longrightarrow> keeps_others kind mode ino i f h"
  by (simp add: keeps_others_def same_entry_def other_entry_def)

lemma keeps_others_directory:
  "keeps_others kind mode ino i f g \<Longrightarrow> kind f q = Some Directory \<Longrightarrow>
     kind g q = Some Directory \<and> mode g q = mode f q"
  by (simp add: keeps_others_def same_entry_def other_entry_def plain_def)

lemma create_dir_keeps: "create_dir os p f = (r, f') \<Longrightarrow> keeps_existing kind mode ino f f'"
  using create_dir_ok create_dir_err keeps_existing_refl by (cases r) blast+

lemma create_directory_keeps:
  "create_directory_if_missing os path f = (r, f') \<Longrightarrow>
     keeps_existing kind mode ino f f' \<and> (r = Inr True \<longrightarrow> kind f path = None)"
proof (induction "length (components path)" arbitrary: path f r f' rule: less_induct)
  case less
  obtain r1 f1 where first: "create_dir os path f = (r1, f1)" by fastforce
  note keep1 = create_dir_keeps [OF first]
  show ?case
  proof (cases "r1 = Inl NotFound \<and> parent path \<noteq> None")
    case False
    with less.prems first keep1 create_dir_ok [of path f] show ?thesis
      by (auto simp: create_directory_if_missing.simps [of os path]
          split: option.splits sum.splits io_error.splits)
  next
    case True
    then obtain up where up: "parent path = Some up" by blast
    obtain r2 f2 where rec: "create_directory_if_missing os up f1 = (r2, f2)" by fastforce
    have keep2: "keeps_existing kind mode ino f f2"
      using less.hyps [OF parent_shorter [OF up] rec] keep1 keeps_existing_trans by blast
    obtain r3 f3 where second: "create_dir os path f2 = (r3, f3)" by fastforce
    note keep3 = keeps_existing_trans [OF keep2 create_dir_keeps [OF second]]
    have new: "r3 = Inr u \<Longrightarrow> kind f path = None" for u
      using create_dir_ok [of path f2] second keep2 by (auto simp: keeps_existing_def same_entry_def)
    from True up rec second first less.prems keep2 keep3 new show ?thesis
      by (auto simp: create_directory_if_missing.simps [of os path]
          split: sum.splits io_error.splits)
  qed
qed

lemma ensure_parent_facts:
  assumes "ensure_socket_parent_dir os up f = (r, f')"
  shows "keeps_existing kind mode ino f f' \<and>
    (\<forall>created. r = Inr created \<longrightarrow> kind f' up = Some Directory \<and> (created \<longrightarrow> kind f up = None))"
proof -
  obtain r1 f1 where mk: "create_directory_if_missing os up f = (r1, f1)" by fastforce
  from create_directory_keeps [OF mk] assms metadata_ok [of up f1] show ?thesis
    by (auto simp: ensure_socket_parent_dir_def mk split: sum.splits if_splits)
qed

lemma remove_existing_facts:
  assumes "remove_existing_socket_path os path f = (r, f')"
  shows "keeps_others kind mode ino (ino f path) f f' \<and>
    (r = Inr () \<longrightarrow> kind f path = None \<or> plain (kind f path))"
proof -
  have "keeps_others kind mode ino (ino f path) f f" by (simp add: keeps_others_def same_entry_def)
  with assms metadata_ok [of path f] metadata_missing [of path f] remove_file_err [of path f]
    remove_file_ok [of path f] show ?thesis
    by (auto simp: remove_existing_socket_path_def remove_existing_socket_entry_def plain_def
        split: sum.splits io_error.splits if_splits prod.splits)
qed

text \<open>At most one file goes, and it is the one the path named when it named one.\<close>

lemma prepare_facts:
  assumes "prepare_socket_path os path f = (r, f')"
  obtains i where "keeps_others kind mode ino i f f'" and "kind f path \<noteq> None \<Longrightarrow> i = ino f path"
    and "\<And>created. r = Inr created \<Longrightarrow> (kind f path = None \<or> plain (kind f path)) \<and>
      (\<exists>up. parent path = Some up \<and> kind f' up = Some Directory \<and> (created \<longrightarrow> kind f up = None))"
proof (cases "parent path")
  case None
  with assms that [of "ino f path"] show thesis
    by (auto simp: prepare_socket_path_def socket_parent_def keeps_others_def same_entry_def)
next
  case (Some up)
  obtain r1 f1 where dir: "ensure_socket_parent_dir os up f = (r1, f1)" by fastforce
  note dir_facts = ensure_parent_facts [OF dir]
  let ?i = "ino f1 path"
  have keep1: "keeps_others kind mode ino ?i f f1" using dir_facts by (simp add: keeps_existing_others)
  have i: "kind f path \<noteq> None \<Longrightarrow> ?i = ino f path"
    using dir_facts by (simp add: keeps_existing_def same_entry_def)
  show thesis
  proof (cases r1)
    case (Inl e)
    with assms Some dir keep1 i that show thesis by (auto simp: prepare_socket_path_def socket_parent_def)
  next
    case (Inr created)
    obtain r2 f2 where rm: "remove_existing_socket_path os path f1 = (r2, f2)" by fastforce
    note rm_facts = remove_existing_facts [OF rm]
    have f2: "f' = f2" and r: "r = (case r2 of Inl e \<Rightarrow> Inl e | Inr _ \<Rightarrow> Inr created)"
      using assms by (auto simp: prepare_socket_path_def socket_parent_def Some dir Inr rm
          split: sum.splits)
    have "kind f2 up = Some Directory"
      using keeps_others_directory rm_facts dir_facts Inr by blast
    moreover have "r2 = Inr () \<Longrightarrow> kind f path = None \<or> plain (kind f path)"
      using rm_facts dir_facts by (auto simp: keeps_existing_def same_entry_def)
    ultimately show thesis
      using that [of ?i] keeps_others_trans [OF keep1] rm_facts dir_facts i Inr Some f2 r
      by (auto split: sum.splits)
  qed
qed

lemma set_socket_permissions_facts:
  assumes run: "set_socket_permissions os path created f = (r, f')"
    and up: "parent path = Some up" and dir: "kind f up = Some Directory"
    and sock: "kind f path = Some SocketFile"
  shows "kind f' = kind f \<and> ino f' = ino f \<and>
    (r = Inr () \<longrightarrow> mode f' path = Some socket_mode \<and>
       mode f' up = (if created then Some dir_mode else mode f up))"
proof -
  have step: "kind g' = kind g \<and> ino g' = ino g \<and> (r' = Inr () \<longrightarrow> mode g' p = Some m \<and>
      (\<forall>q. kind g q \<noteq> kind g p \<longrightarrow> mode g' q = mode g q))"
    if "set_permissions os p m g = (r', g')" and "kind g p \<noteq> Some SymbolicLink" for p m g g' r'
    using that set_permissions_ok [of p m g] set_permissions_err [of p m g] by (cases r') blast+
  obtain r2 f2 where first: "set_permissions os up dir_mode f = (r2, f2)" by fastforce
  note one = step [OF first]
  define g where "g = (if created then f2 else f)"
  obtain r3 f3 where second: "set_permissions os path socket_mode g = (r3, f3)" by fastforce
  have "kind g = kind f \<and> ino g = ino f" using one dir by (simp add: g_def)
  with step [OF second] sock dir have two: "kind f3 = kind f \<and> ino f3 = ino f \<and> (r3 = Inr () \<longrightarrow>
      mode f3 path = Some socket_mode \<and> mode f3 up = mode g up)" by simp
  show ?thesis
    using run two one dir first second
    by (auto simp: set_socket_permissions_def up g_def split: if_splits sum.splits)
qed

lemma bind_keeps: "bind_listener os p f = (r, f') \<Longrightarrow> keeps_existing kind mode ino f f'"
  using bind_ok bind_err keeps_existing_refl by (cases r) blast+

lemma socket_bind_facts:
  assumes run: "UnixSocketSource_bind os path f = (r, f')"
  shows "(\<exists>i. (kind f path \<noteq> None \<longrightarrow> i = ino f path) \<and>
      (\<forall>q. other_entry kind ino i f q \<longrightarrow> kind f' q = kind f q \<and> ino f' q = ino f q)) \<and>
    (r = Inr () \<longrightarrow> (kind f path = None \<or> plain (kind f path)) \<and>
       kind f' path = Some SocketFile \<and> mode f' path = Some socket_mode \<and>
       (\<exists>up created. parent path = Some up \<and> kind f' up = Some Directory \<and>
          fst (prepare_socket_path os path f) = Inr created \<and>
          (created \<longrightarrow> kind f up = None \<and> mode f' up = Some dir_mode) \<and>
          (kind f up = Some Directory \<longrightarrow> \<not> created \<and> mode f' up = mode f up)))"
proof -
  obtain r1 f1 where prep: "prepare_socket_path os path f = (r1, f1)" by fastforce
  from prepare_facts [OF prep] obtain i where keep1: "keeps_others kind mode ino i f f1"
    and i: "kind f path \<noteq> None \<Longrightarrow> i = ino f path"
    and ok1: "\<And>created. r1 = Inr created \<Longrightarrow> (kind f path = None \<or> plain (kind f path)) \<and>
      (\<exists>up. parent path = Some up \<and> kind f1 up = Some Directory \<and> (created \<longrightarrow> kind f up = None))"
    by metis
  show ?thesis
  proof (cases r1)
    case (Inl e)
    with run prep keep1 i show ?thesis
      by (auto simp: UnixSocketSource_bind_def keeps_others_def same_entry_def)
  next
    case (Inr created)
    with ok1 obtain up where up: "parent path = Some up" and dir: "kind f1 up = Some Directory"
      and new: "created \<longrightarrow> kind f up = None" by blast
    obtain r2 f2 where bind: "bind_listener os path f1 = (r2, f2)" by fastforce
    note keep2 = bind_keeps [OF bind]
    have keep: "keeps_others kind mode ino i f f2"
      using keeps_others_trans [OF keep1 keeps_existing_others [OF keep2]] .
    show ?thesis
    proof (cases r2)
      case (Inl e)
      with run prep keep bind Inr i show ?thesis
        by (auto simp: UnixSocketSource_bind_def keeps_others_def same_entry_def)
    next
      case sock: (Inr u)
      have set: "set_socket_permissions os path created f2 = (r, f')"
        using run by (simp add: UnixSocketSource_bind_def prep Inr bind sock)
      from keep2 dir have dir2: "kind f2 up = Some Directory" "mode f2 up = mode f1 up"
        by (simp_all add: keeps_existing_def same_entry_def)
      have sock2: "kind f2 path = Some SocketFile" using bind_ok [of path f1] bind sock by blast
      note facts3 = set_socket_permissions_facts [OF set up dir2(1) sock2]
      have old: "kind f up = Some Directory \<Longrightarrow> \<not> created \<and> mode f1 up = mode f up"
        using new keeps_others_directory [OF keep1] by auto
      have "\<exists>i. (kind f path \<noteq> None \<longrightarrow> i = ino f path) \<and>
          (\<forall>q. other_entry kind ino i f q \<longrightarrow> kind f' q = kind f q \<and> ino f' q = ino f q)"
        using i keep facts3 by (auto simp: keeps_others_def same_entry_def)
      moreover have "r = Inr () \<Longrightarrow> kind f' path = Some SocketFile \<and> mode f' path = Some socket_mode \<and>
          kind f' up = Some Directory \<and> (created \<longrightarrow> mode f' up = Some dir_mode) \<and>
          (kind f up = Some Directory \<longrightarrow> \<not> created \<and> mode f' up = mode f up)"
        using facts3 sock2 dir2 old by auto
      ultimately show ?thesis using ok1 [OF Inr] Inr prep up new by auto
    qed
  qed
qed

end

section \<open>A file system that meets the contract\<close>

text \<open>
  Paths with their kinds and modes, no symbolic link being followed on the way to a path. The
  working directory of relative paths exists and has no entry of its own.
\<close>

type_synonym tree = "Path \<rightharpoonup> FileType \<times> nat"

definition cwd :: Path where
  "cwd = \<lparr>absolute = False, components = []\<rparr>"

definition in_directory :: "Path \<Rightarrow> tree \<Rightarrow> bool" where
  "in_directory p f \<longleftrightarrow>
     (case parent p of
        None \<Rightarrow> False
      | Some up \<Rightarrow> up = cwd \<or> (\<exists>m. f up = Some (Directory, m)))"

definition tree_add :: "FileType \<Rightarrow> nat \<Rightarrow> Path \<Rightarrow> tree \<Rightarrow> (io_error, unit) result \<times> tree" where
  "tree_add k m p f =
     (if f p \<noteq> None then (Inl AlreadyExists, f)
      else if in_directory p f then (Inr (), f(p \<mapsto> (k, m)))
      else (Inl NotFound, f))"

definition tree_os :: "tree os" where
  "tree_os = \<lparr>
     create_dir = tree_add Directory 493,
     symlink_metadata = (\<lambda>p f. ok_or (map_option fst (f p)) NotFound),
     remove_file = (\<lambda>p f. if plain (map_option fst (f p)) then (Inr (), f(p := None))
                           else (Inl (OtherIo 1), f)),
     set_permissions = (\<lambda>p m f. case f p of None \<Rightarrow> (Inl NotFound, f)
                                  | Some (k, _) \<Rightarrow> (Inr (), f(p \<mapsto> (k, m)))),
     bind_listener = tree_add SocketFile 493\<rparr>"

definition tree_kind :: "tree \<Rightarrow> Path \<Rightarrow> FileType option" where
  "tree_kind f p = map_option fst (f p)"

definition tree_mode :: "tree \<Rightarrow> Path \<Rightarrow> nat option" where
  "tree_mode f p = map_option snd (f p)"

text \<open>Every path is a file of its own here: there are no links to follow.\<close>

lemma tree_unix_fs: "unix_fs tree_os tree_kind tree_mode (\<lambda>_ q. q)"
proof
qed (auto simp: tree_os_def tree_kind_def tree_mode_def tree_add_def keeps_existing_def
    keeps_others_def same_entry_def other_entry_def ok_or_def plain_def intro!: ext simp del: not_None_eq
    split: if_splits option.splits)

interpretation tree: unix_fs tree_os tree_kind tree_mode "\<lambda>_ q. q"
  by (rule tree_unix_fs)

section \<open>Properties\<close>


definition run_dir :: Path where
  "run_dir = \<lparr>absolute = True, components = [''run'']\<rparr>"

definition run_socket :: Path where
  "run_socket = \<lparr>absolute = True, components = [''run'', ''in.sock'']\<rparr>"

definition run_tree :: "FileType \<Rightarrow> tree" where
  "run_tree k = [run_dir \<mapsto> (Directory, 493), run_socket \<mapsto> (k, 511)]"


text \<open>A bare file name as socket path is always refused: its parent is the empty path, which the
  operating system does not let anyone create, and which has no parent of its own.\<close>

theorem bare_socket_name_refused:
  assumes "path = \<lparr>absolute = False, components = [name]\<rparr>"
    and "create_dir os cwd f = (Inl NotFound, f)"
  shows "UnixSocketSource_bind os path f = (Inl (NoParent cwd), f)"
  using assms
  by (simp add: UnixSocketSource_bind_def prepare_socket_path_def socket_parent_def parent_def
      ensure_socket_parent_dir_def create_directory_if_missing.simps cwd_def)

theorem bare_socket_name_refused_witness:
  "UnixSocketSource_bind tree_os \<lparr>absolute = False, components = [''input.sock'']\<rparr> Map.empty
     = (Inl (NoParent cwd), Map.empty)"
  by (rule bare_socket_name_refused [OF refl])
    (simp add: tree_os_def tree_add_def in_directory_def parent_def cwd_def)

end
