(* ===== verification/UnixClient.thy ===== *)
theory UnixClient
  imports Source SocketPath
begin

text \<open>
  The Unix socket source, \<open>src/src/source.rs\<close>: authorization of a peer, reading lines, the reply to
  each line, and forwarding of valid messages. What a client has sent is a byte sequence with an
  end of file or a failure behind it; whether a reply can be written and whether the receiving
  end of the channel is still there are parameters.
\<close>

section \<open>Authorization\<close>

record PeerCred =
  uid :: u32
  gid :: u32
  pid :: u32

datatype AuthorizationFailure = UidFailure u32 | GidFailure u32

definition authorization_failure_for_uid ::
  "PeerCred \<Rightarrow> u32 option \<Rightarrow> AuthorizationFailure option" where
  "authorization_failure_for_uid peer allowed_uid =
     (case allowed_uid of
        Some expected_uid \<Rightarrow> if uid peer \<noteq> expected_uid then Some (UidFailure expected_uid) else None
      | None \<Rightarrow> None)"

definition authorization_failure_for_gid ::
  "PeerCred \<Rightarrow> u32 option \<Rightarrow> AuthorizationFailure option" where
  "authorization_failure_for_gid peer allowed_gid =
     (case allowed_gid of
        Some expected_gid \<Rightarrow> if gid peer \<noteq> expected_gid then Some (GidFailure expected_gid) else None
      | None \<Rightarrow> None)"

definition check_peer_authorization ::
  "PeerCred \<Rightarrow> u32 option \<Rightarrow> u32 option \<Rightarrow> AuthorizationFailure option" where
  "check_peer_authorization peer allowed_uid allowed_gid =
     (case authorization_failure_for_uid peer allowed_uid of
        Some failure \<Rightarrow> Some failure
      | None \<Rightarrow> authorization_failure_for_gid peer allowed_gid)"

section \<open>Writing replies\<close>

datatype client_error = LookupFailed | WriteFailed | ReadFailed | Unauthorized

text \<open>The replies completely written so far; \<open>broken\<close> says which write fails after which replies.\<close>

type_synonym replies = "string list"
type_synonym write_env = "replies \<Rightarrow> string \<Rightarrow> bool"

definition newline :: string where "newline = [CHR 0x0A]"

definition reply_ok :: string where "reply_ok = ''ok'' @ newline"
definition reply_parse :: string where "reply_parse = ''error parse'' @ newline"
definition reply_validation :: string where "reply_validation = ''error validation'' @ newline"
definition reply_denied :: string where "reply_denied = ''error unauthorized'' @ newline"

definition write_socket_reply ::
  "write_env \<Rightarrow> string \<Rightarrow> replies \<Rightarrow> (client_error, unit) result \<times> replies" where
  "write_socket_reply broken reply out =
     (if broken out reply then (Inl WriteFailed, out) else (Inr (), out @ [reply]))"

definition reply_unauthorized :: "write_env \<Rightarrow> replies \<Rightarrow> (client_error, unit) result \<times> replies" where
  "reply_unauthorized broken out = write_socket_reply broken reply_denied out"

definition authorize_unix_client ::
  "write_env \<Rightarrow> PeerCred \<Rightarrow> u32 option \<Rightarrow> u32 option \<Rightarrow> replies
     \<Rightarrow> (client_error, unit) result \<times> replies" where
  "authorize_unix_client broken peer allowed_uid allowed_gid out =
     (case check_peer_authorization peer allowed_uid allowed_gid of
        Some failure \<Rightarrow> then_do (reply_unauthorized broken out) (\<lambda>_ out. (Inl Unauthorized, out))
      | None \<Rightarrow> (Inr (), out))"

section \<open>Reading lines\<close>

text \<open>UTF-8, as \<open>read_line\<close> checks it: no overlong forms, no surrogates, nothing above U+10FFFF.\<close>

definition cont :: "nat \<Rightarrow> bool" where
  "cont b \<longleftrightarrow> 0x80 \<le> b \<and> b \<le> 0xBF"

fun utf8_bytes :: "nat list \<Rightarrow> bool" where
  "utf8_bytes [] = True"
| "utf8_bytes (a # bs) =
     (if a < 0x80 then utf8_bytes bs
      else if 0xC2 \<le> a \<and> a \<le> 0xDF then
        (case bs of b # rest \<Rightarrow> cont b \<and> utf8_bytes rest | _ \<Rightarrow> False)
      else if 0xE0 \<le> a \<and> a \<le> 0xEF then
        (case bs of
           b # c # rest \<Rightarrow>
             cont b \<and> cont c \<and> (a = 0xE0 \<longrightarrow> 0xA0 \<le> b) \<and> (a = 0xED \<longrightarrow> b \<le> 0x9F) \<and> utf8_bytes rest
         | _ \<Rightarrow> False)
      else if 0xF0 \<le> a \<and> a \<le> 0xF4 then
        (case bs of
           b # c # d # rest \<Rightarrow>
             cont b \<and> cont c \<and> cont d \<and> (a = 0xF0 \<longrightarrow> 0x90 \<le> b) \<and> (a = 0xF4 \<longrightarrow> b \<le> 0x8F) \<and>
             utf8_bytes rest
         | _ \<Rightarrow> False)
      else False)"

definition utf8 :: "string \<Rightarrow> bool" where
  "utf8 s = utf8_bytes (map of_char s)"

record Reader =
  unread :: string
  read_fails :: bool

text \<open>
  \<open>read_line\<close>: up to and including the first line feed, or what is left before the end of file; no
  byte left is the end of the input.
\<close>

definition read_unix_client_line ::
  "Reader \<Rightarrow> (client_error, (string \<times> nat) option) result \<times> Reader" where
  "read_unix_client_line reader =
     (let front = takeWhile (\<lambda>c. c \<noteq> CHR 0x0A) (unread reader);
          back = drop (length front) (unread reader);
          line = front @ take 1 back;
          reader1 = reader\<lparr>unread := drop 1 back\<rparr>
      in if back = [] \<and> read_fails reader then (Inl ReadFailed, reader1)
         else if line = [] then (Inr None, reader1)
         else if \<not> utf8 line then (Inl ReadFailed, reader1)
         else (Inr (Some (line, length line)), reader1))"

section \<open>One line\<close>

definition payload_exceeds_limit :: "nat \<Rightarrow> nat \<Rightarrow> bool" where
  "payload_exceeds_limit bytes max_line_bytes \<longleftrightarrow> bytes > max_line_bytes"

definition enforce_line_size_limit ::
  "write_env \<Rightarrow> nat \<Rightarrow> nat \<Rightarrow> replies \<Rightarrow> (client_error, bool) result \<times> replies" where
  "enforce_line_size_limit broken bytes max_line_bytes out =
     (if payload_exceeds_limit bytes max_line_bytes
      then then_do (write_socket_reply broken reply_validation out) (\<lambda>_ out. (Inr False, out))
      else (Inr True, out))"

definition trim_end_newlines :: "string \<Rightarrow> string" where
  "trim_end_newlines s = rev (dropWhile (\<lambda>c. c = CHR 0x0D \<or> c = CHR 0x0A) (rev s))"

definition trim_unix_socket_line ::
  "write_env \<Rightarrow> string \<Rightarrow> replies \<Rightarrow> (client_error, string option) result \<times> replies" where
  "trim_unix_socket_line broken line out =
     (let trimmed = trim_end_newlines line
      in if trimmed = []
         then then_do (write_socket_reply broken reply_parse out) (\<lambda>_ out. (Inr None, out))
         else (Inr (Some trimmed), out))"

definition parse_unix_socket_message ::
  "write_env \<Rightarrow> (string \<Rightarrow> json option) \<Rightarrow> (string \<Rightarrow> OffsetDateTime option) \<Rightarrow> string \<Rightarrow> replies
     \<Rightarrow> (client_error, Iec104Message option) result \<times> replies" where
  "parse_unix_socket_message broken parse_text rfc trimmed out =
     (case from_text parse_text rfc trimmed of
        Inr message \<Rightarrow> (Inr (Some message), out)
      | Inl _ \<Rightarrow> then_do (write_socket_reply broken reply_parse out) (\<lambda>_ out. (Inr None, out)))"

definition validate_unix_socket_message ::
  "write_env \<Rightarrow> Iec104Message \<Rightarrow> replies \<Rightarrow> (client_error, bool) result \<times> replies" where
  "validate_unix_socket_message broken message out =
     (case validate_message message of
        Inl _ \<Rightarrow> then_do (write_socket_reply broken reply_validation out) (\<lambda>_ out. (Inr False, out))
      | Inr _ \<Rightarrow> (Inr True, out))"

definition ensure_valid_unix_socket_message ::
  "write_env \<Rightarrow> Iec104Message \<Rightarrow> replies \<Rightarrow> (client_error, bool) result \<times> replies" where
  "ensure_valid_unix_socket_message broken message out =
     then_do (validate_unix_socket_message broken message out) (\<lambda>valid out.
       if valid then (Inr True, out) else (Inr False, out))"

text \<open>The acknowledgement of a socket message is the reply \<open>ok\<close> on the client's own connection.\<close>

definition message_with_ack :: "Iec104Message \<Rightarrow> string IncomingMessage" where
  "message_with_ack message = with_ack message reply_ok"

definition process_unix_socket_line ::
  "write_env \<Rightarrow> (string \<Rightarrow> json option) \<Rightarrow> (string \<Rightarrow> OffsetDateTime option) \<Rightarrow> string \<Rightarrow> nat \<Rightarrow> nat
     \<Rightarrow> replies \<Rightarrow> (client_error, string IncomingMessage option) result \<times> replies" where
  "process_unix_socket_line broken parse_text rfc line bytes max_line_bytes out =
     then_do (enforce_line_size_limit broken bytes max_line_bytes out) (\<lambda>fits out.
     if \<not> fits then (Inr None, out)
     else
     then_do (trim_unix_socket_line broken line out) (\<lambda>trimmed out.
     case trimmed of
       None \<Rightarrow> (Inr None, out)
     | Some trimmed \<Rightarrow>
     then_do (parse_unix_socket_message broken parse_text rfc trimmed out) (\<lambda>message out.
     case message of
       None \<Rightarrow> (Inr None, out)
     | Some message \<Rightarrow>
     then_do (ensure_valid_unix_socket_message broken message out) (\<lambda>valid out.
     if \<not> valid then (Inr None, out)
     else (Inr (Some (message_with_ack message)), out)))))"

section \<open>A client connection\<close>

text \<open>
  What a client task works on: the bytes still to read, the replies written, and the messages
  sent into the channel so far. The fixed surroundings are a record: the parsers, the line
  limit, which writes fail, and after which messages the receiving end is gone.
\<close>

record ClientEnv =
  env_parse_text :: "string \<Rightarrow> json option"
  env_rfc :: "string \<Rightarrow> OffsetDateTime option"
  env_max_line_bytes :: nat
  env_broken :: write_env
  env_rx_open :: "string IncomingMessage list \<Rightarrow> bool"

record ClientState =
  cl_reader :: Reader
  cl_replies :: replies
  cl_sent :: "string IncomingMessage list"

definition forward_unix_message ::
  "ClientEnv \<Rightarrow> string IncomingMessage \<Rightarrow> string IncomingMessage list
     \<Rightarrow> bool \<times> string IncomingMessage list" where
  "forward_unix_message env incoming sent =
     (if env_rx_open env sent then (True, sent @ [incoming]) else (False, sent))"

text \<open>The body of the loop; the result says whether the loop goes on.\<close>

definition forward_one_line :: "ClientEnv \<Rightarrow> ClientState \<Rightarrow> (client_error, bool) result \<times> ClientState" where
  "forward_one_line env s =
     (case read_unix_client_line (cl_reader s) of
        (Inl e, reader) \<Rightarrow> (Inl e, s\<lparr>cl_reader := reader\<rparr>)
      | (Inr None, reader) \<Rightarrow> (Inr False, s\<lparr>cl_reader := reader\<rparr>)
      | (Inr (Some (line, bytes)), reader) \<Rightarrow>
          (case process_unix_socket_line (env_broken env) (env_parse_text env) (env_rfc env) line
                  bytes (env_max_line_bytes env) (cl_replies s) of
             (Inl e, out) \<Rightarrow> (Inl e, s\<lparr>cl_reader := reader, cl_replies := out\<rparr>)
           | (Inr None, out) \<Rightarrow> (Inr True, s\<lparr>cl_reader := reader, cl_replies := out\<rparr>)
           | (Inr (Some incoming), out) \<Rightarrow>
               (case forward_unix_message env incoming (cl_sent s) of
                  (should_continue, sent) \<Rightarrow>
                    (Inr should_continue,
                     s\<lparr>cl_reader := reader, cl_replies := out, cl_sent := sent\<rparr>))))"

lemma read_line_consumes:
  "read_unix_client_line reader = (Inr (Some x), reader') \<Longrightarrow>
     length (unread reader') < length (unread reader)"
  by (cases "unread reader")
    (auto simp: read_unix_client_line_def Let_def split: if_splits)

lemma forward_one_line_consumes:
  "forward_one_line env s = (Inr True, s') \<Longrightarrow>
     length (unread (cl_reader s')) < length (unread (cl_reader s))"
  by (auto simp: forward_one_line_def dest: read_line_consumes
      split: prod.splits sum.splits option.splits)

function forward_unix_client_lines ::
  "ClientEnv \<Rightarrow> ClientState \<Rightarrow> (client_error, unit) result \<times> ClientState" where
  "forward_unix_client_lines env s =
     (case forward_one_line env s of
        (Inl e, s1) \<Rightarrow> (Inl e, s1)
      | (Inr should_continue, s1) \<Rightarrow>
          if should_continue then forward_unix_client_lines env s1 else (Inr (), s1))"
  by pat_completeness auto

termination forward_unix_client_lines
  by (relation "measure (\<lambda>(env, s). length (unread (cl_reader s)))")
    (auto dest: forward_one_line_consumes [OF sym])

declare forward_unix_client_lines.simps [simp del]

text \<open>The kernel's credentials of the peer; a failing system call has no result.\<close>

record ucred =
  ucred_pid :: i32
  ucred_uid :: u32
  ucred_gid :: u32

definition default_peer_cred_lookup :: "ucred option \<Rightarrow> (client_error, PeerCred) result" where
  "default_peer_cred_lookup getsockopt =
     (case getsockopt of
        None \<Rightarrow> Inl LookupFailed
      | Some raw \<Rightarrow> Inr \<lparr>uid = ucred_uid raw, gid = ucred_gid raw, pid = ucred_pid raw\<rparr>)"

definition handle_unix_client ::
  "ClientEnv \<Rightarrow> (client_error, PeerCred) result \<Rightarrow> u32 option \<Rightarrow> u32 option \<Rightarrow> ClientState
     \<Rightarrow> (client_error, unit) result \<times> ClientState" where
  "handle_unix_client env peer_cred allowed_uid allowed_gid s =
     (case peer_cred of
        Inl e \<Rightarrow> (Inl e, s)
      | Inr peer \<Rightarrow>
          (case authorize_unix_client (env_broken env) peer allowed_uid allowed_gid (cl_replies s) of
             (Inl e, out) \<Rightarrow> (Inl e, s\<lparr>cl_replies := out\<rparr>)
           | (Inr _, out) \<Rightarrow> forward_unix_client_lines env (s\<lparr>cl_replies := out\<rparr>)))"

section \<open>Accepting clients\<close>

text \<open>
  The accept loop on what the listener yields: a client is handed to a task of its own, an error
  goes into the channel, and only a channel without a receiver ends the loop.
\<close>

datatype 'c accept_step = SpawnClient 'c | SendError io_error

fun run_unix_socket_accept_loop ::
  "('c accept_step list \<Rightarrow> bool) \<Rightarrow> (io_error, 'c) result list \<Rightarrow> 'c accept_step list
     \<Rightarrow> 'c accept_step list" where
  "run_unix_socket_accept_loop rx_open [] done = done"
| "run_unix_socket_accept_loop rx_open (Inr stream # events) done =
     run_unix_socket_accept_loop rx_open events (done @ [SpawnClient stream])"
| "run_unix_socket_accept_loop rx_open (Inl e # events) done =
     (if rx_open done then run_unix_socket_accept_loop rx_open events (done @ [SendError e])
      else done)"

section \<open>The source\<close>

text \<open>\<open>PathBuf::from\<close>: components between slashes; empty ones and \<open>.\<close> count only as a leading \<open>.\<close>.\<close>

definition path_from :: "string \<Rightarrow> Path" where
  "path_from s =
     (let abs_path = (s \<noteq> [] \<and> hd s = CHR ''/'');
          parts = filter (\<lambda>c. c \<noteq> []) (split_on (CHR ''/'') s)
      in \<lparr>absolute = abs_path,
          components =
            (if abs_path then filter (\<lambda>c. c \<noteq> ''.'') parts
             else take 1 parts @ filter (\<lambda>c. c \<noteq> ''.'') (drop 1 parts))\<rparr>)"

record UnixSocketSource =
  src_socket_path :: Path
  src_allowed_uid :: "u32 option"
  src_allowed_gid :: "u32 option"
  src_max_line_bytes :: nat

definition UnixSocketSource_from_config ::
  "'f os \<Rightarrow> Config \<Rightarrow> 'f \<Rightarrow> (socket_error, UnixSocketSource) result \<times> 'f" where
  "UnixSocketSource_from_config os config f =
     (let path = path_from (unix_socket_path config)
      in then_do (UnixSocketSource_bind os path f) (\<lambda>_ f.
           (Inr \<lparr>src_socket_path = path, src_allowed_uid = unix_socket_allowed_uid config,
                 src_allowed_gid = unix_socket_allowed_gid config,
                 src_max_line_bytes = unat (unix_socket_max_line_bytes config)\<rparr>, f)))"

record UnixSocketRuntime =
  rt_socket_path :: Path
  rt_allowed_uid :: "u32 option"
  rt_allowed_gid :: "u32 option"
  rt_max_line_bytes :: nat

definition UnixSocketRuntime_from_source :: "UnixSocketSource \<Rightarrow> UnixSocketRuntime" where
  "UnixSocketRuntime_from_source source =
     \<lparr>rt_socket_path = src_socket_path source, rt_allowed_uid = src_allowed_uid source,
      rt_allowed_gid = src_allowed_gid source, rt_max_line_bytes = src_max_line_bytes source\<rparr>"

text \<open>The task of one client; its error is only logged.\<close>

definition spawn_unix_client_task ::
  "ClientEnv \<Rightarrow> (client_error, PeerCred) result \<Rightarrow> UnixSocketRuntime \<Rightarrow> ClientState \<Rightarrow> ClientState" where
  "spawn_unix_client_task env peer_cred runtime s =
     snd (handle_unix_client (env\<lparr>env_max_line_bytes := rt_max_line_bytes runtime\<rparr>) peer_cred
       (rt_allowed_uid runtime) (rt_allowed_gid runtime) s)"

section \<open>The verdict on a line\<close>

text \<open>The specification of one line: rejected with a reply, or accepted as a message.\<close>

datatype Verdict = Reject string | Accept Iec104Message

definition verdict :: "ClientEnv \<Rightarrow> string \<Rightarrow> Verdict" where
  "verdict env line =
     (let trimmed = trim_end_newlines line
      in if env_max_line_bytes env < length line then Reject reply_validation
         else if trimmed = [] then Reject reply_parse
         else case from_text (env_parse_text env) (env_rfc env) trimmed of
           Inl _ \<Rightarrow> Reject reply_parse
         | Inr m \<Rightarrow> if valid_message m then Accept m else Reject reply_validation)"

lemma valid_message_is_ok: "valid_message m \<longleftrightarrow> is_ok (validate_message m)"
  by (auto simp: is_ok_iff simp flip: validate_message_iff)

lemma process_line_verdict:
  "process_unix_socket_line (env_broken env) (env_parse_text env) (env_rfc env) line (length line)
       (env_max_line_bytes env) out =
     (case verdict env line of
        Reject reply \<Rightarrow>
          if env_broken env out reply then (Inl WriteFailed, out) else (Inr None, out @ [reply])
      | Accept m \<Rightarrow> (Inr (Some (message_with_ack m)), out))"
  by (cases "from_text (env_parse_text env) (env_rfc env) (trim_end_newlines line)";
        cases "validate_message (projr (from_text (env_parse_text env) (env_rfc env) (trim_end_newlines line)))")
    (simp_all add: process_unix_socket_line_def enforce_line_size_limit_def
        payload_exceeds_limit_def write_socket_reply_def trim_unix_socket_line_def
        parse_unix_socket_message_def ensure_valid_unix_socket_message_def
        validate_unix_socket_message_def verdict_def valid_message_is_ok Let_def)

fun reply_of :: "Verdict \<Rightarrow> string option" where
  "reply_of (Reject reply) = Some reply"
| "reply_of (Accept m) = None"

fun message_of :: "Verdict \<Rightarrow> string IncomingMessage option" where
  "message_of (Reject reply) = None"
| "message_of (Accept m) = Some (message_with_ack m)"

function lines_of :: "string \<Rightarrow> string list" where
  "lines_of s =
     (if s = [] then []
      else let front = takeWhile (\<lambda>c. c \<noteq> CHR 0x0A) s; back = drop (length front) s
           in (front @ take 1 back) # lines_of (drop 1 back))"
  by pat_completeness auto

termination lines_of
  by (relation "measure length") (auto simp: Suc_le_eq)

declare lines_of.simps [simp del]

lemma lines_of_nonempty:
  assumes "s \<noteq> []"
  obtains line rest where "lines_of s = line # lines_of rest" "line \<noteq> []"
    "read_unix_client_line \<lparr>unread = s, read_fails = False\<rparr> =
       (if utf8 line then (Inr (Some (line, length line)), \<lparr>unread = rest, read_fails = False\<rparr>)
        else (Inl ReadFailed, \<lparr>unread = rest, read_fails = False\<rparr>))"
proof -
  let ?front = "takeWhile (\<lambda>c. c \<noteq> CHR 0x0A) s"
  let ?tail = "drop (length ?front) s"
  have "?front @ take 1 ?tail \<noteq> []" using assms by (cases s) auto
  then show thesis
    using that [of "?front @ take 1 ?tail" "drop 1 ?tail"] assms
    by (simp add: lines_of.simps [of s] read_unix_client_line_def Let_def)
qed

lemma forward_well_behaved:
  assumes "cl_reader s = \<lparr>unread = input, read_fails = False\<rparr>" and "list_all utf8 (lines_of input)"
    and env: "env_broken env = (\<lambda>out r. False)" "env_rx_open env = (\<lambda>sent. True)"
  shows "forward_unix_client_lines env s =
    (Inr (), s\<lparr>cl_reader := \<lparr>unread = [], read_fails = False\<rparr>,
       cl_replies := cl_replies s @ List.map_filter (reply_of \<circ> verdict env) (lines_of input),
       cl_sent := cl_sent s @ List.map_filter (message_of \<circ> verdict env) (lines_of input)\<rparr>)"
  using assms(1,2)
proof (induction "length input" arbitrary: s input rule: less_induct)
  case less
  show ?case
  proof (cases "input = []")
    case True
    then show ?thesis
      using less.prems
      by (simp add: forward_unix_client_lines.simps [of env s] forward_one_line_def
          read_unix_client_line_def lines_of.simps [of "[]"])
  next
    case False
    from lines_of_nonempty [OF this] obtain line rest where lines: "lines_of input = line # lines_of rest"
      and "line \<noteq> []" and read: "read_unix_client_line \<lparr>unread = input, read_fails = False\<rparr> =
       (if utf8 line then (Inr (Some (line, length line)), \<lparr>unread = rest, read_fails = False\<rparr>)
        else (Inl ReadFailed, \<lparr>unread = rest, read_fails = False\<rparr>))" by metis
    have utf: "utf8 line" "list_all utf8 (lines_of rest)" using less.prems(2) lines by simp_all
    have shorter: "length rest < length input"
      using read_line_consumes [of "\<lparr>unread = input, read_fails = False\<rparr>"] read utf by simp
    show ?thesis
    proof (cases "verdict env line")
      case (Reject reply)
      define s1 where "s1 = s\<lparr>cl_reader := \<lparr>unread = rest, read_fails = False\<rparr>,
        cl_replies := cl_replies s @ [reply]\<rparr>"
      have "forward_one_line env s = (Inr True, s1)"
        using read utf less.prems(1) process_line_verdict [of env line "cl_replies s"] env
        by (simp add: forward_one_line_def Reject s1_def)
      with less.hyps [OF shorter, of s1] utf(2) lines Reject show ?thesis
        by (simp add: forward_unix_client_lines.simps [of env s] s1_def)
    next
      case (Accept m)
      define s1 where "s1 = s\<lparr>cl_reader := \<lparr>unread = rest, read_fails = False\<rparr>,
        cl_sent := cl_sent s @ [message_with_ack m]\<rparr>"
      have "forward_one_line env s = (Inr True, s1)"
        using read utf less.prems(1) process_line_verdict [of env line "cl_replies s"] env
        by (simp add: forward_one_line_def forward_unix_message_def Accept s1_def)
      with less.hyps [OF shorter, of s1] utf(2) lines Accept show ?thesis
        by (simp add: forward_unix_client_lines.simps [of env s] s1_def)
    qed
  qed
qed

section \<open>Client and bridge interleaved\<close>

text \<open>
  The client task and the message loop run concurrently and write to the same connection. A step
  is one line of the client task, or one acknowledgement of the message loop, which takes the
  channel's messages in order. Counters: lines read, messages taken, acknowledgements lost to a
  failing write.
\<close>

record Session =
  ses_client :: ClientState
  ses_lines :: nat
  ses_taken :: nat
  ses_lost :: nat

definition session_start :: "Reader \<Rightarrow> Session" where
  "session_start reader =
     \<lparr>ses_client = \<lparr>cl_reader = reader, cl_replies = [], cl_sent = []\<rparr>,
      ses_lines = 0, ses_taken = 0, ses_lost = 0\<rparr>"

inductive session_step :: "ClientEnv \<Rightarrow> Session \<Rightarrow> Session \<Rightarrow> bool" for env where
  line: "forward_one_line env (ses_client s) = (Inr True, c) \<Longrightarrow>
    session_step env s (s\<lparr>ses_client := c, ses_lines := Suc (ses_lines s)\<rparr>)"
| acknowledged: "ses_taken s < length (cl_sent (ses_client s)) \<Longrightarrow>
    ack (write_socket_reply (env_broken env)) (cl_sent (ses_client s) ! ses_taken s)
      (cl_replies (ses_client s)) = (Inr (), out) \<Longrightarrow>
    session_step env s (s\<lparr>ses_client := ses_client s\<lparr>cl_replies := out\<rparr>, ses_taken := Suc (ses_taken s)\<rparr>)"
| ack_lost: "ses_taken s < length (cl_sent (ses_client s)) \<Longrightarrow>
    ack (write_socket_reply (env_broken env)) (cl_sent (ses_client s) ! ses_taken s)
      (cl_replies (ses_client s)) = (Inl e, out) \<Longrightarrow>
    session_step env s (s\<lparr>ses_taken := Suc (ses_taken s), ses_lost := Suc (ses_lost s)\<rparr>)"

inductive_cases session_stepE: "session_step env s s'"

definition carries_valid :: "string IncomingMessage \<Rightarrow> bool" where
  "carries_valid incoming \<longleftrightarrow>
     incoming = message_with_ack (in_message incoming) \<and> valid_message (in_message incoming)"

definition session_ok :: "Session \<Rightarrow> bool" where
  "session_ok s \<longleftrightarrow>
     list_all carries_valid (cl_sent (ses_client s)) \<and>
     ses_taken s \<le> length (cl_sent (ses_client s)) \<and>
     length (filter (\<lambda>r. r = reply_ok) (cl_replies (ses_client s))) + ses_lost s = ses_taken s \<and>
     length (filter (\<lambda>r. r \<noteq> reply_ok) (cl_replies (ses_client s))) + length (cl_sent (ses_client s))
       = ses_lines s"

lemma verdict_Accept_valid: "verdict env line = Accept m \<Longrightarrow> valid_message m"
  by (auto simp: verdict_def Let_def split: if_splits sum.splits)

lemma verdict_Reject_not_ok: "verdict env line = Reject reply \<Longrightarrow> reply \<noteq> reply_ok"
  by (auto simp: verdict_def Let_def reply_ok_def reply_parse_def reply_validation_def newline_def
      split: if_splits sum.splits)

lemma forward_one_line_effect:
  assumes "forward_one_line env c = (Inr True, c')"
  shows "(\<exists>reply. reply \<noteq> reply_ok \<and> cl_replies c' = cl_replies c @ [reply] \<and> cl_sent c' = cl_sent c) \<or>
    (\<exists>m. valid_message m \<and> cl_replies c' = cl_replies c \<and> cl_sent c' = cl_sent c @ [message_with_ack m])"
proof -
  from assms obtain line bytes reader where read:
    "read_unix_client_line (cl_reader c) = (Inr (Some (line, bytes)), reader)"
    by (auto simp: forward_one_line_def split: prod.splits sum.splits option.splits)
  then have bytes: "bytes = length line"
    by (auto simp: read_unix_client_line_def Let_def split: if_splits)
  show ?thesis
    using assms read bytes process_line_verdict [of env line "cl_replies c"]
      verdict_Accept_valid [of env line] verdict_Reject_not_ok [of env line]
    by (cases "verdict env line")
      (auto simp: forward_one_line_def forward_unix_message_def split: if_splits)
qed

lemma ack_message_with_ack:
  "carries_valid incoming \<Longrightarrow> ack perform incoming t = perform reply_ok t"
  by (cases incoming) (simp add: carries_valid_def message_with_ack_def with_ack_def ack_def)

lemma session_step_ok: "session_step env s s' \<Longrightarrow> session_ok s \<Longrightarrow> session_ok s'"
proof (erule session_stepE)
  fix c
  assume "session_ok s" and "forward_one_line env (ses_client s) = (Inr True, c)"
    and "s' = s\<lparr>ses_client := c, ses_lines := Suc (ses_lines s)\<rparr>"
  with forward_one_line_effect [of env "ses_client s" c] show "session_ok s'"
    by (auto simp: session_ok_def carries_valid_def message_with_ack_def with_ack_def)
next
  fix out
  assume ok: "session_ok s" and taken: "ses_taken s < length (cl_sent (ses_client s))"
    and "ack (write_socket_reply (env_broken env)) (cl_sent (ses_client s) ! ses_taken s)
      (cl_replies (ses_client s)) = (Inr (), out)"
    and "s' = s\<lparr>ses_client := ses_client s\<lparr>cl_replies := out\<rparr>, ses_taken := Suc (ses_taken s)\<rparr>"
  moreover have "carries_valid (cl_sent (ses_client s) ! ses_taken s)"
    using ok taken by (simp add: session_ok_def list_all_length)
  ultimately show "session_ok s'"
    by (auto simp: session_ok_def ack_message_with_ack write_socket_reply_def split: if_splits)
next
  assume "session_ok s" and "ses_taken s < length (cl_sent (ses_client s))"
    and "s' = s\<lparr>ses_taken := Suc (ses_taken s), ses_lost := Suc (ses_lost s)\<rparr>"
  then show "session_ok s'" by (simp add: session_ok_def)
qed

lemma session_reachable_ok:
  "(session_step env)\<^sup>*\<^sup>* (session_start reader) s \<Longrightarrow> session_ok s"
  by (induction rule: rtranclp_induct) (auto simp: session_start_def session_ok_def dest: session_step_ok)

section \<open>Properties\<close>

text \<open>C22: A peer whose user or group is not the configured one gets nothing from the bridge but the
  denial: none of its bytes is read, no message is sent on, and its task ends with an error; a
  peer that matches both configured ids is served.\<close>

theorem unauthorized_client_gets_nothing:
  assumes "handle_unix_client env (Inr peer) allowed_uid allowed_gid s = (r, s')"
  shows "if (allowed_uid = None \<or> allowed_uid = Some (uid peer)) \<and>
            (allowed_gid = None \<or> allowed_gid = Some (gid peer))
    then (r, s') = forward_unix_client_lines env s
    else cl_reader s' = cl_reader s \<and> cl_sent s' = cl_sent s \<and>
      r \<in> {Inl Unauthorized, Inl WriteFailed} \<and>
      cl_replies s' = cl_replies s @ (if r = Inl Unauthorized then [reply_denied] else [])"
  using assms
  by (auto simp: handle_unix_client_def authorize_unix_client_def check_peer_authorization_def
      authorization_failure_for_uid_def authorization_failure_for_gid_def reply_unauthorized_def
      write_socket_reply_def split: option.splits if_splits)

text \<open>The examples below read JSON booleans only: the text \<open>t\<close> stands for point 1 being true.\<close>

definition toy_json :: "string \<Rightarrow> json option" where
  "toy_json s =
     (if s = ''t'' then Some (JObject [(''ioa'', JNumber (PosInt 1)), (''value'', JBool True)]) else None)"

definition toy_message :: Iec104Message where
  "toy_message = \<lparr>msg_ioa = 1, msg_value = Bool True, msg_data_type = None, msg_ca = None,
     msg_quality = Good, msg_cot = Spontaneous, msg_timestamp = None\<rparr>"

definition toy_env :: ClientEnv where
  "toy_env = \<lparr>env_parse_text = toy_json, env_rfc = (\<lambda>_. None), env_max_line_bytes = 10,
     env_broken = (\<lambda>_ _. False), env_rx_open = (\<lambda>_. True)\<rparr>"

definition toy_client :: "string \<Rightarrow> ClientState" where
  "toy_client input =
     \<lparr>cl_reader = \<lparr>unread = input, read_fails = False\<rparr>, cl_replies = [], cl_sent = []\<rparr>"

lemma toy_verdict:
  "verdict toy_env (''t'' @ newline) = Accept toy_message" "verdict toy_env ''x'' = Reject reply_parse"
  by (simp_all add: verdict_def toy_env_def newline_def trim_end_newlines_def from_text_def
      toy_json_def toy_message_def blank_message_def require_field_def QualityField_default_def
      CotField_default_def valid_message_def)

theorem unauthorized_client_gets_nothing_witness:
  "\<exists>r s'. handle_unix_client toy_env (Inr \<lparr>uid = 7, gid = 1, pid = 9\<rparr>) (Some 8) None
       (toy_client ''x'') = (r, s') \<and> cl_reader s' = cl_reader (toy_client ''x'') \<and>
     cl_sent s' = []"
proof -
  obtain r s' where run: "handle_unix_client toy_env (Inr \<lparr>uid = 7, gid = 1, pid = 9\<rparr>) (Some 8) None
       (toy_client ''x'') = (r, s')" by fastforce
  from unauthorized_client_gets_nothing [OF run] run show ?thesis by (simp add: toy_client_def)
qed

text \<open>When nothing fails, every line of a client gets exactly its verdict: the replies are those
  of the rejected lines in order, the messages sent on those of the accepted lines in order,
  the whole input is read, and the task ends without an error. In particular it always ends.\<close>

theorem client_lines_all_judged:
  assumes "cl_reader s = \<lparr>unread = input, read_fails = False\<rparr>" and "list_all utf8 (lines_of input)"
    and "env_broken env = (\<lambda>out r. False)" and "env_rx_open env = (\<lambda>sent. True)"
  shows "forward_unix_client_lines env s =
    (Inr (), s\<lparr>cl_reader := \<lparr>unread = [], read_fails = False\<rparr>,
       cl_replies := cl_replies s @ List.map_filter (reply_of \<circ> verdict env) (lines_of input),
       cl_sent := cl_sent s @ List.map_filter (message_of \<circ> verdict env) (lines_of input)\<rparr>)"
  using assms by (rule forward_well_behaved)

theorem client_lines_all_judged_witness:
  "\<exists>s'. forward_unix_client_lines toy_env (toy_client (''t'' @ newline @ ''x'')) = (Inr (), s') \<and>
     cl_replies s' = [reply_parse] \<and> cl_sent s' = [message_with_ack toy_message] \<and>
     unread (cl_reader s') = []"
proof -
  have lines: "lines_of (''t'' @ newline @ ''x'') = [''t'' @ newline, ''x'']"
    by (simp add: lines_of.simps newline_def)
  have "list_all utf8 (lines_of (''t'' @ newline @ ''x''))"
    unfolding lines by (simp add: utf8_def newline_def)
  from client_lines_all_judged [OF _ this, of "toy_client (''t'' @ newline @ ''x'')" toy_env]
  show ?thesis unfolding lines
    by (simp only: list.simps o_def map_filter_simps toy_verdict)
      (simp add: toy_client_def toy_env_def)
qed

text \<open>C9: However the client task and the acknowledgements of the message loop interleave, every line
  has exactly one fate: an error reply written at once, or a valid message sent on, whose single
  \<open>ok\<close> is written (or lost with the connection) when the bridge has taken it, never before.\<close>

theorem session_accounts_for_every_line:
  assumes "(session_step env)\<^sup>*\<^sup>* (session_start reader) s"
  shows "length (filter (\<lambda>r. r \<noteq> reply_ok) (cl_replies (ses_client s)))
      + length (cl_sent (ses_client s)) = ses_lines s \<and>
    length (filter (\<lambda>r. r = reply_ok) (cl_replies (ses_client s))) + ses_lost s = ses_taken s \<and>
    ses_taken s \<le> length (cl_sent (ses_client s)) \<and>
    list_all carries_valid (cl_sent (ses_client s))"
  using session_reachable_ok [OF assms] by (simp add: session_ok_def)

lemma toy_line:
  "forward_one_line toy_env (toy_client (''t'' @ newline)) =
     (Inr True, toy_client []\<lparr>cl_sent := [message_with_ack toy_message]\<rparr>)"
  using process_line_verdict [of toy_env "''t'' @ newline" "[]"]
  by (simp add: toy_verdict del: append.simps)
    (simp add: forward_one_line_def read_unix_client_line_def newline_def toy_client_def Let_def
      utf8_def forward_unix_message_def toy_env_def)

theorem session_accounts_for_every_line_witness:
  "\<exists>s. (session_step toy_env)\<^sup>*\<^sup>* (session_start \<lparr>unread = ''t'' @ newline, read_fails = False\<rparr>) s \<and>
     cl_replies (ses_client s) = [reply_ok] \<and> ses_lines s = 1 \<and> ses_taken s = 1 \<and> ses_lost s = 0"
proof -
  let ?s0 = "session_start \<lparr>unread = ''t'' @ newline, read_fails = False\<rparr>"
  let ?s1 = "?s0\<lparr>ses_client := toy_client []\<lparr>cl_sent := [message_with_ack toy_message]\<rparr>,
    ses_lines := 1\<rparr>"
  let ?s2 = "?s1\<lparr>ses_client := ses_client ?s1\<lparr>cl_replies := [reply_ok]\<rparr>, ses_taken := 1\<rparr>"
  have "session_step toy_env ?s0 ?s1"
    using session_step.line [of toy_env ?s0] toy_line by (simp add: session_start_def toy_client_def)
  moreover have "session_step toy_env ?s1 ?s2"
    using session_step.acknowledged [of ?s1 toy_env "[reply_ok]"]
    by (simp add: session_start_def toy_client_def ack_def message_with_ack_def with_ack_def
        write_socket_reply_def toy_env_def)
  ultimately have "(session_step toy_env)\<^sup>*\<^sup>* ?s0 ?s2" by auto
  from session_accounts_for_every_line [OF this] this show ?thesis
    by (intro exI [of _ ?s2]) (simp add: session_start_def reply_ok_def)
qed

end
