(* ===== verification/Supervisor.thy ===== *)
theory Supervisor
  imports Sinks UnixClient
begin

text \<open>
  The program's core loop, \<open>src/src/main.rs\<close>: the point cache, handling of an incoming message, the
  general interrogation, the message loop, the supervision of the input source and the metrics
  page. The cache is a hash map in the code; its iteration order is a parameter.
\<close>

section \<open>State\<close>

record CachedPoint =
  cp_message :: Iec104Message
  cp_received_at :: OffsetDateTime

type_synonym point_key = "u16 \<times> u32"
type_synonym DataStore = "point_key \<rightharpoonup> CachedPoint"

record Metrics =
  messages_dispatched :: u64
  gi_responses :: u64

definition Metrics_default :: Metrics where
  "Metrics_default = \<lparr>messages_dispatched = 0, gi_responses = 0\<rparr>"

datatype LoopOutcome = Shutdown | SourceEnded

text \<open>
  What the threads share, together with the log of foreign calls, whether the IEC-104 server
  runs, and the state \<open>'t\<close> of the transport that acknowledgements go to.
\<close>

record 't Bridge =
  br_store :: DataStore
  br_metrics :: Metrics
  br_calls :: call_log
  br_running :: bool
  br_transport :: 't

text \<open>The iteration order of the map: every key once.\<close>

definition iterates :: "(DataStore \<Rightarrow> point_key list) \<Rightarrow> DataStore \<Rightarrow> bool" where
  "iterates order store \<longleftrightarrow> distinct (order store) \<and> set (order store) = dom store"

definition server_stop :: "'t Bridge \<Rightarrow> 't Bridge" where
  "server_stop b = b\<lparr>br_running := False\<rparr>"

section \<open>An incoming message\<close>

text \<open>The settings the loop is started with; \<open>le_perform\<close> runs an acknowledgement on the transport.\<close>

record ('k, 't) LoopEnv =
  le_native :: native_env
  le_server :: CS104_Slave
  le_perform :: "'k \<Rightarrow> 't \<Rightarrow> (unit, unit) result \<times> 't"
  le_default_ca :: u16
  le_gi_only :: bool
  le_policy :: OutputPolicy

definition dispatch_message_if_enabled ::
  "'s DataSink \<Rightarrow> Outgoing \<Rightarrow> u16 \<Rightarrow> bool \<Rightarrow> 's \<Rightarrow> bool \<times> 's" where
  "dispatch_message_if_enabled sink out ca gi_only s =
     (if gi_only then (False, s) else (True, dispatch_outgoing sink out ca s))"

definition store_insert :: "point_key \<Rightarrow> CachedPoint \<Rightarrow> 't Bridge \<Rightarrow> 't Bridge" where
  "store_insert key point b = b\<lparr>br_store := (br_store b)(key \<mapsto> point)\<rparr>"

definition count_dispatched :: "'t Bridge \<Rightarrow> 't Bridge" where
  "count_dispatched b =
     b\<lparr>br_metrics := br_metrics b\<lparr>messages_dispatched := messages_dispatched (br_metrics b) + 1\<rparr>\<rparr>"

definition count_gi_response :: "'t Bridge \<Rightarrow> 't Bridge" where
  "count_gi_response b =
     b\<lparr>br_metrics := br_metrics b\<lparr>gi_responses := gi_responses (br_metrics b) + 1\<rparr>\<rparr>"

text \<open>
  The three parts of the handler: under the lock of the store, under the lock of the server, and
  the acknowledgement with the counter. Other threads may run between them.
\<close>

definition incoming_key :: "('k, 't) LoopEnv \<Rightarrow> 'k IncomingMessage \<Rightarrow> point_key" where
  "incoming_key env incoming =
     (unwrap_or (msg_ca (in_message incoming)) (le_default_ca env), msg_ioa (in_message incoming))"

definition cache_incoming ::
  "('k, 't) LoopEnv \<Rightarrow> OffsetDateTime \<Rightarrow> 'k IncomingMessage \<Rightarrow> 't Bridge \<Rightarrow> 't Bridge" where
  "cache_incoming env now incoming b =
     store_insert (incoming_key env incoming)
       \<lparr>cp_message = in_message incoming, cp_received_at = now\<rparr> b"

definition dispatch_incoming ::
  "('k, 't) LoopEnv \<Rightarrow> OffsetDateTime \<Rightarrow> 'k IncomingMessage \<Rightarrow> 't Bridge \<Rightarrow> bool \<times> 't Bridge" where
  "dispatch_incoming env now incoming b =
     (if le_gi_only env then (False, b)
      else
        let out = prepare_for_output (in_message incoming) now now (le_policy env);
            (sent, calls) = dispatch_message_if_enabled (LiveSink (le_native env) (le_server env))
              out (fst (incoming_key env incoming)) (le_gi_only env) (br_calls b)
        in (sent, b\<lparr>br_calls := calls\<rparr>))"

definition acknowledge_incoming ::
  "('k, 't) LoopEnv \<Rightarrow> 'k IncomingMessage \<Rightarrow> bool \<Rightarrow> 't Bridge \<Rightarrow> (unit, unit) result \<times> 't Bridge" where
  "acknowledge_incoming env incoming dispatched b =
     (case ack (le_perform env) incoming (br_transport b) of
        (Inl e, t) \<Rightarrow> (Inl e, b\<lparr>br_transport := t\<rparr>)
      | (Inr _, t) \<Rightarrow>
          let b = b\<lparr>br_transport := t\<rparr>
          in (Inr (), if dispatched then count_dispatched b else b))"

definition handle_incoming_message ::
  "('k, 't) LoopEnv \<Rightarrow> OffsetDateTime \<Rightarrow> 'k IncomingMessage \<Rightarrow> 't Bridge
     \<Rightarrow> (unit, unit) result \<times> 't Bridge" where
  "handle_incoming_message env now incoming b =
     (case dispatch_incoming env now incoming (cache_incoming env now incoming b) of
        (dispatched, b) \<Rightarrow> acknowledge_incoming env incoming dispatched b)"

section \<open>General interrogation\<close>

definition gi_outgoing :: "OffsetDateTime \<Rightarrow> OutputPolicy \<Rightarrow> CachedPoint \<Rightarrow> Outgoing" where
  "gi_outgoing now policy point =
     (let out = prepare_for_output (cp_message point) (cp_received_at point) now policy
      in out\<lparr>out_message := (out_message out)\<lparr>msg_cot := Interrogated\<rparr>\<rparr>)"

definition replay_cached_values ::
  "'s DataSink \<Rightarrow> (DataStore \<Rightarrow> point_key list) \<Rightarrow> DataStore \<Rightarrow> u16 \<Rightarrow> OutputPolicy
     \<Rightarrow> OffsetDateTime \<Rightarrow> 's \<Rightarrow> 's" where
  "replay_cached_values sink order store default_ca policy now s =
     fold (\<lambda>key s.
        case store key of
          None \<Rightarrow> s
        | Some point \<Rightarrow>
            let ca = unwrap_or (msg_ca (cp_message point)) default_ca
            in dispatch_outgoing sink (gi_outgoing now policy point) ca s)
       (order store) s"

text \<open>
  The handler the library calls with the master connection, the request, and the qualifier; the
  station qualifier is the library's constant. The result is always \<open>true\<close>.
\<close>

definition interrogation_handler ::
  "native_env \<Rightarrow> u8 \<Rightarrow> (DataStore \<Rightarrow> point_key list) \<Rightarrow> u16 \<Rightarrow> OutputPolicy
     \<Rightarrow> IMasterConnection \<Rightarrow> ptr \<Rightarrow> StaticASDU \<Rightarrow> u8 \<Rightarrow> OffsetDateTime \<Rightarrow> 't Bridge
     \<Rightarrow> bool \<times> 't Bridge" where
  "interrogation_handler env qoi_station order default_ca policy conn box asdu qoi now b =
     (let request = sa_buffer (PinnedAsdu_copy_of box asdu); calls = br_calls b
      in if qoi \<noteq> qoi_station then
           (True, b\<lparr>br_calls := calls @ [SendActCon conn request True (ret_act_con env calls conn True)]\<rparr>)
         else
           let calls = calls @ [SendActCon conn request False (ret_act_con env calls conn False)];
               s = replay_cached_values (ConnectionSink env conn) order (br_store b) default_ca
                     policy now (ConnectionSink_new calls);
               b = count_gi_response b;
               calls = conn_calls s
           in (True, b\<lparr>br_calls := calls @ [SendActTerm conn request (ret_act_term env calls conn)]\<rparr>))"

definition connection_request_handler :: "string \<Rightarrow> bool" where
  "connection_request_handler ip = True"

section \<open>The message loop\<close>

text \<open>
  What the loop's \<open>select\<close> yields, in order: the shutdown signal, the end of the stream, a receive
  error, or a message with the time at which it is handled. A list that ends without one of the
  first two leaves the loop waiting: it has no outcome yet.
\<close>

datatype 'k LoopEvent = CtrlC | StreamEnd | StreamError | Received OffsetDateTime "'k IncomingMessage"

fun run_message_loop ::
  "('k, 't) LoopEnv \<Rightarrow> 'k LoopEvent list \<Rightarrow> 't Bridge \<Rightarrow> LoopOutcome option \<times> 't Bridge" where
  "run_message_loop env [] b = (None, b)"
| "run_message_loop env (CtrlC # events) b = (Some Shutdown, b)"
| "run_message_loop env (StreamEnd # events) b = (Some SourceEnded, b)"
| "run_message_loop env (StreamError # events) b = run_message_loop env events b"
| "run_message_loop env (Received now incoming # events) b =
     run_message_loop env events (snd (handle_incoming_message env now incoming b))"

section \<open>Supervision of the source\<close>

definition SOURCE_MIN_BACKOFF :: Duration where "SOURCE_MIN_BACKOFF = 200000000"
definition SOURCE_MAX_BACKOFF :: Duration where "SOURCE_MAX_BACKOFF = 5000000000"
definition SOURCE_STABLE_RUN :: Duration where "SOURCE_STABLE_RUN = 30000000000"

text \<open>
  The two nested loops of \<open>supervise_message_source\<close> by the point they have reached: running a
  source, waiting before the next attempt to build one, returned after a shutdown signal, or
  returned with the error of the first build. \<open>main\<close> passes that error on: the process ends, and the
  server with it. The world supplies the runs (with how long they took) and how each wait and
  attempt ended.
\<close>

datatype SupervisorPhase = Running Duration | Waiting Duration | Returned | StartFailed

datatype 'k SupervisorEvent =
    SourceRun "'k LoopEvent list" Duration
  | CtrlCDuringWait
  | WaitThenBuild bool

definition process_ends :: "'t Bridge \<Rightarrow> 't Bridge" where
  "process_ends b = b\<lparr>br_running := False\<rparr>"

definition supervise_start :: "bool \<Rightarrow> 't Bridge \<Rightarrow> SupervisorPhase \<times> 't Bridge" where
  "supervise_start built b =
     (if built then (Running SOURCE_MIN_BACKOFF, b) else (StartFailed, process_ends b))"

fun supervise_step ::
  "('k, 't) LoopEnv \<Rightarrow> 'k SupervisorEvent \<Rightarrow> SupervisorPhase \<times> 't Bridge
     \<Rightarrow> SupervisorPhase \<times> 't Bridge" where
  "supervise_step env (SourceRun events elapsed) (Running backoff, b) =
     (case run_message_loop env events b of
        (None, b) \<Rightarrow> (Running backoff, b)
      | (Some Shutdown, b) \<Rightarrow> (Returned, server_stop b)
      | (Some SourceEnded, b) \<Rightarrow>
          (Waiting (if elapsed \<ge> SOURCE_STABLE_RUN then SOURCE_MIN_BACKOFF else backoff), b))"
| "supervise_step env CtrlCDuringWait (Waiting backoff, b) = (Returned, server_stop b)"
| "supervise_step env (WaitThenBuild built) (Waiting backoff, b) =
     (let backoff = min (backoff * 2) SOURCE_MAX_BACKOFF
      in if built then (Running backoff, b) else (Waiting backoff, b))"
| "supervise_step env _ s = s"

definition supervise_message_source ::
  "('k, 't) LoopEnv \<Rightarrow> bool \<Rightarrow> 'k SupervisorEvent list \<Rightarrow> 't Bridge \<Rightarrow> SupervisorPhase \<times> 't Bridge" where
  "supervise_message_source env built events b =
     fold (supervise_step env) events (supervise_start built b)"

section \<open>Configuration of the server\<close>

definition output_policy :: "Config \<Rightarrow> OutputPolicy" where
  "output_policy config = \<lparr>send_timestamps = iec104_timestamps config, max_age = iec104_max_age config\<rparr>"

definition effective_iec104_bind_addr :: "Config \<Rightarrow> string" where
  "effective_iec104_bind_addr config =
     (if tls_enabled config then ''127.0.0.1'' else iec104_bind_addr config)"

record ServerSetup =
  local_address :: string
  local_port :: u16
  low_prio_queue :: i32
  high_prio_queue :: i32
  gi_default_ca :: u16
  gi_policy :: OutputPolicy
  started :: bool

text \<open>\<open>builds\<close> says whether the library can build the server.\<close>

definition build_iec_server :: "(ServerSetup \<Rightarrow> bool) \<Rightarrow> Config \<Rightarrow> (unit, ServerSetup) result" where
  "build_iec_server builds config =
     (let setup = \<lparr>local_address = effective_iec104_bind_addr config,
            local_port = iec104_port config,
            low_prio_queue = ucast (iec104_queue_size config),
            high_prio_queue = ucast (iec104_queue_size config),
            gi_default_ca = iec104_default_ca config, gi_policy = output_policy config,
            started = False\<rparr>
      in if builds setup then Inr (setup\<lparr>started := True\<rparr>) else Inl ())"

definition loop_env ::
  "native_env \<Rightarrow> CS104_Slave \<Rightarrow> ('k \<Rightarrow> 't \<Rightarrow> (unit, unit) result \<times> 't) \<Rightarrow> Config \<Rightarrow> ('k, 't) LoopEnv" where
  "loop_env native server run_ack config =
     \<lparr>le_native = native, le_server = server, le_perform = run_ack,
      le_default_ca = iec104_default_ca config, le_gi_only = iec104_gi_only config,
      le_policy = output_policy config\<rparr>"

text \<open>The two ways to build a source are arguments.\<close>

definition build_message_source ::
  "(Config \<Rightarrow> ('e, 'source) result) \<Rightarrow> (Config \<Rightarrow> ('e, 'source) result) \<Rightarrow> Config
     \<Rightarrow> ('e, 'source) result" where
  "build_message_source nats_from_config unix_from_config config =
     (case input_transport config of
        Nats \<Rightarrow> nats_from_config config
      | UnixSocket \<Rightarrow> unix_from_config config)"

section \<open>Metrics\<close>

definition newline_sep :: string where "newline_sep = [CHR 0x0A]"
definition crlf :: string where "crlf = [CHR 0x0D, CHR 0x0A]"

definition metrics_body :: "nat \<Rightarrow> u64 \<Rightarrow> u64 \<Rightarrow> string" where
  "metrics_body cache_size msgs_dispatched gi_count =
     ''# HELP iec104bridge_cache_size Number of data points currently cached'' @ newline_sep @
     ''# TYPE iec104bridge_cache_size gauge'' @ newline_sep @
     ''iec104bridge_cache_size '' @ decimal cache_size @ newline_sep @
     ''# HELP iec104bridge_messages_dispatched_total Total IEC-104 messages dispatched'' @ newline_sep @
     ''# TYPE iec104bridge_messages_dispatched_total counter'' @ newline_sep @
     ''iec104bridge_messages_dispatched_total '' @ decimal (unat msgs_dispatched) @ newline_sep @
     ''# HELP iec104bridge_gi_responses_total Total General Interrogation responses'' @ newline_sep @
     ''# TYPE iec104bridge_gi_responses_total counter'' @ newline_sep @
     ''iec104bridge_gi_responses_total '' @ decimal (unat gi_count) @ newline_sep"

definition serve_metrics_connection :: "(DataStore \<Rightarrow> point_key list) \<Rightarrow> 't Bridge \<Rightarrow> string" where
  "serve_metrics_connection order b =
     (let body = metrics_body (length (order (br_store b))) (messages_dispatched (br_metrics b))
            (gi_responses (br_metrics b))
      in ''HTTP/1.1 200 OK'' @ crlf @ ''Content-Type: text/plain; version=0.0.4'' @ crlf @
         ''Content-Length: '' @ decimal (length body) @ crlf @ ''Connection: close'' @ crlf @ crlf @ body)"

definition bind_metrics_addr :: "u16 \<Rightarrow> string" where
  "bind_metrics_addr port = ''0.0.0.0:'' @ decimal (unat port)"

definition bind_metrics_listener :: "(string \<Rightarrow> bool) \<Rightarrow> u16 \<Rightarrow> (unit, unit) result" where
  "bind_metrics_listener binds port = (if binds (bind_metrics_addr port) then Inr () else Inl ())"

text \<open>
  The task of the endpoint on what its listener yields: a failed \<open>accept\<close>, or a connection with the
  state that its own task finds. The result is the responses; a listener that cannot be bound ends
  the task and nothing else.
\<close>

fun metrics_accept_loop ::
  "(DataStore \<Rightarrow> point_key list) \<Rightarrow> (io_error, 't Bridge) result list \<Rightarrow> string list" where
  "metrics_accept_loop order [] = []"
| "metrics_accept_loop order (Inl e # events) = metrics_accept_loop order events"
| "metrics_accept_loop order (Inr b # events) =
     serve_metrics_connection order b # metrics_accept_loop order events"

definition spawn_metrics_http_server ::
  "(string \<Rightarrow> bool) \<Rightarrow> (DataStore \<Rightarrow> point_key list) \<Rightarrow> u16 \<Rightarrow> (io_error, 't Bridge) result list
     \<Rightarrow> string list" where
  "spawn_metrics_http_server binds order port events =
     (case bind_metrics_listener binds port of
        Inl e \<Rightarrow> []
      | Inr _ \<Rightarrow> metrics_accept_loop order events)"

section \<open>The cache\<close>

text \<open>The abstract cache: the last message received for each key.\<close>

fun handled :: "'k LoopEvent list \<Rightarrow> (OffsetDateTime \<times> 'k IncomingMessage) list" where
  "handled [] = []"
| "handled (CtrlC # events) = []"
| "handled (StreamEnd # events) = []"
| "handled (StreamError # events) = handled events"
| "handled (Received now incoming # events) = (now, incoming) # handled events"

fun loop_outcome :: "'k LoopEvent list \<Rightarrow> LoopOutcome option" where
  "loop_outcome [] = None"
| "loop_outcome (CtrlC # events) = Some Shutdown"
| "loop_outcome (StreamEnd # events) = Some SourceEnded"
| "loop_outcome (_ # events) = loop_outcome events"

definition last_received ::
  "('k, 't) LoopEnv \<Rightarrow> point_key \<Rightarrow> (OffsetDateTime \<times> 'k IncomingMessage) list \<Rightarrow> CachedPoint option" where
  "last_received env key hs =
     map_option (\<lambda>(now, incoming). \<lparr>cp_message = in_message incoming, cp_received_at = now\<rparr>)
       (find (\<lambda>(now, incoming). incoming_key env incoming = key) (rev hs))"

definition store_keyed :: "u16 \<Rightarrow> DataStore \<Rightarrow> bool" where
  "store_keyed default_ca store \<longleftrightarrow>
     (\<forall>ca ioa point. store (ca, ioa) = Some point \<longrightarrow>
        msg_ioa (cp_message point) = ioa \<and> unwrap_or (msg_ca (cp_message point)) default_ca = ca)"

lemma store_cache_incoming [simp]:
  "br_store (cache_incoming env now incoming b) =
     (br_store b)(incoming_key env incoming \<mapsto> \<lparr>cp_message = in_message incoming, cp_received_at = now\<rparr>)"
  by (simp add: cache_incoming_def store_insert_def)

lemma store_dispatch_incoming [simp]: "br_store (snd (dispatch_incoming env now incoming b)) = br_store b"
  by (simp add: dispatch_incoming_def Let_def split: prod.split)

lemma store_acknowledge_incoming [simp]:
  "br_store (snd (acknowledge_incoming env incoming dispatched b)) = br_store b"
  by (simp add: acknowledge_incoming_def count_dispatched_def Let_def split: prod.split sum.split)

lemma store_handle_incoming:
  "br_store (snd (handle_incoming_message env now incoming b)) =
     (br_store b)(incoming_key env incoming \<mapsto> \<lparr>cp_message = in_message incoming, cp_received_at = now\<rparr>)"
  using store_dispatch_incoming [of env now incoming "cache_incoming env now incoming b"]
  by (cases "dispatch_incoming env now incoming (cache_incoming env now incoming b)")
    (simp add: handle_incoming_message_def)

lemma find_append: "find P (xs @ ys) = (case find P xs of None \<Rightarrow> find P ys | Some x \<Rightarrow> Some x)"
  by (induction xs) auto

lemma last_received_Cons:
  "last_received env key ((now, incoming) # hs) =
     (case last_received env key hs of
        Some point \<Rightarrow> Some point
      | None \<Rightarrow>
          if incoming_key env incoming = key
          then Some \<lparr>cp_message = in_message incoming, cp_received_at = now\<rparr> else None)"
  by (simp add: last_received_def find_append split: option.split)

lemma run_message_loop_spec:
  "fst (run_message_loop env events b) = loop_outcome events \<and>
   br_store (snd (run_message_loop env events b)) key =
     (case last_received env key (handled events) of
        Some point \<Rightarrow> Some point
      | None \<Rightarrow> br_store b key)"
proof (induction env events b rule: run_message_loop.induct)
  case (5 env now incoming events b)
  then show ?case by (simp add: last_received_Cons store_handle_incoming split: option.split)
qed (simp_all add: last_received_def)

lemma store_keyed_insert:
  "store_keyed (le_default_ca env) store \<Longrightarrow>
   store_keyed (le_default_ca env)
     (store(incoming_key env incoming \<mapsto> \<lparr>cp_message = in_message incoming, cp_received_at = now\<rparr>))"
  by (auto simp: store_keyed_def incoming_key_def)

section \<open>Calls appended by the operations\<close>

fun is_confirmation :: "NativeCall \<Rightarrow> bool" where
  "is_confirmation (SendActCon conn req neg sent) = True"
| "is_confirmation (SendActTerm conn req sent) = True"
| "is_confirmation _ = False"

definition extends_quietly :: "call_log \<Rightarrow> call_log \<Rightarrow> bool" where
  "extends_quietly calls calls' \<longleftrightarrow> (\<exists>cs. calls' = calls @ cs \<and> list_all (\<lambda>c. \<not> is_confirmation c) cs)"

lemma extends_quietly_refl: "extends_quietly calls calls"
  by (simp add: extends_quietly_def)

lemma extends_quietly_trans:
  "extends_quietly a b \<Longrightarrow> extends_quietly b c \<Longrightarrow> extends_quietly a c"
  by (auto simp: extends_quietly_def)

lemma extends_quietly_append:
  "extends_quietly a b \<Longrightarrow> list_all (\<lambda>c. \<not> is_confirmation c) cs \<Longrightarrow> extends_quietly a (b @ cs)"
  by (auto simp: extends_quietly_def)

lemma single_object_asdu_quiet:
  "extends_quietly a calls \<Longrightarrow> extends_quietly a (snd (single_object_asdu env cause ca io calls))"
  by (auto simp: single_object_asdu_def Let_def intro!: extends_quietly_append)

lemma send_to_connection_quiet:
  "extends_quietly a calls \<Longrightarrow> extends_quietly a (snd (send_to_connection env conn p calls))"
  by (auto simp: send_to_connection_def Let_def intro!: extends_quietly_append)

lemma send_untimed_quiet:
  "extends_quietly calls (snd (send_untimed_to_connection env conn cause ca ioa v q calls))"
proof -
  let ?io = "untimed_object ioa v q"
  have io: "extends_quietly calls (snd (create_io env ?io calls))"
    by (auto simp: create_io_def Let_def intro!: extends_quietly_append extends_quietly_refl)
  obtain p calls1 where c1: "create_io env ?io calls = (p, calls1)" by fastforce
  obtain res calls2 where c2: "single_object_asdu env cause ca p calls1 = (res, calls2)" by fastforce
  have "extends_quietly calls calls2"
    using single_object_asdu_quiet [of calls calls1 env cause ca p] io c1 c2 by simp
  then show ?thesis
    using send_to_connection_quiet [of calls calls2]
    by (cases res) (simp_all add: send_untimed_to_connection_def c1 c2)
qed

lemma send_timed_quiet:
  "extends_quietly calls (snd (send_timed_to_connection env conn td calls))"
proof -
  have io: "extends_quietly calls (snd (create_io env (timed_object td) calls))"
    by (auto simp: create_io_def Let_def intro!: extends_quietly_append extends_quietly_refl)
  obtain p calls1 where c1: "create_io env (timed_object td) calls = (p, calls1)" by fastforce
  obtain res calls2 where c2: "single_object_asdu env (td_cot td) (td_ca td) p calls1 = (res, calls2)"
    by fastforce
  have "extends_quietly calls calls2"
    using single_object_asdu_quiet [of calls calls1 env "td_cot td" "td_ca td" p] io c1 c2 by simp
  then show ?thesis
    using send_to_connection_quiet [of calls calls2] c1 c2
    by (cases res) (simp_all add: send_timed_to_connection_def timed_asdu_def
        create_information_object_def timed_object_def)
qed

lemma connection_dispatch_quiet:
  "extends_quietly (conn_calls s) (conn_calls (dispatch_outgoing (ConnectionSink env conn) out ca s))"
  unfolding dispatch_outgoing_performs
  by (cases "point_request ca out")
    (simp_all add: ConnectionSink_def send_untimed_def send_untimed_quiet send_timed_quiet)

lemma connection_dispatch_all_quiet:
  "extends_quietly (conn_calls s)
     (conn_calls (fold (\<lambda>x. dispatch_outgoing (ConnectionSink env conn) (f x) (g x)) xs s))"
proof (induction xs arbitrary: s)
  case (Cons x xs)
  from extends_quietly_trans [OF connection_dispatch_quiet Cons.IH] show ?case by simp
qed (simp add: extends_quietly_refl)

lemma enqueue_timed_extends: "\<exists>cs. snd (enqueue_timed_asdu env td calls) = calls @ cs"
proof -
  obtain p calls1 where c1: "create_io env (timed_object td) calls = (p, calls1)" by fastforce
  obtain res calls2 where c2: "single_object_asdu env (td_cot td) (td_ca td) p calls1 = (res, calls2)"
    by fastforce
  have "extends_quietly calls calls1"
    using c1 by (auto simp: create_io_def Let_def intro!: extends_quietly_append extends_quietly_refl)
  then have "extends_quietly calls calls2"
    using single_object_asdu_quiet [of calls calls1 env "td_cot td" "td_ca td" p] c2 by simp
  then show ?thesis
    using c1 c2 by (cases res; cases "td_server_ptr td")
      (auto simp: enqueue_timed_asdu_def timed_asdu_def create_information_object_def
        timed_object_def extends_quietly_def)
qed

lemma live_dispatch_extends:
  "\<exists>cs. dispatch_outgoing (LiveSink env server) out ca calls = calls @ cs"
  unfolding dispatch_outgoing_performs
  by (cases "point_request ca out") (simp_all add: LiveSink_def enqueue_timed_extends)

section \<open>Replay\<close>

definition cached_points :: "(DataStore \<Rightarrow> point_key list) \<Rightarrow> DataStore \<Rightarrow> CachedPoint list" where
  "cached_points order store = map (\<lambda>key. the (store key)) (order store)"

lemma point_request_default_ca:
  "dispatch_outgoing sink (gi_outgoing now policy point)
     (unwrap_or (msg_ca (cp_message point)) default_ca) s
     = dispatch_outgoing sink (gi_outgoing now policy point) default_ca s"
proof -
  have "msg_ca (out_message (gi_outgoing now policy point)) = msg_ca (cp_message point)"
    by (simp add: gi_outgoing_def prepare_for_output_def Let_def)
  then have "unwrap_or (msg_ca (out_message (gi_outgoing now policy point)))
      (unwrap_or (msg_ca (cp_message point)) default_ca)
    = unwrap_or (msg_ca (out_message (gi_outgoing now policy point))) default_ca"
    by (cases "msg_ca (cp_message point)") simp_all
  then show ?thesis unfolding dispatch_outgoing_performs point_request_def by simp
qed

lemma replay_fold:
  assumes "iterates order store"
  shows "replay_cached_values sink order store default_ca policy now s =
    fold (\<lambda>out. dispatch_outgoing sink out default_ca)
      (map (gi_outgoing now policy) (cached_points order store)) s"
proof -
  have "\<forall>key \<in> set (order store). store key \<noteq> None" using assms by (auto simp: iterates_def)
  then show ?thesis
    unfolding replay_cached_values_def cached_points_def
    by (induction "order store" arbitrary: s rule: list.induct)
      (auto simp: fold_map o_def point_request_default_ca Let_def intro!: fold_cong)
qed

definition request_object :: "PointRequest \<Rightarrow> InformationObject" where
  "request_object req = hd (snd (request_asdu req))"

fun request_address :: "PointRequest \<Rightarrow> CauseOfTransmission \<times> point_key" where
  "request_address (ReqSingle cause ca ioa v q) = (cause, ca, ioa)"
| "request_address (ReqFloat cause ca ioa x q) = (cause, ca, ioa)"
| "request_address (ReqScaled cause ca ioa n q) = (cause, ca, ioa)"
| "request_address (ReqTimed td) = (td_cot td, td_ca td, td_ioa td)"

lemma connection_entry:
  "render (\<lambda>cause ca ioa v q. CreateIO (SinglePointInformation (ucast ioa) v q) 0)
     (\<lambda>cause ca ioa x q. CreateIO (MeasuredValueShort (ucast ioa) x q) 0)
     (\<lambda>cause ca ioa n q. CreateIO (MeasuredValueScaled (ucast ioa) (scast n) q) 0)
     (\<lambda>td. CreateIO (timed_object td) 0) req = CreateIO (request_object req) 0"
  by (cases req) (simp_all add: request_object_def)

lemma connection_points_all:
  "points (conn_calls (fold (\<lambda>out. dispatch_outgoing (ConnectionSink env conn) out ca) outs s)) =
     points (conn_calls s) @ map (\<lambda>out. CreateIO (request_object (point_request ca out)) 0) outs"
  using connection.trace_dispatch_all [where env = env and conn = conn and s = s and ca = ca and outs = outs]
  unfolding connection_entry by simp

lemma gi_request_address:
  assumes "store_keyed default_ca store" and "store key = Some point"
  shows "request_address (point_request default_ca (gi_outgoing now policy point))
    = (COT_InterrogatedByStation, key)"
proof -
  obtain ca ioa where key: "key = (ca, ioa)" by (cases key)
  with assms have "msg_ioa (cp_message point) = ioa" "unwrap_or (msg_ca (cp_message point)) default_ca = ca"
    by (auto simp: store_keyed_def)
  then show ?thesis
    by (auto simp: point_request_def gi_outgoing_def prepare_for_output_def Let_def key
        split: option.split)
qed

lemma gi_request_addresses:
  assumes "store_keyed default_ca store" and "iterates order store"
  shows "map (\<lambda>out. request_address (point_request default_ca out))
      (map (gi_outgoing now policy) (cached_points order store))
    = map (\<lambda>key. (COT_InterrogatedByStation, key)) (order store)"
  using assms gi_request_address [OF assms(1)]
  by (auto simp: cached_points_def iterates_def)

lemma heap_after_confirmation:
  "heap_after calls = Some h \<Longrightarrow>
     heap_after (calls @ [SendActCon conn req neg sent]) = Some (hand_over (ActCon conn neg sent) h)"
  "heap_after calls = Some h \<Longrightarrow>
     heap_after (calls @ [SendActTerm conn req sent]) = Some (hand_over (ActTerm conn sent) h)"
  by (simp_all add: heap_after_append)

lemma station_interrogation_calls:
  assumes "iterates order (br_store b)"
    and "interrogation_handler env station order default_ca policy conn box asdu station now b = (r, b')"
  defines "outs \<equiv> map (gi_outgoing now policy) (cached_points order (br_store b))"
  shows "\<exists>mid confirmed terminated.
    br_calls b' = br_calls b @ [SendActCon conn box False confirmed] @ mid @ [SendActTerm conn box terminated] \<and>
    list_all (\<lambda>c. \<not> is_confirmation c) mid \<and>
    points mid = map (\<lambda>out. CreateIO (request_object (point_request default_ca out)) 0) outs"
proof -
  let ?con = "ret_act_con env (br_calls b) conn False"
  let ?calls1 = "br_calls b @ [SendActCon conn box False ?con]"
  let ?s = "fold (\<lambda>out. dispatch_outgoing (ConnectionSink env conn) out default_ca) outs
    (ConnectionSink_new ?calls1)"
  obtain mid where mid: "conn_calls ?s = ?calls1 @ mid" "list_all (\<lambda>c. \<not> is_confirmation c) mid"
    using connection_dispatch_all_quiet [of "ConnectionSink_new ?calls1" env conn "\<lambda>out. out"
        "\<lambda>out. default_ca" outs]
    by (auto simp: extends_quietly_def ConnectionSink_new_def)
  have "points ?calls1 @ points mid =
      points ?calls1 @ map (\<lambda>out. CreateIO (request_object (point_request default_ca out)) 0) outs"
    using connection_points_all [of env conn default_ca outs "ConnectionSink_new ?calls1"]
    unfolding mid(1) points_append by (simp add: ConnectionSink_new_def)
  moreover have "br_calls b' = conn_calls ?s @ [SendActTerm conn box (ret_act_term env (conn_calls ?s) conn)]"
    using assms(2) unfolding outs_def
    by (auto simp: interrogation_handler_def Let_def replay_fold [OF assms(1)]
        PinnedAsdu_copy_of_def move_to_def count_gi_response_def)
  ultimately show ?thesis using mid by auto
qed

lemma station_interrogation_heap:
  assumes "fresh_allocator env" and "heap_after (br_calls b) = Some h"
    and "iterates order (br_store b)"
    and "interrogation_handler env station order default_ca policy conn box asdu station now b = (r, b')"
  defines "outs \<equiv> map (gi_outgoing now policy) (cached_points order (br_store b))"
  shows "\<exists>h' sent. heap_after (br_calls b') = Some h' \<and>
    heap_io h' = heap_io h \<and> heap_asdu h' = heap_asdu h \<and>
    accepted conn (heap_out h') = accepted conn (heap_out h) @ sent \<and>
    subseq sent (map (\<lambda>out. request_asdu (point_request default_ca out)) outs)"
proof -
  let ?con = "ret_act_con env (br_calls b) conn False"
  let ?calls1 = "br_calls b @ [SendActCon conn box False ?con]"
  let ?h1 = "hand_over (ActCon conn False ?con) h"
  let ?s = "fold (\<lambda>out. dispatch_outgoing (ConnectionSink env conn) out default_ca) outs
    (ConnectionSink_new ?calls1)"
  have "heap_after (conn_calls (ConnectionSink_new ?calls1)) = Some ?h1"
    using heap_after_confirmation(1) [OF assms(2)] by (simp add: ConnectionSink_new_def)
  from native_lib.dispatch_all_settled [OF native_lib.intro [OF assms(1)] this refl, of conn default_ca outs]
  obtain h2 sent where h2: "heap_after (conn_calls ?s) = Some h2"
    "heap_io h2 = heap_io h" "heap_asdu h2 = heap_asdu h"
    "accepted conn (heap_out h2) = accepted conn (heap_out h) @ sent"
    "subseq sent (map (\<lambda>out. request_asdu (point_request default_ca out)) outs)"
    by (auto simp: hand_over_def)
  have "br_calls b' = conn_calls ?s @ [SendActTerm conn box (ret_act_term env (conn_calls ?s) conn)]"
    using assms(4) unfolding outs_def
    by (auto simp: interrogation_handler_def Let_def replay_fold [OF assms(3)]
        PinnedAsdu_copy_of_def move_to_def count_gi_response_def)
  with heap_after_confirmation(2) [OF h2(1)] h2 show ?thesis
    by (auto simp: hand_over_def)
qed

section \<open>The threads interleaved\<close>

text \<open>
  The message loop handles one message at a time in three steps; between any two of them the
  library's thread may answer an interrogation on any connection, and the tasks of the source may
  change the state of the transport. \<open>wd_acked\<close> records each message
  whose acknowledgement was attempted, with the time it was handled and the outcome. A handler is
  one step: the foreign calls of two threads are not interleaved inside it.
\<close>

datatype 'k LoopPhase =
    Idle
  | Cached OffsetDateTime "'k IncomingMessage"
  | Dispatched OffsetDateTime "'k IncomingMessage" bool

record ('k, 't) World =
  wd_phase :: "'k LoopPhase"
  wd_bridge :: "'t Bridge"
  wd_acked :: "(OffsetDateTime \<times> 'k IncomingMessage \<times> bool) list"

inductive world_step ::
  "('k, 't) LoopEnv \<Rightarrow> u8 \<Rightarrow> (DataStore \<Rightarrow> point_key list) \<Rightarrow> ('k, 't) World \<Rightarrow> ('k, 't) World \<Rightarrow> bool"
  for env station order where
  receive: "wd_phase w = Idle \<Longrightarrow>
    world_step env station order w
      (w\<lparr>wd_phase := Cached now incoming, wd_bridge := cache_incoming env now incoming (wd_bridge w)\<rparr>)"
| dispatch: "wd_phase w = Cached now incoming \<Longrightarrow>
    dispatch_incoming env now incoming (wd_bridge w) = (dispatched, b) \<Longrightarrow>
    world_step env station order w
      (w\<lparr>wd_phase := Dispatched now incoming dispatched, wd_bridge := b\<rparr>)"
| acknowledge: "wd_phase w = Dispatched now incoming dispatched \<Longrightarrow>
    acknowledge_incoming env incoming dispatched (wd_bridge w) = (r, b) \<Longrightarrow>
    world_step env station order w
      (w\<lparr>wd_phase := Idle, wd_bridge := b, wd_acked := wd_acked w @ [(now, incoming, is_ok r)]\<rparr>)"
| interrogate:
    "interrogation_handler (le_native env) station order (le_default_ca env) (le_policy env) conn box
       asdu qoi now (wd_bridge w) = (r, b) \<Longrightarrow>
    world_step env station order w (w\<lparr>wd_bridge := b\<rparr>)"
| others: "world_step env station order w (w\<lparr>wd_bridge := (wd_bridge w)\<lparr>br_transport := t\<rparr>\<rparr>)"

inductive_cases world_stepE: "world_step env station order w w'"

definition world_start :: "'t Bridge \<Rightarrow> ('k, 't) World" where
  "world_start b = \<lparr>wd_phase = Idle, wd_bridge = b, wd_acked = []\<rparr>"

text \<open>A message handled without interruption is the three steps of the loop in a row.\<close>

lemma handle_is_three_steps:
  assumes "handle_incoming_message env now incoming b = (r, b')"
  shows "(world_step env station order)\<^sup>*\<^sup>* \<lparr>wd_phase = Idle, wd_bridge = b, wd_acked = as\<rparr>
    \<lparr>wd_phase = Idle, wd_bridge = b', wd_acked = as @ [(now, incoming, is_ok r)]\<rparr>"
proof -
  let ?w0 = "\<lparr>wd_phase = Idle, wd_bridge = b, wd_acked = as\<rparr>"
  let ?b1 = "cache_incoming env now incoming b"
  let ?w1 = "?w0\<lparr>wd_phase := Cached now incoming, wd_bridge := ?b1\<rparr>"
  obtain dispatched b2 where d: "dispatch_incoming env now incoming ?b1 = (dispatched, b2)" by fastforce
  let ?w2 = "?w1\<lparr>wd_phase := Dispatched now incoming dispatched, wd_bridge := b2\<rparr>"
  have a: "acknowledge_incoming env incoming dispatched b2 = (r, b')"
    using assms by (simp add: handle_incoming_message_def d)
  have "world_step env station order ?w0 ?w1"
    using world_step.receive [of ?w0 env station order now incoming] by simp
  moreover have "world_step env station order ?w1 ?w2"
    using world_step.dispatch [of ?w1 now incoming env dispatched b2 station order] d by simp
  moreover have "world_step env station order ?w2
      \<lparr>wd_phase = Idle, wd_bridge = b', wd_acked = as @ [(now, incoming, is_ok r)]\<rparr>"
    using world_step.acknowledge [of ?w2 now incoming dispatched env r b' station order] a by simp
  ultimately show ?thesis by auto
qed

text \<open>The points given to the library for a message.\<close>

definition live_entry :: "('k, 't) LoopEnv \<Rightarrow> OffsetDateTime \<Rightarrow> 'k IncomingMessage \<Rightarrow> NativeCall" where
  "live_entry env now incoming =
     render ServerSinglePoint ServerMeasuredFloat ServerMeasuredScaled
       (\<lambda>td. CreateIO (timed_object td) 0)
       (point_request (fst (incoming_key env incoming))
         (prepare_for_output (in_message incoming) now now (le_policy env)))"

definition world_ok :: "('k, 't) LoopEnv \<Rightarrow> ('k, 't) World \<Rightarrow> bool" where
  "world_ok env w \<longleftrightarrow>
     store_keyed (le_default_ca env) (br_store (wd_bridge w)) \<and>
     messages_dispatched (br_metrics (wd_bridge w)) =
       (if le_gi_only env then 0 else of_nat (length (filter (\<lambda>(_, _, acked). acked) (wd_acked w)))) \<and>
     (case wd_phase w of
        Dispatched now incoming dispatched \<Rightarrow> dispatched = (\<not> le_gi_only env)
      | _ \<Rightarrow> True)"

text \<open>Every step only adds to the store and to the log of calls.\<close>

definition grows :: "'t Bridge \<Rightarrow> 't Bridge \<Rightarrow> bool" where
  "grows b b' \<longleftrightarrow>
     dom (br_store b) \<subseteq> dom (br_store b') \<and> (\<exists>cs. br_calls b' = br_calls b @ cs)"

lemma replay_extends:
  "\<exists>cs. conn_calls (replay_cached_values (ConnectionSink env conn) order store default_ca policy now s)
     = conn_calls s @ cs"
proof -
  have "\<exists>cs. conn_calls (fold (\<lambda>key s. case store key of None \<Rightarrow> s | Some point \<Rightarrow>
      let ca = unwrap_or (msg_ca (cp_message point)) default_ca
      in dispatch_outgoing (ConnectionSink env conn) (gi_outgoing now policy point) ca s) keys s)
    = conn_calls s @ cs" for keys
  proof (induction keys arbitrary: s)
    case (Cons key keys)
    show ?case
    proof (cases "store key")
      case None
      then show ?thesis using Cons by simp
    next
      case (Some point)
      let ?s1 = "dispatch_outgoing (ConnectionSink env conn) (gi_outgoing now policy point)
        (unwrap_or (msg_ca (cp_message point)) default_ca) s"
      obtain cs where "conn_calls ?s1 = conn_calls s @ cs"
        using connection_dispatch_quiet by (fastforce simp: extends_quietly_def)
      then show ?thesis using Cons [of ?s1] by (auto simp: Some Let_def)
    qed
  qed simp
  then show ?thesis by (simp add: replay_cached_values_def)
qed

lemma interrogation_effect:
  assumes "interrogation_handler env station order default_ca policy conn box asdu qoi now b = (r, b')"
  shows "r \<and> br_store b' = br_store b \<and> grows b b' \<and>
    messages_dispatched (br_metrics b') = messages_dispatched (br_metrics b) \<and>
    gi_responses (br_metrics b') = gi_responses (br_metrics b) + (if qoi = station then 1 else 0) \<and>
    br_transport b' = br_transport b \<and> br_running b' = br_running b"
proof (cases "qoi = station")
  case False
  with assms show ?thesis
    by (auto simp: interrogation_handler_def grows_def Let_def)
next
  case True
  let ?s0 = "ConnectionSink_new (br_calls b @ [SendActCon conn (sa_buffer (PinnedAsdu_copy_of box asdu))
    False (ret_act_con env (br_calls b) conn False)])"
  obtain cs where "conn_calls (replay_cached_values (ConnectionSink env conn) order (br_store b)
      default_ca policy now ?s0) = conn_calls ?s0 @ cs"
    using replay_extends by blast
  with assms True show ?thesis
    by (auto simp: interrogation_handler_def grows_def Let_def count_gi_response_def
        ConnectionSink_new_def)
qed

lemma dispatch_incoming_effect:
  assumes "dispatch_incoming env now incoming b = (dispatched, b')"
  shows "br_store b' = br_store b \<and> br_metrics b' = br_metrics b \<and> grows b b' \<and>
    dispatched = (\<not> le_gi_only env) \<and>
    points (br_calls b') =
      points (br_calls b) @ (if le_gi_only env then [] else [live_entry env now incoming])"
proof (cases "le_gi_only env")
  case True
  with assms show ?thesis by (auto simp: dispatch_incoming_def grows_def)
next
  case False
  let ?out = "prepare_for_output (in_message incoming) now now (le_policy env)"
  let ?calls = "dispatch_outgoing (LiveSink (le_native env) (le_server env)) ?out
    (fst (incoming_key env incoming)) (br_calls b)"
  have b': "b' = b\<lparr>br_calls := ?calls\<rparr>" "dispatched"
    using assms False by (auto simp: dispatch_incoming_def dispatch_message_if_enabled_def Let_def)
  have "points ?calls = points (br_calls b) @ [live_entry env now incoming]"
    using live_sink.trace_dispatch_all [where s = "br_calls b" and env = "le_native env" and
        server = "le_server env" and ca = "fst (incoming_key env incoming)" and outs = "[?out]"]
    by (simp add: live_entry_def)
  moreover have "\<exists>cs. ?calls = br_calls b @ cs" by (rule live_dispatch_extends)
  ultimately show ?thesis using False b' by (auto simp: grows_def)
qed

lemma acknowledge_effect:
  assumes "acknowledge_incoming env incoming dispatched b = (r, b')"
  shows "br_store b' = br_store b \<and> br_calls b' = br_calls b \<and> grows b b' \<and>
    messages_dispatched (br_metrics b') =
      messages_dispatched (br_metrics b) + (if dispatched \<and> is_ok r then 1 else 0)"
  using assms
  by (auto simp: acknowledge_incoming_def count_dispatched_def grows_def Let_def
      split: prod.splits sum.splits)

lemma cache_incoming_grows: "grows b (cache_incoming env now incoming b)"
  by (auto simp: grows_def cache_incoming_def store_insert_def)

lemma world_step_ok:
  assumes "world_step env station order w w'" and ok: "world_ok env w"
  shows "world_ok env w'"
  using assms(1)
proof (cases rule: world_step.cases)
  case (receive now incoming)
  have "br_metrics (cache_incoming env now incoming (wd_bridge w)) = br_metrics (wd_bridge w)"
    by (simp add: cache_incoming_def store_insert_def)
  then show ?thesis using ok receive by (auto simp: world_ok_def store_keyed_insert)
next
  case (dispatch now incoming dispatched b)
  with dispatch_incoming_effect [OF dispatch(3)] ok show ?thesis by (auto simp: world_ok_def)
next
  case (acknowledge now incoming dispatched r b)
  with acknowledge_effect [OF acknowledge(3)] ok show ?thesis by (auto simp: world_ok_def)
next
  case (interrogate conn box asdu qoi now r b)
  with interrogation_effect [OF interrogate(2)] ok show ?thesis
    by (auto simp: world_ok_def split: LoopPhase.splits)
next
  case (others t)
  with ok show ?thesis by (auto simp: world_ok_def split: LoopPhase.splits)
qed

lemma world_reachable_ok:
  assumes "(world_step env station order)\<^sup>*\<^sup>* (world_start b) w"
    and "br_store b = Map.empty" and "br_metrics b = Metrics_default"
  shows "world_ok env w"
  using assms
  by (induction rule: rtranclp_induct)
    (auto simp: world_start_def world_ok_def store_keyed_def Metrics_default_def
      dest: world_step_ok)

section \<open>Supervision\<close>

definition phase_ok :: "SupervisorPhase \<Rightarrow> bool" where
  "phase_ok phase \<longleftrightarrow>
     (case phase of
        Running backoff \<Rightarrow> SOURCE_MIN_BACKOFF \<le> backoff \<and> backoff \<le> SOURCE_MAX_BACKOFF
      | Waiting backoff \<Rightarrow> SOURCE_MIN_BACKOFF \<le> backoff \<and> backoff \<le> SOURCE_MAX_BACKOFF
      | _ \<Rightarrow> True)"

lemmas backoff_bounds = SOURCE_MIN_BACKOFF_def SOURCE_MAX_BACKOFF_def SOURCE_STABLE_RUN_def

lemma run_message_loop_frame:
  "dom (br_store b) \<subseteq> dom (br_store (snd (run_message_loop env events b))) \<and>
   br_running (snd (run_message_loop env events b)) = br_running b"
proof (induction env events b rule: run_message_loop.induct)
  case (5 env now incoming events b)
  have "br_running (snd (handle_incoming_message env now incoming b)) = br_running b"
    by (auto simp: handle_incoming_message_def dispatch_incoming_def cache_incoming_def
        acknowledge_incoming_def store_insert_def count_dispatched_def Let_def
        split: prod.splits sum.splits)
  moreover have "dom (br_store b) \<subseteq> dom (br_store (snd (handle_incoming_message env now incoming b)))"
    by (simp add: store_handle_incoming subset_insertI)
  from subset_trans [OF this conjunct1 [OF 5]]
  have "dom (br_store b) \<subseteq> dom (br_store (snd (run_message_loop env (Received now incoming # events) b)))"
    by simp
  ultimately show ?case using 5 by simp
qed simp_all

text \<open>The server runs until the supervisor has returned, and no step removes a cached point.\<close>

definition stopped :: "SupervisorPhase \<Rightarrow> bool" where
  "stopped phase \<longleftrightarrow> phase = Returned \<or> phase = StartFailed"

definition supervised :: "SupervisorPhase \<times> 't Bridge \<Rightarrow> bool" where
  "supervised s \<longleftrightarrow> phase_ok (fst s) \<and> (br_running (snd s) \<longleftrightarrow> \<not> stopped (fst s))"

lemma stopped_simps [simp]:
  "stopped Returned" "stopped StartFailed" "\<not> stopped (Running backoff)" "\<not> stopped (Waiting backoff)"
  by (simp_all add: stopped_def)

lemma supervise_step_facts:
  assumes "supervised s"
  shows "supervised (supervise_step env event s) \<and>
    dom (br_store (snd s)) \<subseteq> dom (br_store (snd (supervise_step env event s)))"
proof (cases s)
  case (Pair phase b)
  show ?thesis
  proof (cases event)
    case (SourceRun events elapsed)
    show ?thesis
    proof (cases phase)
      case (Running backoff)
      obtain outcome b1 where run: "run_message_loop env events b = (outcome, b1)" by fastforce
      from run_message_loop_frame [of b env events] run assms show ?thesis
        by (auto simp: Pair SourceRun Running supervised_def phase_ok_def server_stop_def
            backoff_bounds split: option.split LoopOutcome.split)
    qed (use assms in \<open>simp_all add: Pair SourceRun supervised_def\<close>)
  next
    case CtrlCDuringWait
    with assms show ?thesis
      by (cases phase) (auto simp: Pair supervised_def phase_ok_def server_stop_def)
  next
    case (WaitThenBuild built)
    with assms show ?thesis
      by (cases phase) (auto simp: Pair supervised_def phase_ok_def backoff_bounds Let_def)
  qed
qed

lemma supervise_facts:
  assumes "supervised s"
  shows "supervised (fold (supervise_step env) events s) \<and>
    dom (br_store (snd s)) \<subseteq> dom (br_store (snd (fold (supervise_step env) events s)))"
  using assms
proof (induction events arbitrary: s)
  case (Cons event events)
  from supervise_step_facts [OF Cons.prems]
  have sup: "supervised (supervise_step env event s)"
    and sub: "dom (br_store (snd s)) \<subseteq> dom (br_store (snd (supervise_step env event s)))" by blast+
  from Cons.IH [OF sup] subset_trans [OF sub conjunct2 [OF Cons.IH [OF sup]]]
  show ?case by simp
qed simp

fun ends_supervision :: "'k SupervisorEvent \<Rightarrow> bool" where
  "ends_supervision CtrlCDuringWait = True"
| "ends_supervision (SourceRun events elapsed) = (loop_outcome events = Some Shutdown)"
| "ends_supervision (WaitThenBuild built) = False"

lemma supervise_step_returned:
  "fst (supervise_step env event s) = Returned \<Longrightarrow> fst s \<noteq> Returned \<Longrightarrow>
     ends_supervision event"
proof (cases s; cases event)
  fix phase b events elapsed
  assume ret: "fst (supervise_step env event s) = Returned" "fst s \<noteq> Returned"
    and s: "s = (phase, b)" "event = SourceRun events elapsed"
  obtain outcome b1 where run: "run_message_loop env events b = (outcome, b1)" by fastforce
  then have "outcome = loop_outcome events" using run_message_loop_spec [of env events b] by simp
  then show ?thesis
    using ret run by (cases phase) (auto simp: s split: option.splits LoopOutcome.splits)
next
  fix phase b built
  assume "fst (supervise_step env event s) = Returned" "fst s \<noteq> Returned"
    and "s = (phase, b)" "event = WaitThenBuild built"
  then show ?thesis by (cases phase) (auto simp: Let_def split: if_splits)
qed auto

text \<open>After it has returned nothing happens any more.\<close>

lemma stopped_stays: "stopped (fst s) \<Longrightarrow> fold (supervise_step env) events s = s"
proof (induction events)
  case (Cons event events)
  then have "supervise_step env event s = s"
    by (cases s; cases event) (auto simp: stopped_def)
  with Cons show ?case by simp
qed simp

lemma step_not_failed: "fst s \<noteq> StartFailed \<Longrightarrow> fst (supervise_step env event s) \<noteq> StartFailed"
proof (cases "(env, event, s)" rule: supervise_step.cases)
  case (1 env events elapsed backoff b)
  then show ?thesis by (auto split: prod.split option.split LoopOutcome.split)
qed (simp_all add: Let_def)

lemma fold_not_failed: "fst s \<noteq> StartFailed \<Longrightarrow> fst (fold (supervise_step env) events s) \<noteq> StartFailed"
  by (induction events arbitrary: s) (simp_all add: step_not_failed)

text \<open>The event that ended supervision: it ran until then, and that event is a shutdown signal.\<close>

lemma supervise_returned:
  "fst (fold (supervise_step env) events s) = Returned \<Longrightarrow> fst s \<noteq> Returned \<Longrightarrow>
     \<exists>pre event post. events = pre @ event # post \<and> ends_supervision event \<and>
       fst (fold (supervise_step env) pre s) \<noteq> Returned \<and>
       fold (supervise_step env) (pre @ [event]) s = fold (supervise_step env) events s"
proof (induction events arbitrary: s)
  case (Cons event events)
  let ?s = "supervise_step env event s"
  show ?case
  proof (cases "fst ?s = Returned")
    case True
    then have "fold (supervise_step env) events ?s = ?s" by (intro stopped_stays) simp
    with supervise_step_returned [OF True Cons.prems(2)] Cons.prems(2) show ?thesis
      by (intro exI [of _ "[]"] exI [of _ event] exI [of _ events]) simp
  next
    case False
    have "fst (fold (supervise_step env) events ?s) = Returned" using Cons.prems(1) by simp
    from Cons.IH [OF this False] obtain pre e post where split: "events = pre @ e # post"
      and ends: "ends_supervision e" and pre: "fst (fold (supervise_step env) pre ?s) \<noteq> Returned"
      and last: "fold (supervise_step env) (pre @ [e]) ?s = fold (supervise_step env) events ?s"
      by blast
    show ?thesis
    proof (intro exI conjI)
      show "event # events = (event # pre) @ e # post" using split by simp
      show "fst (fold (supervise_step env) (event # pre) s) \<noteq> Returned" using pre by simp
      show "fold (supervise_step env) ((event # pre) @ [e]) s = fold (supervise_step env) (event # events) s"
        using last by (simp only: append_Cons fold_simps)
    qed (rule ends)
  qed
qed simp

lemma failed_rebuilds:
  "fold (supervise_step env) (replicate n (WaitThenBuild False)) (Waiting backoff, b)
     = (Waiting (if n = 0 then backoff else min (backoff * 2 ^ n) SOURCE_MAX_BACKOFF), b)"
proof (induction n arbitrary: backoff)
  case (Suc n)
  have "min (min (backoff * 2) m * 2 ^ n) m = min (backoff * 2 ^ Suc n) m" for m :: nat
  proof (cases "backoff * 2 \<le> m")
    case False
    have "m \<le> m * 2 ^ n" "m \<le> backoff * 2 * 2 ^ n"
      using False by (simp_all add: trans_le_add1 mult_le_mono [of m "backoff * 2" 1 "2 ^ n", simplified])
    with False show ?thesis by (simp add: ac_simps)
  qed (simp add: ac_simps)
  then show ?case using Suc by (simp add: Let_def)
qed simp

section \<open>Properties\<close>

text \<open>C5: The message loop implements the abstract cache: whatever fails on the way (receive errors,
  lost acknowledgements), afterwards each key holds the last message received for it before the
  loop ended, and every other key what it held before; the loop ends exactly at the first
  shutdown signal or end of the stream, with the outcome that names it.\<close>

theorem message_loop_refines_cache:
  "fst (run_message_loop env events b) = loop_outcome events \<and>
   br_store (snd (run_message_loop env events b)) =
     (\<lambda>key. case last_received env key (handled events) of
        Some point \<Rightarrow> Some point
      | None \<Rightarrow> br_store b key)"
  by (simp add: fun_eq_iff run_message_loop_spec)

definition toy_loop_env :: "(string, replies) LoopEnv" where
  "toy_loop_env = \<lparr>le_native = queue_env 5, le_server = 3,
     le_perform = (\<lambda>reply out. (Inr (), out @ [reply])), le_default_ca = 1, le_gi_only = False,
     le_policy = OutputPolicy_default\<rparr>"

definition toy_bridge :: "replies Bridge" where
  "toy_bridge = \<lparr>br_store = Map.empty, br_metrics = Metrics_default, br_calls = [],
     br_running = True, br_transport = []\<rparr>"


definition timed_message :: Iec104Message where
  "timed_message = toy_message\<lparr>msg_timestamp := Some (OffsetDateTime 2000000)\<rparr>"

definition one_point :: "replies Bridge" where
  "one_point = toy_bridge\<lparr>br_store :=
     [(1, 1) \<mapsto> \<lparr>cp_message = toy_message, cp_received_at = OffsetDateTime 0\<rparr>]\<rparr>"

definition request_example :: StaticASDU where
  "request_example = \<lparr>sa_buffer = 90, sa_asduHeaderLength = 6, sa_asdu = 90, sa_payload = 96,
     sa_encodedData = [100]\<rparr>"


text \<open>An interrogation with any other qualifier gets a negative confirmation on its connection and
  nothing else: no point is sent and neither the cache nor a counter changes.\<close>

theorem group_interrogation_refused:
  assumes "qoi \<noteq> station"
    and "interrogation_handler env station order default_ca policy conn box asdu qoi now b = (r, b')"
  shows "r \<and> (\<exists>sent. b' = b\<lparr>br_calls := br_calls b @ [SendActCon conn box True sent]\<rparr>)"
  using assms
  by (auto simp: interrogation_handler_def PinnedAsdu_copy_of_def move_to_def Let_def)

theorem group_interrogation_refused_witness:
  "\<exists>b' sent. interrogation_handler (queue_env 9) 20 (\<lambda>_. [(1, 1)]) 1 OutputPolicy_default 7 80
       request_example 21 (OffsetDateTime 5) one_point = (True, b') \<and>
     br_calls b' = [SendActCon 7 80 True sent]"
proof -
  obtain r b' where run: "interrogation_handler (queue_env 9) 20 (\<lambda>_. [(1, 1)]) 1 OutputPolicy_default
      7 80 request_example 21 (OffsetDateTime 5) one_point = (r, b')" by fastforce
  from group_interrogation_refused [OF _ run] run show ?thesis
    by (auto simp: one_point_def toy_bridge_def)
qed

text \<open>C19: The IEC-104 server runs exactly until supervision returns, no cached point is lost, and the
  backoff stays between 200 milliseconds and 5 seconds. Supervision fails only when the first
  build of the source does: that ends the program at once, with nothing else done. Once the first
  source is built, it returns only through a shutdown signal: there is an event up to which it
  went on, which is a shutdown signal, and with which everything ended.\<close>

theorem supervisor_keeps_server_and_cache:
  assumes "br_running b" and "supervise_message_source env built events b = (phase, b')"
  shows "(br_running b' \<longleftrightarrow> phase \<noteq> Returned \<and> phase \<noteq> StartFailed) \<and>
    dom (br_store b) \<subseteq> dom (br_store b') \<and>
    (phase = Running backoff \<or> phase = Waiting backoff \<longrightarrow>
       SOURCE_MIN_BACKOFF \<le> backoff \<and> backoff \<le> SOURCE_MAX_BACKOFF) \<and>
    (phase = StartFailed \<longleftrightarrow> \<not> built) \<and> (\<not> built \<longrightarrow> b' = b\<lparr>br_running := False\<rparr>) \<and>
    (phase = Returned \<longrightarrow> (\<exists>pre event post. events = pre @ event # post \<and> ends_supervision event \<and>
       fst (supervise_message_source env built pre b) \<noteq> Returned \<and>
       supervise_message_source env built (pre @ [event]) b = (Returned, b')))"
proof -
  have start: "supervised (supervise_start built b)"
    using assms(1)
    by (simp add: supervised_def phase_ok_def supervise_start_def backoff_bounds process_ends_def)
  have final: "fold (supervise_step env) events (supervise_start built b) = (phase, b')"
    using assms(2) by (simp only: supervise_message_source_def)
  note facts = supervise_facts [OF start, of env events, unfolded final fst_conv snd_conv]
  have cache: "dom (br_store (snd (supervise_start built b))) = dom (br_store b)"
    by (simp add: supervise_start_def process_ends_def)
  have "fst (supervise_start built b) \<noteq> Returned" by (simp add: supervise_start_def)
  then have "phase = Returned \<longrightarrow> (\<exists>pre event post. events = pre @ event # post \<and>
      ends_supervision event \<and> fst (supervise_message_source env built pre b) \<noteq> Returned \<and>
      supervise_message_source env built (pre @ [event]) b = (Returned, b'))"
    unfolding supervise_message_source_def
    using supervise_returned [of env events "supervise_start built b"] final by simp
  moreover have "phase = StartFailed \<longleftrightarrow> \<not> built" "\<not> built \<longrightarrow> b' = b\<lparr>br_running := False\<rparr>"
    using fold_not_failed [of "supervise_start built b" env events]
      stopped_stays [of "supervise_start built b" env events] final
    by (auto simp: supervise_start_def process_ends_def split: if_splits)
  moreover have "phase = Running backoff \<or> phase = Waiting backoff \<longrightarrow>
      SOURCE_MIN_BACKOFF \<le> backoff \<and> backoff \<le> SOURCE_MAX_BACKOFF"
    using facts by (auto simp: supervised_def phase_ok_def)
  ultimately show ?thesis using facts cache by (simp add: supervised_def stopped_def)
qed

theorem supervisor_keeps_server_and_cache_witness:
  "\<exists>phase b'. supervise_message_source toy_loop_env True
       [SourceRun [StreamEnd] 1000000000, WaitThenBuild False, WaitThenBuild False] one_point
     = (phase, b') \<and> phase = Waiting 800000000 \<and> br_running b' \<and> (1, 1) \<in> dom (br_store b')"
proof -
  obtain phase b' where run: "supervise_message_source toy_loop_env True
       [SourceRun [StreamEnd] 1000000000, WaitThenBuild False, WaitThenBuild False] one_point
     = (phase, b')" by fastforce
  then have "phase = Waiting 800000000"
    by (simp add: supervise_message_source_def supervise_start_def backoff_bounds Let_def)
  moreover have "br_running one_point" "(1, 1) \<in> dom (br_store one_point)"
    by (simp_all add: one_point_def toy_bridge_def)
  ultimately show ?thesis
    using supervisor_keeps_server_and_cache [OF _ run] run by blast
qed

text \<open>C37: While the source cannot be rebuilt the wait doubles from attempt to attempt up to 5 seconds:
  after n failed attempts following a stable run it is the smaller of 200 ms times 2^n and 5 s.\<close>

theorem backoff_doubles:
  "fold (supervise_step env)
     (SourceRun [StreamEnd] (SOURCE_STABLE_RUN + extra) # replicate n (WaitThenBuild False))
     (Running backoff, b)
   = (Waiting (min (SOURCE_MIN_BACKOFF * 2 ^ n) SOURCE_MAX_BACKOFF), b)"
  using failed_rebuilds [of env n SOURCE_MIN_BACKOFF b] by (cases "n = 0") (simp_all add: backoff_bounds)

end
