(* ===== verification/SocketServer.thy ===== *)
theory SocketServer
  imports Supervisor
begin

text \<open>
  The Unix socket source running with the bridge, \<open>src/src/source.rs\<close> and the message loop of
  \<open>src/src/main.rs\<close>: the accept loop, one task per client, the bounded channel between them and
  the message loop, and the loop's handler, as one step relation in which all of them and the
  interrogations interleave. The channel is \<open>tokio\<close>'s and a parameter; a connection's write half
  is shared by its client task and the acknowledgements, as in the code.
\<close>

section \<open>The channel\<close>

text \<open>
  A send that finds the channel full and a receive that finds it empty have no result: the task
  waits. \<open>queued\<close> and \<open>room\<close> are the contents and the capacity a law speaks about.
\<close>

record ('c, 'a) mpsc =
  mpsc_channel :: "nat \<Rightarrow> 'c"
  mpsc_try_send :: "'a \<Rightarrow> 'c \<Rightarrow> 'c option"
  mpsc_try_recv :: "'c \<Rightarrow> ('a \<times> 'c) option"

definition bounded_queue :: "('c, 'a) mpsc \<Rightarrow> ('c \<Rightarrow> 'a list) \<Rightarrow> ('c \<Rightarrow> nat) \<Rightarrow> bool" where
  "bounded_queue ch queued room \<longleftrightarrow>
     (\<forall>n. queued (mpsc_channel ch n) = [] \<and> room (mpsc_channel ch n) = n) \<and>
     (\<forall>x c. case mpsc_try_send ch x c of
        None \<Rightarrow> room c \<le> length (queued c)
      | Some c' \<Rightarrow> length (queued c) < room c \<and> queued c' = queued c @ [x] \<and> room c' = room c) \<and>
     (\<forall>c. case mpsc_try_recv ch c of
        None \<Rightarrow> queued c = []
      | Some (x, c') \<Rightarrow> queued c = x # queued c' \<and> room c' = room c)"

locale channel =
  fixes ch :: "('c, 'a) mpsc" and queued :: "'c \<Rightarrow> 'a list" and room :: "'c \<Rightarrow> nat"
  assumes queue: "bounded_queue ch queued room"
begin

lemma new_channel: "queued (mpsc_channel ch n) = []" "room (mpsc_channel ch n) = n"
  using queue by (simp_all add: bounded_queue_def)

lemma sent:
  "mpsc_try_send ch x c = Some c' \<Longrightarrow>
     length (queued c) < room c \<and> queued c' = queued c @ [x] \<and> room c' = room c"
  using queue unfolding bounded_queue_def by (metis (mono_tags, lifting) option.simps(5))

lemma full: "mpsc_try_send ch x c = None \<Longrightarrow> room c \<le> length (queued c)"
  using queue unfolding bounded_queue_def by (metis (mono_tags, lifting) option.simps(4))

lemma received: "mpsc_try_recv ch c = Some (x, c') \<Longrightarrow> queued c = x # queued c' \<and> room c' = room c"
  using queue unfolding bounded_queue_def by (metis (mono_tags, lifting) option.simps(5) case_prod_conv)

lemma empty: "mpsc_try_recv ch c = None \<Longrightarrow> queued c = []"
  using queue unfolding bounded_queue_def by (metis (mono_tags, lifting) option.simps(4))

end

text \<open>A channel that meets the contract: a capacity and a list.\<close>

definition list_channel :: "(nat \<times> 'a list, 'a) mpsc" where
  "list_channel = \<lparr>mpsc_channel = (\<lambda>n. (n, [])),
     mpsc_try_send = (\<lambda>x (n, xs). if length xs < n then Some (n, xs @ [x]) else None),
     mpsc_try_recv = (\<lambda>(n, xs). case xs of [] \<Rightarrow> None | x # xs \<Rightarrow> Some (x, (n, xs)))\<rparr>"

lemma list_channel_queue: "bounded_queue list_channel snd fst"
  by (auto simp: bounded_queue_def list_channel_def split: list.split)

interpretation list_chan: channel list_channel snd fst
  by unfold_locales (rule list_channel_queue)

section \<open>The parts\<close>

definition UNIX_SOCKET_BACKLOG :: nat where "UNIX_SOCKET_BACKLOG = 64"

text \<open>
  An acknowledgement names the connection it writes to. \<open>tag_ack\<close> is the write half that the
  callback of \<open>message_with_ack\<close> captures.
\<close>

type_synonym token = "nat \<times> string"
type_synonym item = "(io_error, token IncomingMessage) result"

definition tag_ack :: "nat \<Rightarrow> string IncomingMessage \<Rightarrow> token IncomingMessage" where
  "tag_ack i incoming =
     \<lparr>in_message = in_message incoming, ack_fn = map_option (Pair i) (ack_fn incoming)\<rparr>"

definition write_ack ::
  "(nat \<Rightarrow> write_env) \<Rightarrow> token \<Rightarrow> (nat \<Rightarrow> replies) \<Rightarrow> (unit, unit) result \<times> (nat \<Rightarrow> replies)" where
  "write_ack broken k writers =
     (case k of (i, reply) \<Rightarrow>
       (case write_socket_reply (broken i) reply (writers i) of
          (Inl _, out) \<Rightarrow> (Inl (), writers(i := out))
        | (Inr _, out) \<Rightarrow> (Inr (), writers(i := out))))"

text \<open>
  The surroundings: the settings of the source, the parsers, which write of which connection
  fails, and the settings of the message loop. \<open>se_ready\<close> says that a connection takes another
  reply after those written; a peer that stops reading its replies fills its buffer, and a write
  then waits.
\<close>

record 'c SocketEnv =
  se_runtime :: UnixSocketRuntime
  se_parse_text :: "string \<Rightarrow> json option"
  se_rfc :: "string \<Rightarrow> OffsetDateTime option"
  se_broken :: "nat \<Rightarrow> write_env"
  se_ready :: "nat \<Rightarrow> replies \<Rightarrow> bool"
  se_channel :: "('c, item) mpsc"
  se_loop :: "(token, nat \<Rightarrow> replies) LoopEnv"
  se_station :: u8
  se_order :: "DataStore \<Rightarrow> point_key list"

definition socket_loop_env :: "'c SocketEnv \<Rightarrow> (token, nat \<Rightarrow> replies) LoopEnv" where
  "socket_loop_env env = (se_loop env)\<lparr>le_perform := write_ack (se_broken env)\<rparr>"

text \<open>What a line of connection \<open>i\<close> is judged by.\<close>

definition client_env :: "'c SocketEnv \<Rightarrow> nat \<Rightarrow> ClientEnv" where
  "client_env env i = \<lparr>env_parse_text = se_parse_text env, env_rfc = se_rfc env,
     env_max_line_bytes = rt_max_line_bytes (se_runtime env), env_broken = se_broken env i,
     env_rx_open = (\<lambda>_. True)\<rparr>"

text \<open>A client task by the point it has reached; \<open>ct_input\<close> is all its peer sends.\<close>

datatype ClientPhase =
    Authorizing
  | ReadingLine
  | Forwarding "string IncomingMessage"
  | Ended "(client_error, unit) result"

record Client =
  ct_peer :: "(client_error, PeerCred) result"
  ct_input :: Reader
  ct_reader :: Reader
  ct_phase :: ClientPhase

datatype AcceptPhase = Accepting | SendingError io_error | AcceptEnded

text \<open>What the listener yields.\<close>

record Connection =
  cn_peer :: "(client_error, PeerCred) result"
  cn_input :: Reader

definition spawn_client :: "Connection \<Rightarrow> Client" where
  "spawn_client conn = \<lparr>ct_peer = cn_peer conn, ct_input = cn_input conn, ct_reader = cn_input conn,
     ct_phase = Authorizing\<rparr>"

text \<open>
  A client task up to its next point: the authorization, or one line read and judged. The states
  in which it waits for the channel or has ended are left by other steps.
\<close>

definition client_turn ::
  "'c SocketEnv \<Rightarrow> nat \<Rightarrow> Client \<Rightarrow> replies \<Rightarrow> Client \<times> replies" where
  "client_turn env i c out =
     (case ct_phase c of
        Authorizing \<Rightarrow>
          (case ct_peer c of
             Inl e \<Rightarrow> (c\<lparr>ct_phase := Ended (Inl e)\<rparr>, out)
           | Inr peer \<Rightarrow>
               (case authorize_unix_client (se_broken env i) peer (rt_allowed_uid (se_runtime env))
                       (rt_allowed_gid (se_runtime env)) out of
                  (Inl e, out) \<Rightarrow> (c\<lparr>ct_phase := Ended (Inl e)\<rparr>, out)
                | (Inr _, out) \<Rightarrow> (c\<lparr>ct_phase := ReadingLine\<rparr>, out)))
      | ReadingLine \<Rightarrow>
          (case read_unix_client_line (ct_reader c) of
             (Inl e, reader) \<Rightarrow> (c\<lparr>ct_reader := reader, ct_phase := Ended (Inl e)\<rparr>, out)
           | (Inr None, reader) \<Rightarrow> (c\<lparr>ct_reader := reader, ct_phase := Ended (Inr ())\<rparr>, out)
           | (Inr (Some (line, bytes)), reader) \<Rightarrow>
               (case process_unix_socket_line (se_broken env i) (se_parse_text env) (se_rfc env) line
                       bytes (rt_max_line_bytes (se_runtime env)) out of
                  (Inl e, out) \<Rightarrow> (c\<lparr>ct_reader := reader, ct_phase := Ended (Inl e)\<rparr>, out)
                | (Inr None, out) \<Rightarrow> (c\<lparr>ct_reader := reader\<rparr>, out)
                | (Inr (Some incoming), out) \<Rightarrow>
                    (c\<lparr>ct_reader := reader, ct_phase := Forwarding incoming\<rparr>, out)))
      | Forwarding incoming \<Rightarrow> (c, out)
      | Ended r \<Rightarrow> (c, out))"

section \<open>The steps\<close>

record 'c SocketWorld =
  sw_backlog :: "(io_error, Connection) result list"
  sw_accept :: AcceptPhase
  sw_clients :: "Client list"
  sw_channel :: 'c
  sw_outcome :: "LoopOutcome option"
  sw_world :: "(token, nat \<Rightarrow> replies) World"

definition writers :: "'c SocketWorld \<Rightarrow> nat \<Rightarrow> replies" where
  "writers s = br_transport (wd_bridge (sw_world s))"

definition set_writers :: "(nat \<Rightarrow> replies) \<Rightarrow> (token, nat \<Rightarrow> replies) World \<Rightarrow> (token, nat \<Rightarrow> replies) World" where
  "set_writers w world = world\<lparr>wd_bridge := (wd_bridge world)\<lparr>br_transport := w\<rparr>\<rparr>"

text \<open>\<open>into_messages\<close>: a new channel, and the accept loop as a task.\<close>

definition UnixSocketSource_into_messages ::
  "('c, item) mpsc \<Rightarrow> (io_error, Connection) result list \<Rightarrow> (nat \<Rightarrow> replies) Bridge \<Rightarrow> 'c SocketWorld" where
  "UnixSocketSource_into_messages ch backlog b =
     \<lparr>sw_backlog = backlog, sw_accept = Accepting, sw_clients = [],
      sw_channel = mpsc_channel ch UNIX_SOCKET_BACKLOG, sw_outcome = None, sw_world = world_start b\<rparr>"

text \<open>
  A reply is waited for when the connection does not take it. The stream of the loop ends when no
  sender is left: the accept loop and every client task hold one.
\<close>

definition ack_ready :: "'c SocketEnv \<Rightarrow> token IncomingMessage \<Rightarrow> (nat \<Rightarrow> replies) \<Rightarrow> bool" where
  "ack_ready env incoming w \<longleftrightarrow>
     (case ack_fn incoming of Some (i, reply) \<Rightarrow> se_ready env i (w i) | None \<Rightarrow> True)"

definition no_sender_left :: "'c SocketWorld \<Rightarrow> bool" where
  "no_sender_left s \<longleftrightarrow>
     sw_accept s = AcceptEnded \<and> list_all (\<lambda>c. \<exists>r. ct_phase c = Ended r) (sw_clients s)"

inductive work_step :: "'c SocketEnv \<Rightarrow> 'c SocketWorld \<Rightarrow> 'c SocketWorld \<Rightarrow> bool" for env where
  accept: "sw_accept s = Accepting \<Longrightarrow> sw_backlog s = Inr conn # backlog \<Longrightarrow>
    work_step env s (s\<lparr>sw_backlog := backlog, sw_clients := sw_clients s @ [spawn_client conn]\<rparr>)"
| accept_error: "sw_accept s = Accepting \<Longrightarrow> sw_backlog s = Inl e # backlog \<Longrightarrow>
    work_step env s (s\<lparr>sw_backlog := backlog, sw_accept := SendingError e\<rparr>)"
| send_accept_error: "sw_accept s = SendingError e \<Longrightarrow> sw_outcome s = None \<Longrightarrow>
    mpsc_try_send (se_channel env) (Inl e) (sw_channel s) = Some c \<Longrightarrow>
    work_step env s (s\<lparr>sw_accept := Accepting, sw_channel := c\<rparr>)"
| accept_closed: "sw_accept s = SendingError e \<Longrightarrow> sw_outcome s \<noteq> None \<Longrightarrow>
    work_step env s (s\<lparr>sw_accept := AcceptEnded\<rparr>)"
| client: "i < length (sw_clients s) \<Longrightarrow> ct_phase (sw_clients s ! i) \<in> {Authorizing, ReadingLine} \<Longrightarrow>
    client_turn env i (sw_clients s ! i) (writers s i) = (c, out) \<Longrightarrow>
    out = writers s i \<or> se_ready env i (writers s i) \<Longrightarrow>
    work_step env s (s\<lparr>sw_clients := (sw_clients s)[i := c],
      sw_world := set_writers ((writers s)(i := out)) (sw_world s)\<rparr>)"
| forward: "i < length (sw_clients s) \<Longrightarrow> ct_phase (sw_clients s ! i) = Forwarding incoming \<Longrightarrow>
    sw_outcome s = None \<Longrightarrow>
    mpsc_try_send (se_channel env) (Inr (tag_ack i incoming)) (sw_channel s) = Some c \<Longrightarrow>
    work_step env s (s\<lparr>sw_clients := (sw_clients s)[i := (sw_clients s ! i)\<lparr>ct_phase := ReadingLine\<rparr>],
      sw_channel := c\<rparr>)"
| forward_closed: "i < length (sw_clients s) \<Longrightarrow> ct_phase (sw_clients s ! i) = Forwarding incoming \<Longrightarrow>
    sw_outcome s \<noteq> None \<Longrightarrow>
    work_step env s
      (s\<lparr>sw_clients := (sw_clients s)[i := (sw_clients s ! i)\<lparr>ct_phase := Ended (Inr ())\<rparr>]\<rparr>)"
| receive_error: "sw_outcome s = None \<Longrightarrow> wd_phase (sw_world s) = Idle \<Longrightarrow>
    mpsc_try_recv (se_channel env) (sw_channel s) = Some (Inl e, c) \<Longrightarrow>
    work_step env s (s\<lparr>sw_channel := c\<rparr>)"
| receive: "sw_outcome s = None \<Longrightarrow> wd_phase (sw_world s) = Idle \<Longrightarrow>
    mpsc_try_recv (se_channel env) (sw_channel s) = Some (Inr incoming, c) \<Longrightarrow>
    work_step env s (s\<lparr>sw_channel := c, sw_world := (sw_world s)\<lparr>wd_phase := Cached now incoming,
      wd_bridge := cache_incoming (socket_loop_env env) now incoming (wd_bridge (sw_world s))\<rparr>\<rparr>)"
| dispatch: "wd_phase (sw_world s) = Cached now incoming \<Longrightarrow>
    dispatch_incoming (socket_loop_env env) now incoming (wd_bridge (sw_world s)) = (dispatched, b) \<Longrightarrow>
    work_step env s
      (s\<lparr>sw_world := (sw_world s)\<lparr>wd_phase := Dispatched now incoming dispatched, wd_bridge := b\<rparr>\<rparr>)"
| acknowledge: "wd_phase (sw_world s) = Dispatched now incoming dispatched \<Longrightarrow>
    ack_ready env incoming (writers s) \<Longrightarrow>
    acknowledge_incoming (socket_loop_env env) incoming dispatched (wd_bridge (sw_world s)) = (r, b) \<Longrightarrow>
    work_step env s (s\<lparr>sw_world := (sw_world s)\<lparr>wd_phase := Idle, wd_bridge := b,
      wd_acked := wd_acked (sw_world s) @ [(now, incoming, is_ok r)]\<rparr>\<rparr>)"
| stream_end: "sw_outcome s = None \<Longrightarrow> wd_phase (sw_world s) = Idle \<Longrightarrow>
    mpsc_try_recv (se_channel env) (sw_channel s) = None \<Longrightarrow> no_sender_left s \<Longrightarrow>
    work_step env s (s\<lparr>sw_outcome := Some SourceEnded\<rparr>)"

text \<open>From outside: an interrogation at any time, and the shutdown signal between two messages.\<close>

inductive outside_step :: "'c SocketEnv \<Rightarrow> 'c SocketWorld \<Rightarrow> 'c SocketWorld \<Rightarrow> bool" for env where
  interrogate:
    "interrogation_handler (le_native (se_loop env)) (se_station env) (se_order env)
       (le_default_ca (se_loop env)) (le_policy (se_loop env)) conn box asdu qoi now
       (wd_bridge (sw_world s)) = (r, b) \<Longrightarrow>
    outside_step env s (s\<lparr>sw_world := (sw_world s)\<lparr>wd_bridge := b\<rparr>\<rparr>)"
| shutdown: "sw_outcome s = None \<Longrightarrow> wd_phase (sw_world s) = Idle \<Longrightarrow>
    outside_step env s (s\<lparr>sw_outcome := Some Shutdown\<rparr>)"

definition socket_step :: "'c SocketEnv \<Rightarrow> 'c SocketWorld \<Rightarrow> 'c SocketWorld \<Rightarrow> bool" where
  "socket_step env s t \<longleftrightarrow> work_step env s t \<or> outside_step env s t"

inductive_cases work_stepE: "work_step env s t"
inductive_cases outside_stepE: "outside_step env s t"

lemma socket_loop_env_simps [simp]:
  "le_native (socket_loop_env env) = le_native (se_loop env)"
  "le_server (socket_loop_env env) = le_server (se_loop env)"
  "le_default_ca (socket_loop_env env) = le_default_ca (se_loop env)"
  "le_gi_only (socket_loop_env env) = le_gi_only (se_loop env)"
  "le_policy (socket_loop_env env) = le_policy (se_loop env)"
  "le_perform (socket_loop_env env) = write_ack (se_broken env)"
  by (simp_all add: socket_loop_env_def)

text \<open>
  What the bridge sees of the whole system is one of the worlds of \<open>Supervisor\<close>: every property of
  those holds with the Unix socket source running.
\<close>

lemma socket_step_world:
  assumes "socket_step env s t"
  shows "(world_step (socket_loop_env env) (se_station env) (se_order env))\<^sup>*\<^sup>* (sw_world s) (sw_world t)"
proof -
  have "sw_world t = sw_world s \<or>
      world_step (socket_loop_env env) (se_station env) (se_order env) (sw_world s) (sw_world t)"
    using assms unfolding socket_step_def
  proof
    assume "work_step env s t"
    then show ?thesis
    proof (cases rule: work_step.cases)
      case (client i c out)
      then show ?thesis
        using world_step.others [of "socket_loop_env env" "se_station env" "se_order env" "sw_world s"]
        by (simp add: set_writers_def)
    next
      case (acknowledge now incoming dispatched r b)
      then show ?thesis
        using world_step.acknowledge [of "sw_world s" now incoming dispatched "socket_loop_env env" r b]
        by simp
    qed (auto intro: world_step.receive world_step.dispatch)
  next
    assume "outside_step env s t"
    then show ?thesis
    proof (cases rule: outside_step.cases)
      case (interrogate conn box asdu qoi now r b)
      then show ?thesis
        using world_step.interrogate [of "socket_loop_env env" "se_station env" "se_order env" conn box
            asdu qoi now "sw_world s" r b] by simp
    qed simp
  qed
  then show ?thesis by auto
qed

lemma socket_run_world:
  "(socket_step env)\<^sup>*\<^sup>* s t \<Longrightarrow>
     (world_step (socket_loop_env env) (se_station env) (se_order env))\<^sup>*\<^sup>* (sw_world s) (sw_world t)"
  by (induction rule: rtranclp_induct) (auto dest: socket_step_world)

text \<open>One turn and the forwarding of what it yields are the body of the client's loop.\<close>

lemma turn_is_forward_one_line:
  assumes "ct_phase c = ReadingLine"
    and "client_turn env i c out = (c', out')"
    and "s = \<lparr>cl_reader = ct_reader c, cl_replies = out, cl_sent = sent\<rparr>"
  shows "forward_one_line (client_env env i) s =
    (case ct_phase c' of
       ReadingLine \<Rightarrow> (Inr True, s\<lparr>cl_reader := ct_reader c', cl_replies := out'\<rparr>)
     | Forwarding incoming \<Rightarrow>
         (Inr True, s\<lparr>cl_reader := ct_reader c', cl_replies := out', cl_sent := sent @ [incoming]\<rparr>)
     | Ended (Inl e) \<Rightarrow> (Inl e, s\<lparr>cl_reader := ct_reader c', cl_replies := out'\<rparr>)
     | Ended (Inr _) \<Rightarrow> (Inr False, s\<lparr>cl_reader := ct_reader c', cl_replies := out'\<rparr>)
     | Authorizing \<Rightarrow> (Inr True, s))"
  using assms
  by (auto simp: client_turn_def forward_one_line_def client_env_def forward_unix_message_def
      split: prod.splits sum.splits option.splits)

section \<open>Every run ends\<close>

text \<open>
  The work left: what the tasks can still do on what the peers send. A byte stands for at most one
  line, and a line for reading, forwarding and the three parts of the handler.
\<close>

fun backlog_work :: "(io_error, Connection) result \<Rightarrow> nat" where
  "backlog_work (Inr conn) = 3 + 5 * length (unread (cn_input conn))"
| "backlog_work (Inl e) = 5"

definition client_work :: "Client \<Rightarrow> nat" where
  "client_work c =
     (case ct_phase c of
        Authorizing \<Rightarrow> 2 + 5 * length (unread (ct_reader c))
      | ReadingLine \<Rightarrow> 1 + 5 * length (unread (ct_reader c))
      | Forwarding incoming \<Rightarrow> 5 + 5 * length (unread (ct_reader c))
      | Ended r \<Rightarrow> 0)"

definition accept_work :: "AcceptPhase \<Rightarrow> nat" where
  "accept_work a = (case a of SendingError e \<Rightarrow> 4 | _ \<Rightarrow> 0)"

definition loop_work :: "'k LoopPhase \<Rightarrow> nat" where
  "loop_work p = (case p of Idle \<Rightarrow> 0 | Cached now incoming \<Rightarrow> 2 | Dispatched now incoming d \<Rightarrow> 1)"

definition remaining :: "('c \<Rightarrow> item list) \<Rightarrow> 'c SocketWorld \<Rightarrow> nat" where
  "remaining queued s =
     sum_list (map backlog_work (sw_backlog s)) + accept_work (sw_accept s) +
     sum_list (map client_work (sw_clients s)) + 3 * length (queued (sw_channel s)) +
     loop_work (wd_phase (sw_world s)) + (if sw_outcome s = None then 1 else 0)"

lemma sum_list_update_less:
  assumes "i < length xs" and "f y + d \<le> f (xs ! i)"
  shows "sum_list (map f (xs[i := y])) + (d :: nat) \<le> sum_list (map f xs)"
  using assms by (induction xs arbitrary: i) (auto simp: nth_Cons split: nat.splits)

lemma client_turn_work:
  assumes "client_turn env i c out = (c', out')" and "ct_phase c \<in> {Authorizing, ReadingLine}"
  shows "client_work c' < client_work c"
proof (cases "ct_phase c")
  case Authorizing
  with assms show ?thesis
    by (auto simp: client_turn_def client_work_def split: sum.splits prod.splits)
next
  case ReadingLine
  have "length (unread (snd (read_unix_client_line (ct_reader c)))) < length (unread (ct_reader c))"
    if "read_unix_client_line (ct_reader c) = (Inr (Some x), reader)" for x reader
    using read_line_consumes [OF that] that by simp
  with ReadingLine assms show ?thesis
    by (fastforce simp: client_turn_def client_work_def split: sum.splits prod.splits option.splits)
qed (use assms(2) in auto)

text \<open>The contract on a channel of messages, which the lemmas about runs need.\<close>

locale item_channel = channel ch queued room
  for ch :: "('c, item) mpsc" and queued :: "'c \<Rightarrow> item list" and room :: "'c \<Rightarrow> nat"
begin

lemma work_decreases:
  assumes "work_step env s t" and "se_channel env = ch"
  shows "remaining queued t < remaining queued s"
  using assms(1)
proof (cases rule: work_step.cases)
  case (send_accept_error e c)
  with sent [of "Inl e" "sw_channel s" c] assms(2) show ?thesis
    by (simp add: remaining_def accept_work_def)
next
  case (client i c out)
  have "sum_list (map client_work ((sw_clients s)[i := c])) + 1 \<le> sum_list (map client_work (sw_clients s))"
    by (rule sum_list_update_less) (use client_turn_work [OF client(4,3)] client(2) in auto)
  with client show ?thesis by (simp add: remaining_def set_writers_def)
next
  case (forward i incoming c)
  have "sum_list (map client_work ((sw_clients s)[i := (sw_clients s ! i)\<lparr>ct_phase := ReadingLine\<rparr>])) + 4
      \<le> sum_list (map client_work (sw_clients s))"
    by (rule sum_list_update_less) (use forward in \<open>auto simp: client_work_def\<close>)
  with forward sent [of "Inr (tag_ack i incoming)" "sw_channel s" c] assms(2) show ?thesis
    by (simp add: remaining_def)
next
  case (forward_closed i incoming)
  have "sum_list (map client_work ((sw_clients s)[i := (sw_clients s ! i)\<lparr>ct_phase := Ended (Inr ())\<rparr>])) + 5
      \<le> sum_list (map client_work (sw_clients s))"
    by (rule sum_list_update_less) (use forward_closed in \<open>auto simp: client_work_def\<close>)
  with forward_closed show ?thesis by (simp add: remaining_def)
next
  case (receive_error e c)
  with received [of "sw_channel s" "Inl e" c] assms(2) show ?thesis by (simp add: remaining_def)
next
  case (receive incoming c now)
  with received [of "sw_channel s" "Inr incoming" c] assms(2) show ?thesis
    by (simp add: remaining_def loop_work_def)
qed (simp_all add: remaining_def accept_work_def client_work_def loop_work_def spawn_client_def)

lemma outside_keeps_work:
  "outside_step env s t \<Longrightarrow> remaining queued t \<le> remaining queued s"
  by (erule outside_stepE) (auto simp: remaining_def)

lemma outside_run_keeps_work:
  "(outside_step env)\<^sup>*\<^sup>* s t \<Longrightarrow> remaining queued t \<le> remaining queued s"
  by (induction rule: rtranclp_induct) (auto dest: outside_keeps_work)

lemma work_is_bounded:
  assumes "(((outside_step env)\<^sup>*\<^sup>* OO work_step env) ^^ n) s t" and "se_channel env = ch"
  shows "n + remaining queued t \<le> remaining queued s"
  using assms(1)
proof (induction n arbitrary: t)
  case (Suc n)
  then obtain u v where "(((outside_step env)\<^sup>*\<^sup>* OO work_step env) ^^ n) s u"
    "(outside_step env)\<^sup>*\<^sup>* u v" "work_step env v t" by auto
  with Suc.IH [of u] work_decreases [OF _ assms(2), of v t] outside_run_keeps_work [of env u v]
  show ?case by simp
qed simp

end

interpretation list_items: item_channel list_channel snd fst
  by unfold_locales

end
