(* ===== verification/CacheHistory.thy ===== *)
theory CacheHistory
  imports Supervisor
begin

text \<open>
  The cache of \<open>src/src/main.rs\<close> against the history of the message loop, in every interleaving of
  message handling, interrogations and acknowledgements: at any moment the cache is the abstract
  cache of what has been received so far, and that is what an interrogation at that moment answers.
\<close>

section \<open>The history\<close>

text \<open>What the loop has received: the messages it is finished with and the one it is handling.\<close>

fun in_hand :: "'k LoopPhase \<Rightarrow> (OffsetDateTime \<times> 'k IncomingMessage) list" where
  "in_hand Idle = []"
| "in_hand (Cached now incoming) = [(now, incoming)]"
| "in_hand (Dispatched now incoming dispatched) = [(now, incoming)]"

definition received :: "('k, 't) World \<Rightarrow> (OffsetDateTime \<times> 'k IncomingMessage) list" where
  "received w = map (\<lambda>(now, incoming, _). (now, incoming)) (wd_acked w) @ in_hand (wd_phase w)"

definition history_ok :: "('k, 't) LoopEnv \<Rightarrow> ('k, 't) World \<Rightarrow> bool" where
  "history_ok env w \<longleftrightarrow> br_store (wd_bridge w) = (\<lambda>key. last_received env key (received w))"

lemma last_received_snoc:
  "(\<lambda>key. last_received env key (hs @ [(now, incoming)])) =
     (\<lambda>key. last_received env key hs)(incoming_key env incoming \<mapsto>
       \<lparr>cp_message = in_message incoming, cp_received_at = now\<rparr>)"
  by (rule ext) (simp add: last_received_def)

lemma last_received_iff:
  "(\<exists>point. last_received env key hs = Some point) \<longleftrightarrow> key \<in> (\<lambda>h. incoming_key env (snd h)) ` set hs"
  by (induction hs)
    (auto simp: last_received_Cons split: option.splits, auto simp: last_received_def)

lemma history_step:
  assumes "world_step env station order w w'" and "history_ok env w"
  shows "history_ok env w' \<and> (\<exists>more. received w' = received w @ more)"
  using assms(1)
proof (cases rule: world_step.cases)
  case (receive now incoming)
  then show ?thesis
    using assms(2) by (simp add: history_ok_def received_def last_received_snoc)
next
  case (dispatch now incoming dispatched b)
  then show ?thesis
    using assms(2) dispatch_incoming_effect [OF dispatch(3)] by (simp add: history_ok_def received_def)
next
  case (acknowledge now incoming dispatched r b)
  then show ?thesis
    using assms(2) acknowledge_effect [OF acknowledge(3)] by (simp add: history_ok_def received_def)
next
  case (interrogate conn box asdu qoi now r b)
  then show ?thesis
    using assms(2) interrogation_effect [OF interrogate(2)] by (simp add: history_ok_def received_def)
next
  case (others t)
  then show ?thesis using assms(2) by (simp add: history_ok_def received_def)
qed

lemma history_reachable:
  assumes "(world_step env station order)\<^sup>*\<^sup>* w w'" and "history_ok env w"
  shows "history_ok env w' \<and> (\<exists>more. received w' = received w @ more)"
  using assms
proof (induction rule: rtranclp_induct)
  case (step w1 w2)
  then show ?case using history_step [of env station order w1 w2] by fastforce
qed simp

lemma history_start: "br_store b = Map.empty \<Longrightarrow> history_ok env (world_start b)"
  by (simp add: history_ok_def world_start_def received_def last_received_def)

section \<open>Properties\<close>



end
