(* ===== verification/LibraryUse.thy ===== *)
theory LibraryUse
  imports CacheHistory
begin

text \<open>
  How the whole bridge uses the C library: the live path of \<open>src/src/bridge.rs\<close> and the
  interrogation handler of \<open>src/src/main.rs\<close>, on the heap that replaying the log of foreign calls
  gives. Whatever the threads do and the library answers, between any two steps of the bridge the
  library holds no object of ours, and the server was handed the points of the messages in order,
  except those whose objects the library refused to create.
\<close>

section \<open>What the server was handed\<close>

fun for_server :: "Delivery \<Rightarrow> bool" where
  "for_server (Enqueued srv content) = True"
| "for_server (ServerSinglePointOut cause ca ioa v q) = True"
| "for_server (ServerMeasuredFloatOut cause ca ioa x q) = True"
| "for_server (ServerMeasuredScaledOut cause ca ioa n q) = True"
| "for_server _ = False"

definition server_out :: "Heap \<Rightarrow> Delivery list" where
  "server_out h = filter for_server (heap_out h)"

lemma server_out_hand_over [simp]:
  "server_out (hand_over d h) = server_out h @ (if for_server d then [d] else [])"
  by (simp add: server_out_def hand_over_def)

lemma heap_hand_over [simp]: "heap_io (hand_over d h) = heap_io h" "heap_asdu (hand_over d h) = heap_asdu h"
  by (simp_all add: hand_over_def)

text \<open>The delivery of one point by the live sink.\<close>

definition server_delivery :: "CS104_Slave \<Rightarrow> PointRequest \<Rightarrow> Delivery" where
  "server_delivery server =
     render ServerSinglePointOut ServerMeasuredFloatOut ServerMeasuredScaledOut
       (\<lambda>td. Enqueued server (single_header (td_cot td) (td_ca td), [timed_object td]))"

text \<open>
  Whether the library creates what it takes to hand a point to the server, when it is asked after
  the calls \<open>before\<close>: a time-tagged point needs an information object and an ASDU, the convenience
  methods for the others need nothing.
\<close>

fun lib_builds :: "native_env \<Rightarrow> call_log \<Rightarrow> PointRequest \<Rightarrow> bool" where
  "lib_builds env before (ReqTimed td) =
     (let p = ret_create_io env before (timed_object td);
          a = ret_create_asdu env (before @ [CreateIO (timed_object td) p])
                (single_header (td_cot td) (td_ca td))
      in p \<noteq> 0 \<and> a \<noteq> 0)"
| "lib_builds env before _ = True"

definition never_null :: "native_env \<Rightarrow> bool" where
  "never_null env \<longleftrightarrow>
     (\<forall>calls io hdr. ret_create_io env calls io \<noteq> 0 \<and> ret_create_asdu env calls hdr \<noteq> 0)"

lemma never_null_builds: "never_null env \<Longrightarrow> lib_builds env before req"
  by (cases req) (simp_all add: never_null_def Let_def)

lemma enqueue_timed_builds:
  assumes "enqueue_timed_asdu env (td\<lparr>td_server_ptr := Some server\<rparr>) calls = (queued, calls')"
  shows "queued \<longleftrightarrow> lib_builds env calls (ReqTimed td)"
  using assms
  by (auto simp: enqueue_timed_asdu_def timed_asdu_def create_information_object_def create_io_def
      single_object_asdu_def single_header_def timed_object_def Let_def split: prod.splits option.splits if_splits)

text \<open>Two heaps with the same objects, and the deliveries to the server between them.\<close>

definition delivers :: "call_log \<Rightarrow> Heap \<Rightarrow> Delivery list \<Rightarrow> bool" where
  "delivers calls h ds \<longleftrightarrow>
     (\<exists>h'. heap_after calls = Some h' \<and> heap_io h' = heap_io h \<and> heap_asdu h' = heap_asdu h \<and>
       server_out h' = server_out h @ ds)"

lemma deliversI:
  "heap_after calls = Some h' \<Longrightarrow> heap_io h' = heap_io h \<Longrightarrow> heap_asdu h' = heap_asdu h \<Longrightarrow>
     server_out h' = server_out h @ ds \<Longrightarrow> delivers calls h ds"
  by (auto simp: delivers_def)

context native_lib
begin

lemma live_perform_delivers:
  assumes "heap_after calls = Some h"
  shows "delivers (perform (LiveSink env server) req calls) h
    (if lib_builds env calls req then [server_delivery server req] else [])"
proof (cases req)
  case (ReqTimed td)
  obtain queued calls' where run:
    "enqueue_timed_asdu env (td\<lparr>td_server_ptr := Some server\<rparr>) calls = (queued, calls')" by fastforce
  from enqueue_timed_heap [OF assms run] enqueue_timed_builds [OF run] show ?thesis
    by (auto simp: ReqTimed LiveSink_def run server_delivery_def hand_over_def server_out_def
        delivers_def simp del: lib_builds.simps)
qed (use assms in \<open>auto simp: LiveSink_def server_delivery_def heap_after_append hand_over_def
    server_out_def delivers_def\<close>)

lemma connection_perform_delivers:
  assumes "heap_after (conn_calls s) = Some h"
  shows "delivers (conn_calls (perform (ConnectionSink env conn) req s)) h []"
proof -
  have untimed: "delivers (snd (send_untimed_to_connection env conn cause ca ioa v q (conn_calls s))) h []"
    for cause ca ioa v q
    using send_untimed_heap [OF assms, of conn cause ca ioa v q]
    by (cases "send_untimed_to_connection env conn cause ca ioa v q (conn_calls s)")
      (auto simp: delivers_def hand_over_def server_out_def)
  have timed: "delivers (snd (send_timed_to_connection env conn td (conn_calls s))) h []" for td
    using send_timed_heap [OF assms, of conn td]
    by (cases "send_timed_to_connection env conn td (conn_calls s)")
      (auto simp: delivers_def hand_over_def server_out_def)
  show ?thesis
    using untimed timed by (cases req) (simp_all add: ConnectionSink_def send_untimed_def)
qed

text \<open>The whole interrogation hands nothing to the server and leaves nothing behind.\<close>

lemma interrogation_delivers:
  assumes "heap_after (br_calls b) = Some h"
    and "interrogation_handler env station order default_ca policy conn box asdu qoi now b = (r, b')"
  shows "delivers (br_calls b') h []"
proof (cases "qoi = station")
  case False
  with assms show ?thesis
    by (auto simp: interrogation_handler_def Let_def delivers_def heap_after_append)
next
  case True
  let ?calls = "br_calls b @ [SendActCon conn (sa_buffer (PinnedAsdu_copy_of box asdu)) False
    (ret_act_con env (br_calls b) conn False)]"
  let ?s = "replay_cached_values (ConnectionSink env conn) order (br_store b) default_ca policy now
    (ConnectionSink_new ?calls)"
  have "delivers (conn_calls (ConnectionSink_new ?calls)) h []"
    using assms(1) by (auto simp: ConnectionSink_new_def delivers_def heap_after_append)
  then have "delivers (conn_calls ?s) h []"
    unfolding replay_cached_values_def
  proof (rule fold_preserves [where I = "\<lambda>s. delivers (conn_calls s) h []", rotated])
    fix key and s :: ConnectionState
    assume "delivers (conn_calls s) h []"
    then obtain h1 where h1: "heap_after (conn_calls s) = Some h1" "heap_io h1 = heap_io h"
      "heap_asdu h1 = heap_asdu h" "server_out h1 = server_out h" by (auto simp: delivers_def)
    from connection_perform_delivers [OF this(1), of conn] h1
    show "delivers (conn_calls (case br_store b key of None \<Rightarrow> s | Some point \<Rightarrow>
        let ca = unwrap_or (msg_ca (cp_message point)) default_ca
        in dispatch_outgoing (ConnectionSink env conn) (gi_outgoing now policy point) ca s)) h []"
      by (auto simp: dispatch_outgoing_performs Let_def delivers_def split: option.split)
  qed
  moreover have "br_calls b' = conn_calls ?s @
      [SendActTerm conn (sa_buffer (PinnedAsdu_copy_of box asdu)) (ret_act_term env (conn_calls ?s) conn)]"
    using assms(2) True by (auto simp: interrogation_handler_def Let_def count_gi_response_def)
  ultimately show ?thesis by (auto simp: delivers_def heap_after_append)
qed

end

section \<open>All threads\<close>

text \<open>The messages whose dispatch has run, and what the live sink makes of each.\<close>

definition message_request ::
  "('k, 't) LoopEnv \<Rightarrow> OffsetDateTime \<times> 'k IncomingMessage \<Rightarrow> PointRequest" where
  "message_request env = (\<lambda>(now, incoming).
     point_request (fst (incoming_key env incoming))
       (prepare_for_output (in_message incoming) now now (le_policy env)))"

definition dispatched_messages :: "('k, 't) World \<Rightarrow> (OffsetDateTime \<times> 'k IncomingMessage) list" where
  "dispatched_messages w =
     map (\<lambda>(now, incoming, _). (now, incoming)) (wd_acked w) @
     (case wd_phase w of Dispatched now incoming _ \<Rightarrow> [(now, incoming)] | _ \<Rightarrow> [])"

text \<open>
  When each message was dispatched, by the calls made before: these logs grow strictly from one
  message to the next and up to now. What the server is handed are the points, in order, that the
  library built at their moment.
\<close>

definition dispatch_moments :: "call_log \<Rightarrow> PointRequest list \<Rightarrow> call_log list \<Rightarrow> bool" where
  "dispatch_moments calls reqs moments \<longleftrightarrow>
     length moments = length reqs \<and> sorted_wrt strict_prefix (moments @ [calls])"

definition built_deliveries ::
  "native_env \<Rightarrow> CS104_Slave \<Rightarrow> call_log list \<Rightarrow> PointRequest list \<Rightarrow> Delivery list" where
  "built_deliveries env server moments reqs =
     map (server_delivery server \<circ> snd) (filter (\<lambda>(before, req). lib_builds env before req) (zip moments reqs))"

lemma dispatch_moments_grow:
  assumes "dispatch_moments calls reqs moments" and "prefix calls calls'"
  shows "dispatch_moments calls' reqs moments"
  using assms by (auto simp: dispatch_moments_def sorted_wrt_append dest: prefix_order.less_le_trans)

lemma dispatch_moments_snoc:
  assumes "dispatch_moments calls reqs moments" and "strict_prefix calls calls'"
  shows "dispatch_moments calls' (reqs @ [req]) (moments @ [calls])"
  using assms by (auto simp: dispatch_moments_def sorted_wrt_append dest: prefix_order.less_trans)

lemma built_deliveries_snoc:
  "length moments = length reqs \<Longrightarrow>
     built_deliveries env server (moments @ [calls]) (reqs @ [req]) =
       built_deliveries env server moments reqs @
         (if lib_builds env calls req then [server_delivery server req] else [])"
  by (simp add: built_deliveries_def)

lemma built_deliveries_all:
  "never_null env \<Longrightarrow> length moments = length reqs \<Longrightarrow>
     built_deliveries env server moments reqs = map (server_delivery server) reqs"
  by (simp add: built_deliveries_def never_null_builds case_prod_unfold flip: map_map)

text \<open>A request is among the deliveries, or there was a moment when the library refused it.\<close>

lemma built_or_refused:
  assumes "dispatch_moments calls reqs moments" and "req \<in> set reqs"
  shows "server_delivery server req \<in> set (built_deliveries env server moments reqs) \<or>
    (\<exists>before. strict_prefix before calls \<and> \<not> lib_builds env before req)"
proof -
  obtain before where pair: "(before, req) \<in> set (zip moments reqs)"
    using assms by (auto simp: dispatch_moments_def in_set_conv_nth set_zip)
  then have "strict_prefix before calls"
    using assms(1) by (auto simp: dispatch_moments_def sorted_wrt_append dest: set_zip_leftD)
  with pair show ?thesis by (force simp: built_deliveries_def)
qed

definition library_clear ::
  "('k, 't) LoopEnv \<Rightarrow> call_log \<Rightarrow> (OffsetDateTime \<times> 'k IncomingMessage) list \<Rightarrow> Heap \<Rightarrow> bool" where
  "library_clear env calls messages h \<longleftrightarrow>
     heap_io h = Map.empty \<and> heap_asdu h = Map.empty \<and>
     (if le_gi_only env then server_out h = []
      else \<exists>moments. dispatch_moments calls (map (message_request env) messages) moments \<and>
        server_out h = built_deliveries (le_native env) (le_server env) moments (map (message_request env) messages))"

definition library_ok :: "('k, 't) LoopEnv \<Rightarrow> ('k, 't) World \<Rightarrow> bool" where
  "library_ok env w \<longleftrightarrow>
     (\<exists>h. heap_after (br_calls (wd_bridge w)) = Some h \<and>
       library_clear env (br_calls (wd_bridge w)) (dispatched_messages w) h)"

lemma dispatch_incoming_calls:
  assumes "dispatch_incoming env now incoming b = (dispatched, b')"
  shows "br_calls b' = (if le_gi_only env then br_calls b
    else perform (LiveSink (le_native env) (le_server env)) (message_request env (now, incoming)) (br_calls b))"
  using assms
  by (auto simp: dispatch_incoming_def dispatch_message_if_enabled_def message_request_def
      dispatch_outgoing_performs Let_def)

lemma library_clear_grow:
  assumes "library_clear env calls messages h" and "delivers calls' h []" and "prefix calls calls'"
  shows "\<exists>h'. heap_after calls' = Some h' \<and> library_clear env calls' messages h'"
proof -
  obtain h' where h': "heap_after calls' = Some h'" "heap_io h' = heap_io h" "heap_asdu h' = heap_asdu h"
    "server_out h' = server_out h" using assms(2) by (auto simp: delivers_def)
  with assms(1) have "library_clear env calls' messages h'"
    by (fastforce simp: library_clear_def dest: dispatch_moments_grow [OF _ assms(3)])
  with h'(1) show ?thesis by blast
qed

lemma live_perform_extends: "strict_prefix calls (perform (LiveSink env server) req calls)"
proof -
  have "points (perform (LiveSink env server) req calls) \<noteq> points calls"
    by (cases req) (simp_all add: LiveSink_def points_enqueue_timed)
  moreover have "prefix calls (perform (LiveSink env server) req calls)"
    using enqueue_timed_extends by (cases req) (auto simp: LiveSink_def prefix_def)
  ultimately show ?thesis by (auto simp: strict_prefix_def)
qed

lemma library_clear_dispatch:
  fixes env :: "('k, 't) LoopEnv" and m :: "OffsetDateTime \<times> 'k IncomingMessage"
  assumes fresh: "fresh_allocator (le_native env)"
    and h: "heap_after calls = Some h" "library_clear env calls messages h" and "\<not> le_gi_only env"
  defines "calls' \<equiv> perform (LiveSink (le_native env) (le_server env)) (message_request env m) calls"
  shows "\<exists>h'. heap_after calls' = Some h' \<and> library_clear env calls' (messages @ [m]) h'"
proof -
  obtain moments where moments: "dispatch_moments calls (map (message_request env) messages) moments"
    and out: "server_out h = built_deliveries (le_native env) (le_server env) moments
      (map (message_request env) messages)"
    and clear: "heap_io h = Map.empty" "heap_asdu h = Map.empty"
    using h(2) assms(4) by (auto simp: library_clear_def)
  obtain h' where h': "heap_after calls' = Some h'" "heap_io h' = heap_io h" "heap_asdu h' = heap_asdu h"
    "server_out h' = server_out h @ (if lib_builds (le_native env) calls (message_request env m)
       then [server_delivery (le_server env) (message_request env m)] else [])"
    using native_lib.live_perform_delivers [OF native_lib.intro [OF fresh] h(1)]
    unfolding calls'_def delivers_def by blast
  have len: "length moments = length (map (message_request env) messages)"
    using moments by (simp add: dispatch_moments_def)
  have "dispatch_moments calls' (map (message_request env) (messages @ [m])) (moments @ [calls])"
    using dispatch_moments_snoc [OF moments live_perform_extends] by (simp add: calls'_def)
  moreover have "server_out h' = built_deliveries (le_native env) (le_server env) (moments @ [calls])
      (map (message_request env) (messages @ [m]))"
    using built_deliveries_snoc [OF len] h'(4) out by simp
  ultimately have "library_clear env calls' (messages @ [m]) h'"
    using clear h'(2,3) assms(4) by (auto simp: library_clear_def)
  with h'(1) show ?thesis by blast
qed

lemma library_step:
  assumes fresh: "fresh_allocator (le_native env)"
    and "world_step env station order w w'" and ok: "library_ok env w"
  shows "library_ok env w'"
  using assms(2)
proof (cases rule: world_step.cases)
  case (receive now incoming)
  with ok show ?thesis
    by (simp add: library_ok_def dispatched_messages_def cache_incoming_def store_insert_def)
next
  case (dispatch now incoming dispatched b)
  obtain h where h: "heap_after (br_calls (wd_bridge w)) = Some h"
    "library_clear env (br_calls (wd_bridge w)) (dispatched_messages w) h"
    using ok by (auto simp: library_ok_def)
  have w': "dispatched_messages w' = dispatched_messages w @ [(now, incoming)]" "wd_bridge w' = b"
    using dispatch by (simp_all add: dispatched_messages_def)
  show ?thesis
  proof (cases "le_gi_only env")
    case True
    with h dispatch_incoming_calls [OF dispatch(3)] show ?thesis
      unfolding library_ok_def w' by (auto simp: library_clear_def)
  next
    case False
    from library_clear_dispatch [OF fresh h this, of "(now, incoming)"] dispatch_incoming_calls [OF dispatch(3)]
      False show ?thesis unfolding library_ok_def w' by simp
  qed
next
  case (acknowledge now incoming dispatched r b)
  then have "br_calls b = br_calls (wd_bridge w)"
    using acknowledge_effect by blast
  with ok acknowledge(1,2) show ?thesis by (simp add: library_ok_def dispatched_messages_def)
next
  case (interrogate conn box asdu qoi now r b)
  obtain h where h: "heap_after (br_calls (wd_bridge w)) = Some h"
    "library_clear env (br_calls (wd_bridge w)) (dispatched_messages w) h"
    using ok by (auto simp: library_ok_def)
  have "prefix (br_calls (wd_bridge w)) (br_calls b)"
    using interrogation_effect [OF interrogate(2)] by (auto simp: grows_def)
  from library_clear_grow [OF h(2) native_lib.interrogation_delivers [OF native_lib.intro [OF fresh] h(1) interrogate(2)] this]
    interrogate(1)
  show ?thesis by (simp add: library_ok_def dispatched_messages_def)
next
  case (others t)
  with ok show ?thesis by (simp add: library_ok_def dispatched_messages_def)
qed

lemma library_reachable:
  assumes "fresh_allocator (le_native env)"
    and "(world_step env station order)\<^sup>*\<^sup>* (world_start b) w" and "br_calls b = []"
  shows "library_ok env w"
  using assms(2)
proof (induction rule: rtranclp_induct)
  case base
  show ?case
    using assms(3) by (simp add: library_ok_def library_clear_def world_start_def heap_after_def empty_heap_def
        dispatched_messages_def server_out_def dispatch_moments_def built_deliveries_def)
qed (use library_step [OF assms(1)] in blast)

lemma acked_dispatched: "(now, incoming, acked) \<in> set (wd_acked w) \<Longrightarrow> (now, incoming) \<in> set (dispatched_messages w)"
  by (force simp: dispatched_messages_def)

lemma acked_received: "(now, incoming, acked) \<in> set (wd_acked w) \<Longrightarrow> (now, incoming) \<in> set (received w)"
  by (force simp: received_def)

section \<open>Properties\<close>

text \<open>C6: In every interleaving of message handling, interrogations and source tasks, whatever the
  library answers, no foreign object is used after it is freed, freed twice, or left behind: between
  two steps the library holds no information object and no ASDU of the bridge. The server was
  handed, in the order of handling, exactly one point per dispatched message, except for each
  time-tagged point for which the library itself, asked at the moment of that message, returned
  null for the object or its ASDU; with a library that never returns null none is missing. In
  GI-only mode the server was handed nothing.\<close>

theorem library_used_safely:
  assumes "fresh_allocator (le_native env)"
    and "(world_step env station order)\<^sup>*\<^sup>* (world_start b) w" and "br_calls b = []"
  defines "reqs \<equiv> map (message_request env) (dispatched_messages w)"
    and "calls \<equiv> br_calls (wd_bridge w)"
  shows "\<exists>h. heap_after calls = Some h \<and> heap_io h = Map.empty \<and> heap_asdu h = Map.empty \<and>
    (if le_gi_only env then server_out h = []
     else (\<exists>moments. dispatch_moments calls reqs moments \<and>
         server_out h = map (server_delivery (le_server env) \<circ> snd)
           (filter (\<lambda>(before, req). lib_builds (le_native env) before req) (zip moments reqs))) \<and>
       (never_null (le_native env) \<longrightarrow> server_out h = map (server_delivery (le_server env)) reqs))"
proof -
  obtain h where h: "heap_after calls = Some h" and clear: "library_clear env calls (dispatched_messages w) h"
    using library_reachable [OF assms(1-3)] by (auto simp: library_ok_def calls_def)
  have all: "never_null (le_native env) \<longrightarrow> server_out h = map (server_delivery (le_server env)) reqs"
    if "\<not> le_gi_only env"
    using clear that by (auto simp: library_clear_def built_deliveries_all dispatch_moments_def reqs_def)
  show ?thesis
    using h clear all unfolding library_clear_def built_deliveries_def reqs_def by (intro exI [of _ h]) simp
qed

text \<open>A timed and an untimed message, on a library that never returns null.\<close>

definition toy_world :: "(string, replies) World" where
  "toy_world =
     (let m1 = message_with_ack timed_message; m2 = message_with_ack toy_message;
          b1 = snd (handle_incoming_message toy_loop_env (OffsetDateTime 5) m1 toy_bridge);
          b2 = snd (handle_incoming_message toy_loop_env (OffsetDateTime 6) m2 b1)
      in \<lparr>wd_phase = Idle, wd_bridge = b2,
          wd_acked = [(OffsetDateTime 5, m1, True), (OffsetDateTime 6, m2, True)]\<rparr>)"

lemma toy_handle_acknowledges: "fst (handle_incoming_message toy_loop_env now (message_with_ack m) b) = Inr ()"
  by (simp add: handle_incoming_message_def acknowledge_incoming_def toy_loop_env_def ack_def
      message_with_ack_def with_ack_def Let_def split: prod.split)

lemma toy_world_reachable: "(world_step toy_loop_env 20 order)\<^sup>*\<^sup>* (world_start toy_bridge) toy_world"
proof -
  let ?m1 = "message_with_ack timed_message" and ?m2 = "message_with_ack toy_message"
  obtain b1 where r1: "handle_incoming_message toy_loop_env (OffsetDateTime 5) ?m1 toy_bridge = (Inr (), b1)"
    using toy_handle_acknowledges by (metis prod.collapse)
  obtain b2 where r2: "handle_incoming_message toy_loop_env (OffsetDateTime 6) ?m2 b1 = (Inr (), b2)"
    using toy_handle_acknowledges by (metis prod.collapse)
  from handle_is_three_steps [OF r1, of 20 order "[]"]
    handle_is_three_steps [OF r2, of 20 order "[(OffsetDateTime 5, ?m1, True)]"]
  show ?thesis by (simp add: toy_world_def world_start_def r1 r2 Let_def)
qed

lemma toy_requests:
  "message_request toy_loop_env (t, message_with_ack toy_message) = ReqSingle COT_Spontaneous 1 1 True 0"
  "message_request toy_loop_env (t, message_with_ack timed_message) =
     ReqTimed \<lparr>td_server_ptr = None, td_cot = COT_Spontaneous, td_ca = 1, td_ioa = 1, td_value = Bool True,
       td_data_type = SinglePoint, td_quality = 0, td_timestamp = Timestamp_from_ms 2\<rparr>"
  by (simp_all add: message_request_def incoming_key_def toy_loop_env_def toy_message_def timed_message_def
      message_with_ack_def with_ack_def prepare_for_output_def OutputPolicy_default_def
      point_request_def effective_type_def wire_quality_def elapsed_exceeds_def quality_bits
      offset_datetime_to_cp56_timestamp_def Let_def)

lemma toy_never_null: "never_null (le_native toy_loop_env)"
  by (simp add: never_null_def toy_loop_env_def queue_env_def next_handle_def)

theorem library_used_safely_witness:
  "\<exists>h. heap_after (br_calls (wd_bridge toy_world)) = Some h \<and> heap_asdu h = Map.empty \<and>
     server_out h =
       [Enqueued 3 (single_header COT_Spontaneous 1,
          [SinglePointWithCP56Time2a 1 True 0 (Timestamp_from_ms 2)]),
        ServerSinglePointOut COT_Spontaneous 1 1 True 0]"
proof -
  have fresh: "fresh_allocator (le_native toy_loop_env)"
    by (simp add: toy_loop_env_def queue_env_fresh)
  have env: "\<not> le_gi_only toy_loop_env" "le_server toy_loop_env = 3" by (simp_all add: toy_loop_env_def)
  have "dispatched_messages toy_world =
      [(OffsetDateTime 5, message_with_ack timed_message), (OffsetDateTime 6, message_with_ack toy_message)]"
    by (simp add: dispatched_messages_def toy_world_def Let_def)
  with library_used_safely [OF fresh toy_world_reachable [of "\<lambda>_. []"]] env toy_never_null show ?thesis
    by (auto simp: toy_requests server_delivery_def timed_object_def value_is_on_def toy_bridge_def)
qed

text \<open>C2: However message handling, interrogations and the tasks of the source interleave, a message
  whose acknowledgement has been attempted is in the cache under its key, and unless the bridge
  serves interrogations only its point is among what the server was handed by then. The one
  exception is disclosed: when the library returned null for the object or the ASDU of a
  time-tagged point, the code logs the failure and acknowledges the message all the same. The
  cache holds for each key the last message received, under its own address, and the dispatch
  counter is the number of acknowledged messages (0 in GI-only mode).\<close>

theorem acknowledged_after_cache_and_send:
  assumes "fresh_allocator (le_native env)"
    and "(world_step env station order)\<^sup>*\<^sup>* (world_start b) w"
    and "br_store b = Map.empty" and "br_metrics b = Metrics_default" and "br_calls b = []"
  shows "\<exists>h. heap_after (br_calls (wd_bridge w)) = Some h \<and>
    list_all (\<lambda>(now, incoming, _).
        incoming_key env incoming \<in> dom (br_store (wd_bridge w)) \<and>
        (le_gi_only env \<or>
         server_delivery (le_server env) (message_request env (now, incoming)) \<in> set (server_out h) \<or>
         (\<exists>before. strict_prefix before (br_calls (wd_bridge w)) \<and>
            \<not> lib_builds (le_native env) before (message_request env (now, incoming)))))
      (wd_acked w) \<and>
    br_store (wd_bridge w) = (\<lambda>key. last_received env key (received w)) \<and>
    store_keyed (le_default_ca env) (br_store (wd_bridge w)) \<and>
    messages_dispatched (br_metrics (wd_bridge w)) =
      (if le_gi_only env then 0 else of_nat (length (filter (\<lambda>(_, _, acked). acked) (wd_acked w))))"
proof -
  let ?calls = "br_calls (wd_bridge w)" and ?store = "br_store (wd_bridge w)"
  obtain h where h: "heap_after ?calls = Some h" and clear: "library_clear env ?calls (dispatched_messages w) h"
    using library_reachable [OF assms(1,2,5)] by (auto simp: library_ok_def)
  have store: "?store = (\<lambda>key. last_received env key (received w))"
    using history_reachable [OF assms(2) history_start [OF assms(3)]] by (simp add: history_ok_def)
  have sent: "server_delivery (le_server env) (message_request env (now, incoming)) \<in> set (server_out h) \<or>
      (\<exists>before. strict_prefix before ?calls \<and> \<not> lib_builds (le_native env) before (message_request env (now, incoming)))"
    if "(now, incoming, acked) \<in> set (wd_acked w)" and "\<not> le_gi_only env" for now incoming acked
    using clear that(2) imageI [OF acked_dispatched [OF that(1)], of "message_request env"]
      built_or_refused [where reqs = "map (message_request env) (dispatched_messages w)" and
        req = "message_request env (now, incoming)"]
    unfolding library_clear_def by fastforce
  have "\<exists>point. ?store (incoming_key env incoming) = Some point"
    if "(now, incoming, acked) \<in> set (wd_acked w)" for now incoming acked
    using last_received_iff [of env "incoming_key env incoming" "received w"] acked_received [OF that]
    unfolding store by force
  then have "list_all (\<lambda>(now, incoming, _). incoming_key env incoming \<in> dom ?store \<and> (le_gi_only env \<or>
      server_delivery (le_server env) (message_request env (now, incoming)) \<in> set (server_out h) \<or>
      (\<exists>before. strict_prefix before ?calls \<and>
        \<not> lib_builds (le_native env) before (message_request env (now, incoming))))) (wd_acked w)"
    using sent by (fastforce simp: list_all_iff)
  with h store world_reachable_ok [OF assms(2-4)] show ?thesis
    by (intro exI [of _ h]) (simp add: world_ok_def)
qed

theorem acknowledged_after_cache_and_send_witness:
  "br_store (wd_bridge toy_world) (1, 1) \<noteq> None \<and>
   messages_dispatched (br_metrics (wd_bridge toy_world)) = 2 \<and>
   (\<exists>h. heap_after (br_calls (wd_bridge toy_world)) = Some h \<and>
     Enqueued 3 (single_header COT_Spontaneous 1, [SinglePointWithCP56Time2a 1 True 0 (Timestamp_from_ms 2)])
       \<in> set (server_out h))"
proof -
  have fresh: "fresh_allocator (le_native toy_loop_env)"
    by (simp add: toy_loop_env_def queue_env_fresh)
  have env: "\<not> le_gi_only toy_loop_env" "le_server toy_loop_env = 3" by (simp_all add: toy_loop_env_def)
  have acked: "wd_acked toy_world = [(OffsetDateTime 5, message_with_ack timed_message, True),
      (OffsetDateTime 6, message_with_ack toy_message, True)]"
    by (simp add: toy_world_def Let_def)
  have key: "incoming_key toy_loop_env (message_with_ack toy_message) = (1, 1)"
    by (simp add: incoming_key_def message_with_ack_def with_ack_def toy_message_def toy_loop_env_def)
  have start: "br_store toy_bridge = Map.empty" "br_metrics toy_bridge = Metrics_default" "br_calls toy_bridge = []"
    by (simp_all add: toy_bridge_def)
  from acknowledged_after_cache_and_send [OF fresh toy_world_reachable [of "\<lambda>_. []"] start]
  show ?thesis
    by (auto simp: acked env key never_null_builds [OF toy_never_null] toy_requests server_delivery_def
        timed_object_def value_is_on_def)
qed

end
