(* ===== verification/SocketLiveness.thy ===== *)
theory SocketLiveness
  imports SocketServer LibraryUse
begin

text \<open>
  What the running Unix socket source guarantees: where every message of a client is at any time,
  that the stream of the source never ends by itself, that the channel bounds what waits, that a
  fair run answers every line of every client, and what one peer that does not read does to all.
\<close>

section \<open>Where the messages are\<close>

definition from_client :: "nat \<Rightarrow> token IncomingMessage \<Rightarrow> bool" where
  "from_client i incoming \<longleftrightarrow> (case ack_fn incoming of Some (j, reply) \<Rightarrow> j = i | None \<Rightarrow> False)"

definition handled_messages :: "('k, 't) World \<Rightarrow> 'k IncomingMessage list" where
  "handled_messages w = map (\<lambda>(now, incoming, _). incoming) (wd_acked w)"

definition in_hand :: "('k, 't) World \<Rightarrow> 'k IncomingMessage list" where
  "in_hand w =
     (case wd_phase w of
        Idle \<Rightarrow> []
      | Cached now incoming \<Rightarrow> [incoming]
      | Dispatched now incoming d \<Rightarrow> [incoming])"

definition messages_in :: "('e, 'a) result list \<Rightarrow> 'a list" where
  "messages_in items = List.map_filter (case_sum (\<lambda>_. None) Some) items"

lemma messages_in_simps [simp]:
  "messages_in [] = []" "messages_in (Inl e # xs) = messages_in xs"
  "messages_in (Inr x # xs) = x # messages_in xs"
  by (simp_all add: messages_in_def)

lemma messages_in_append [simp]: "messages_in (xs @ ys) = messages_in xs @ messages_in ys"
proof (induction xs)
  case (Cons x xs)
  then show ?case by (cases x) simp_all
qed simp

definition waiting :: "nat \<Rightarrow> Client \<Rightarrow> token IncomingMessage list" where
  "waiting i c = (case ct_phase c of Forwarding incoming \<Rightarrow> [tag_ack i incoming] | _ \<Rightarrow> [])"

definition under_way :: "('c \<Rightarrow> item list) \<Rightarrow> 'c SocketWorld \<Rightarrow> token IncomingMessage list" where
  "under_way queued s =
     handled_messages (sw_world s) @ in_hand (sw_world s) @ messages_in (queued (sw_channel s))"

definition flow :: "('c \<Rightarrow> item list) \<Rightarrow> nat \<Rightarrow> 'c SocketWorld \<Rightarrow> token IncomingMessage list" where
  "flow queued i s =
     filter (from_client i) (under_way queued s) @
     (if i < length (sw_clients s) then waiting i (sw_clients s ! i) else [])"

definition own_message :: "nat \<Rightarrow> Iec104Message \<Rightarrow> token IncomingMessage" where
  "own_message i m = tag_ack i (message_with_ack m)"

lemma own_message_simps [simp]:
  "from_client j (own_message i m) \<longleftrightarrow> i = j"
  "ack_fn (own_message i m) = Some (i, reply_ok)"
  "in_message (own_message i m) = m"
  by (auto simp: own_message_def from_client_def tag_ack_def message_with_ack_def with_ack_def)

section \<open>One turn of a client that is served\<close>

definition served_connection :: "'c SocketEnv \<Rightarrow> nat \<Rightarrow> Connection \<Rightarrow> bool" where
  "served_connection env i conn \<longleftrightarrow>
     (\<exists>peer. cn_peer conn = Inr peer \<and>
        check_peer_authorization peer (rt_allowed_uid (se_runtime env))
          (rt_allowed_gid (se_runtime env)) = None) \<and>
     \<not> read_fails (cn_input conn) \<and> list_all utf8 (lines_of (unread (cn_input conn))) \<and>
     (\<forall>out r. \<not> se_broken env i out r)"

definition connection_of :: "Client \<Rightarrow> Connection" where
  "connection_of c = \<lparr>cn_peer = ct_peer c, cn_input = ct_input c\<rparr>"

lemma connection_of_spawned [simp]: "connection_of (spawn_client conn) = conn"
  by (simp add: connection_of_def spawn_client_def)

text \<open>What the lines of a client come to: the messages they carry and the replies that reject.\<close>

definition accepted_messages :: "'c SocketEnv \<Rightarrow> nat \<Rightarrow> string list \<Rightarrow> token IncomingMessage list" where
  "accepted_messages env i lines =
     List.map_filter (\<lambda>line. case verdict (client_env env i) line of
        Accept m \<Rightarrow> Some (own_message i m) | Reject reply \<Rightarrow> None) lines"

definition rejections :: "'c SocketEnv \<Rightarrow> nat \<Rightarrow> string list \<Rightarrow> string list" where
  "rejections env i lines = List.map_filter (reply_of \<circ> verdict (client_env env i)) lines"

lemma map_filter_append: "List.map_filter f (xs @ ys) = List.map_filter f xs @ List.map_filter f ys"
  by (simp add: List.map_filter_def)

lemma lines_snoc:
  "accepted_messages env i (lines @ [line]) = accepted_messages env i lines @
     (case verdict (client_env env i) line of Accept m \<Rightarrow> [own_message i m] | Reject reply \<Rightarrow> [])"
  "rejections env i (lines @ [line]) = rejections env i lines @
     (case verdict (client_env env i) line of Accept m \<Rightarrow> [] | Reject reply \<Rightarrow> [reply])"
  by (cases "verdict (client_env env i) line",
      simp_all add: accepted_messages_def rejections_def map_filter_append)+

lemma served_turn:
  assumes served: "served_connection env i (connection_of c)"
    and reader: "\<not> read_fails (ct_reader c)" "list_all utf8 (lines_of (unread (ct_reader c)))"
    and phase: "ct_phase c \<in> {Authorizing, ReadingLine}"
    and turn: "client_turn env i c out = (c', out')"
  shows "(out' = out \<and> c' = c\<lparr>ct_phase := ReadingLine\<rparr>) \<or>
    (unread (ct_reader c) = [] \<and> out' = out \<and> c' = c\<lparr>ct_phase := Ended (Inr ())\<rparr>) \<or>
    (\<exists>line reader. lines_of (unread (ct_reader c)) = line # lines_of (unread reader) \<and> \<not> read_fails reader \<and>
      (case verdict (client_env env i) line of
         Reject reply \<Rightarrow> out' = out @ [reply] \<and> c' = c\<lparr>ct_reader := reader\<rparr> \<and> ct_phase c = ReadingLine
       | Accept m \<Rightarrow> out' = out \<and>
           c' = c\<lparr>ct_reader := reader, ct_phase := Forwarding (message_with_ack m)\<rparr>))"
proof (cases "ct_phase c = Authorizing")
  case True
  with served turn show ?thesis
    by (auto simp: client_turn_def served_connection_def connection_of_def authorize_unix_client_def)
next
  case False
  then have phase: "ct_phase c = ReadingLine" using phase by simp
  have r: "ct_reader c = \<lparr>unread = unread (ct_reader c), read_fails = False\<rparr>"
    using reader(1) by simp
  show ?thesis
  proof (cases "unread (ct_reader c) = []")
    case True
    have "read_unix_client_line (ct_reader c) = (Inr None, ct_reader c)"
      using True reader(1) by (simp add: read_unix_client_line_def)
    with turn phase True show ?thesis by (auto simp: client_turn_def)
  next
    case nonempty: False
    obtain line rest where lines: "lines_of (unread (ct_reader c)) = line # lines_of rest"
      and read: "read_unix_client_line \<lparr>unread = unread (ct_reader c), read_fails = False\<rparr> =
        (if utf8 line then (Inr (Some (line, length line)), \<lparr>unread = rest, read_fails = False\<rparr>)
         else (Inl ReadFailed, \<lparr>unread = rest, read_fails = False\<rparr>))"
      using lines_of_nonempty [OF nonempty] by metis
    have "read_unix_client_line (ct_reader c) =
        (Inr (Some (line, length line)), \<lparr>unread = rest, read_fails = False\<rparr>)"
      using read reader(2) lines r by simp
    moreover have "\<not> env_broken (client_env env i) out reply" for reply
      using served by (simp add: served_connection_def client_env_def)
    ultimately have "case verdict (client_env env i) line of
         Reject reply \<Rightarrow> out' = out @ [reply] \<and> c' = c\<lparr>ct_reader := \<lparr>unread = rest, read_fails = False\<rparr>\<rparr>
       | Accept m \<Rightarrow> out' = out \<and> c' = c\<lparr>ct_reader := \<lparr>unread = rest, read_fails = False\<rparr>,
           ct_phase := Forwarding (message_with_ack m)\<rparr>"
      using turn phase process_line_verdict [of "client_env env i" line out]
      by (cases "verdict (client_env env i) line") (auto simp: client_turn_def client_env_def)
    with lines phase show ?thesis
      by (intro disjI2 exI [of _ line] exI [of _ "\<lparr>unread = rest, read_fails = False\<rparr>"])
        (auto split: Verdict.split)
  qed
qed

section \<open>Invariants\<close>

text \<open>The messages under way carry the acknowledgement of the client they came from.\<close>

definition owned :: "nat \<Rightarrow> token IncomingMessage \<Rightarrow> bool" where
  "owned n incoming \<longleftrightarrow> (\<exists>j m. j < n \<and> incoming = own_message j m)"

lemma owned_Suc: "owned n incoming \<Longrightarrow> owned (Suc n) incoming"
  by (auto simp: owned_def less_Suc_eq)

lemma owned_own [simp]: "owned n (own_message j m) \<longleftrightarrow> j < n"
  by (auto simp: owned_def own_message_def tag_ack_def message_with_ack_def with_ack_def)

lemma update_all: "\<forall>x \<in> set xs. P x \<Longrightarrow> P y \<Longrightarrow> \<forall>x \<in> set (xs[i := y]). P x"
  using set_update_subset_insert [of xs i y] by blast

definition forwards_own :: "Client \<Rightarrow> bool" where
  "forwards_own c \<longleftrightarrow>
     (\<forall>incoming. ct_phase c = Forwarding incoming \<longrightarrow> (\<exists>m. incoming = message_with_ack m))"

definition carried :: "('c \<Rightarrow> item list) \<Rightarrow> 'c SocketWorld \<Rightarrow> bool" where
  "carried queued s \<longleftrightarrow>
     (\<forall>incoming \<in> set (under_way queued s). owned (length (sw_clients s)) incoming) \<and>
     (\<forall>c \<in> set (sw_clients s). forwards_own c) \<and>
     (\<forall>i \<ge> length (sw_clients s). writers s i = [])"

lemma turn_forwards_own:
  "client_turn env i c out = (c', out') \<Longrightarrow> ct_phase c \<in> {Authorizing, ReadingLine} \<Longrightarrow>
     ct_phase c' = Forwarding incoming \<Longrightarrow> \<exists>m. incoming = message_with_ack m"
  by (auto simp: client_turn_def process_unix_socket_line_def then_do_def
      split: sum.splits prod.splits option.splits if_splits, blast+)

lemma turn_keeps_connection:
  "client_turn env i c out = (c', out') \<Longrightarrow> connection_of c' = connection_of c"
  by (auto simp: client_turn_def connection_of_def
      split: ClientPhase.splits sum.splits prod.splits option.splits)

lemma transport_frames [simp]:
  "br_transport (cache_incoming env now incoming b) = br_transport b"
  "br_transport (snd (dispatch_incoming env now incoming b)) = br_transport b"
  by (auto simp: cache_incoming_def store_insert_def dispatch_incoming_def Let_def
      split: prod.splits)

lemma dispatch_incoming_transport:
  "dispatch_incoming env now incoming b = (d, b') \<Longrightarrow> br_transport b' = br_transport b"
  by (metis snd_conv transport_frames(2))

lemma acknowledge_transport:
  assumes "acknowledge_incoming (socket_loop_env env) (own_message j m) d b = (r, b')"
  shows "br_transport b' = (let w = br_transport b in
    if se_broken env j (w j) reply_ok then w else w(j := w j @ [reply_ok]))"
  using assms
  by (auto simp: acknowledge_incoming_def ack_def write_ack_def write_socket_reply_def
      count_dispatched_def Let_def split: if_splits)


lemma under_way_facts:
  "set (under_way queued s) =
     set (handled_messages (sw_world s)) \<union> set (in_hand (sw_world s)) \<union> set (messages_in (queued (sw_channel s)))"
  by (auto simp: under_way_def)

lemma carriedD:
  "carried queued s \<Longrightarrow> incoming \<in> set (under_way queued s) \<Longrightarrow>
     \<exists>j m. j < length (sw_clients s) \<and> incoming = own_message j m"
  by (simp add: carried_def owned_def)

context item_channel
begin

lemma client_keeps_carried:
  assumes ok: "carried queued s" and i: "i < length (sw_clients s)"
    and phase: "ct_phase (sw_clients s ! i) \<in> {Authorizing, ReadingLine}"
    and turn: "client_turn env i (sw_clients s ! i) (writers s i) = (c, out)"
  shows "carried queued (s\<lparr>sw_clients := (sw_clients s)[i := c],
      sw_world := set_writers ((writers s)(i := out)) (sw_world s)\<rparr>)" (is "carried queued ?t")
proof -
  have "under_way queued ?t = under_way queued s"
    by (simp add: under_way_def set_writers_def handled_messages_def in_hand_def)
  moreover have "writers ?t = (writers s)(i := out)" by (simp add: writers_def set_writers_def)
  moreover have "forwards_own c"
    using turn_forwards_own [OF turn phase] by (simp add: forwards_own_def)
  ultimately show ?thesis
    using ok i update_all [of "sw_clients s" forwards_own c i] by (simp add: carried_def)
qed

lemma work_keeps_carried:
  assumes "work_step env s t" and ch: "se_channel env = ch" and ok: "carried queued s"
  shows "carried queued t"
  using assms(1)
proof (cases rule: work_step.cases)
  case (accept conn backlog)
  with ok show ?thesis
    by (auto simp: carried_def under_way_def spawn_client_def forwards_own_def writers_def intro: owned_Suc)
next
  case (send_accept_error e c)
  with ok sent [of "Inl e" "sw_channel s" c] ch show ?thesis
    by (auto simp: carried_def under_way_def writers_def)
next
  case (client i c out)
  with client_keeps_carried [OF ok client(2-4)] show ?thesis by simp
next
  case (forward i incoming c)
  let ?c = "(sw_clients s ! i)\<lparr>ct_phase := ReadingLine\<rparr>"
  obtain m where "incoming = message_with_ack m"
    using ok forward(2,3) nth_mem unfolding carried_def forwards_own_def by metis
  then have own: "tag_ack i incoming = own_message i m" by (simp add: own_message_def)
  have "queued c = queued (sw_channel s) @ [Inr (tag_ack i incoming)]"
    using sent [of "Inr (tag_ack i incoming)" "sw_channel s" c] forward(5) ch by simp
  moreover have "\<forall>x \<in> set ((sw_clients s)[i := ?c]). forwards_own x"
    using ok by (intro update_all) (simp_all add: carried_def forwards_own_def)
  ultimately show ?thesis
    using ok forward(1,2) own by (auto simp: carried_def under_way_def writers_def)
next
  case (forward_closed i incoming)
  let ?c = "(sw_clients s ! i)\<lparr>ct_phase := Ended (Inr ())\<rparr>"
  have "\<forall>x \<in> set ((sw_clients s)[i := ?c]). forwards_own x"
    using ok by (intro update_all) (simp_all add: carried_def forwards_own_def)
  with ok forward_closed show ?thesis by (simp add: carried_def under_way_def writers_def)
next
  case (receive_error e c)
  with ok received [of "sw_channel s" "Inl e" c] ch show ?thesis
    by (auto simp: carried_def under_way_def writers_def)
next
  case (receive incoming c now)
  with ok received [of "sw_channel s" "Inr incoming" c] ch show ?thesis
    by (auto simp: carried_def under_way_def writers_def handled_messages_def in_hand_def)
next
  case (dispatch now incoming dispatched b)
  with ok dispatch_incoming_transport [OF dispatch(3)] show ?thesis
    by (auto simp: carried_def under_way_def writers_def handled_messages_def in_hand_def)
next
  case (acknowledge now incoming dispatched r b)
  obtain j m where own: "j < length (sw_clients s)" "incoming = own_message j m"
    using carriedD [OF ok, of incoming] acknowledge(2) by (auto simp: under_way_def in_hand_def)
  with ok acknowledge acknowledge_transport [of env j m dispatched "wd_bridge (sw_world s)" r b]
  show ?thesis
    by (auto simp: carried_def under_way_def writers_def handled_messages_def in_hand_def Let_def)
qed (use ok in \<open>simp_all add: carried_def under_way_def writers_def\<close>)

lemma outside_keeps_carried:
  assumes "outside_step env s t" and "carried queued s"
  shows "carried queued t"
  using assms(1)
proof (cases rule: outside_step.cases)
  case (interrogate conn box asdu qoi now r b)
  with interrogation_effect [OF interrogate(2)] assms(2) show ?thesis
    by (auto simp: carried_def under_way_def writers_def handled_messages_def in_hand_def)
qed (use assms(2) in \<open>simp add: carried_def under_way_def writers_def\<close>)

lemma carried_start:
  "(\<And>i. br_transport b i = []) \<Longrightarrow> carried queued (UnixSocketSource_into_messages ch backlog b)"
  by (simp add: carried_def under_way_def UnixSocketSource_into_messages_def new_channel
      handled_messages_def in_hand_def world_start_def writers_def)

end


text \<open>
  A served client: the lines read so far are accounted for by its messages under way and by the
  rejections written, and each handled message has its \<open>ok\<close>.
\<close>

definition accounted ::
  "'c SocketEnv \<Rightarrow> nat \<Rightarrow> Client \<Rightarrow> token IncomingMessage list \<Rightarrow> replies \<Rightarrow> nat \<Rightarrow> bool" where
  "accounted env i c fl out h \<longleftrightarrow>
     (\<exists>lines. lines_of (unread (ct_input c)) = lines @ lines_of (unread (ct_reader c)) \<and>
        fl = accepted_messages env i lines \<and> filter (\<lambda>r. r \<noteq> reply_ok) out = rejections env i lines) \<and>
     \<not> read_fails (ct_reader c) \<and> length (filter (\<lambda>r. r = reply_ok) out) = h \<and>
     (\<forall>r. ct_phase c = Ended r \<longrightarrow> r = Inr () \<and> unread (ct_reader c) = [])"

definition oks_due :: "nat \<Rightarrow> 'c SocketWorld \<Rightarrow> nat" where
  "oks_due i s = length (filter (from_client i) (handled_messages (sw_world s)))"

definition accounted_at :: "'c SocketEnv \<Rightarrow> ('c \<Rightarrow> item list) \<Rightarrow> nat \<Rightarrow> 'c SocketWorld \<Rightarrow> bool" where
  "accounted_at env queued i s \<longleftrightarrow>
     accounted env i (sw_clients s ! i) (flow queued i s) (writers s i) (oks_due i s)"

lemma accounted_turn:
  assumes ok: "accounted env i c (fl @ waiting i c) out h"
    and served: "served_connection env i (connection_of c)"
    and phase: "ct_phase c \<in> {Authorizing, ReadingLine}"
    and turn: "client_turn env i c out = (c', out')"
  shows "accounted env i c' (fl @ waiting i c') out' h"
proof -
  obtain lines where lines: "lines_of (unread (ct_input c)) = lines @ lines_of (unread (ct_reader c))"
    "fl = accepted_messages env i lines" "filter (\<lambda>r. r \<noteq> reply_ok) out = rejections env i lines"
    and rest: "\<not> read_fails (ct_reader c)" "length (filter (\<lambda>r. r = reply_ok) out) = h"
    using ok phase by (auto simp: accounted_def waiting_def)
  have "list_all utf8 (lines_of (unread (ct_input c)))"
    using served by (simp add: served_connection_def connection_of_def)
  then have "list_all utf8 (lines_of (unread (ct_reader c)))" by (simp add: lines(1))
  from served_turn [OF served rest(1) this phase turn] show ?thesis
  proof (elim disjE exE conjE)
    fix line reader
    assume line: "lines_of (unread (ct_reader c)) = line # lines_of (unread reader)" "\<not> read_fails reader"
      "case verdict (client_env env i) line of
         Reject reply \<Rightarrow> out' = out @ [reply] \<and> c' = c\<lparr>ct_reader := reader\<rparr> \<and> ct_phase c = ReadingLine
       | Accept m \<Rightarrow> out' = out \<and>
           c' = c\<lparr>ct_reader := reader, ct_phase := Forwarding (message_with_ack m)\<rparr>"
    show ?thesis
    proof (cases "verdict (client_env env i) line")
      case (Reject reply)
      with line lines rest verdict_Reject_not_ok [OF Reject] show ?thesis
        by (auto simp: accounted_def waiting_def lines_snoc intro!: exI [of _ "lines @ [line]"])
    next
      case (Accept m)
      with line lines rest show ?thesis
        by (auto simp: accounted_def waiting_def lines_snoc own_message_def
            intro!: exI [of _ "lines @ [line]"])
    qed
  qed (use lines rest in \<open>auto simp: accounted_def waiting_def\<close>)
qed

context item_channel
begin

lemma work_keeps_accounted:
  assumes "work_step env s t" and ch: "se_channel env = ch" and carried: "carried queued s"
    and running: "sw_outcome t = None" and i: "i < length (sw_clients s)"
    and served: "served_connection env i (connection_of (sw_clients s ! i))"
    and ok: "accounted_at env queued i s"
  shows "accounted_at env queued i t"
  using assms(1)
proof (cases rule: work_step.cases)
  case (accept conn backlog)
  with ok i show ?thesis
    by (simp add: accounted_at_def flow_def under_way_def writers_def oks_due_def nth_append)
next
  case (send_accept_error e c)
  with ok i sent [of "Inl e" "sw_channel s" c] ch show ?thesis
    by (simp add: accounted_at_def flow_def under_way_def writers_def oks_due_def)
next
  case (client k c out)
  have same: "under_way queued t = under_way queued s" "oks_due i t = oks_due i s"
    "writers t = (writers s)(k := out)" "sw_clients t = (sw_clients s)[k := c]"
    using client(1) by (simp_all add: under_way_def set_writers_def handled_messages_def in_hand_def
        oks_due_def writers_def)
  show ?thesis
  proof (cases "k = i")
    case True
    with ok i accounted_turn [OF _ served, of "filter (from_client i) (under_way queued s)" "writers s i"
        "oks_due i s" c out] client(3,4)
    show ?thesis unfolding accounted_at_def flow_def same by simp
  next
    case False
    with ok i show ?thesis unfolding accounted_at_def flow_def same by simp
  qed
next
  case (forward k incoming c)
  obtain m where "incoming = message_with_ack m"
    using carried forward(2,3) nth_mem unfolding carried_def forwards_own_def by metis
  then have own: "tag_ack k incoming = own_message k m" by (simp add: own_message_def)
  have "queued c = queued (sw_channel s) @ [Inr (own_message k m)]"
    using sent [of "Inr (tag_ack k incoming)" "sw_channel s" c] forward(5) ch own by simp
  with ok i forward(1-3) own show ?thesis
    by (cases "k = i")
      (auto simp: accounted_at_def accounted_def flow_def under_way_def writers_def oks_due_def waiting_def)
next
  case (receive_error e c)
  with ok i received [of "sw_channel s" "Inl e" c] ch show ?thesis
    by (simp add: accounted_at_def flow_def under_way_def writers_def oks_due_def)
next
  case (receive incoming c now)
  with ok i received [of "sw_channel s" "Inr incoming" c] ch show ?thesis
    by (simp add: accounted_at_def flow_def under_way_def writers_def oks_due_def
        handled_messages_def in_hand_def)
next
  case (dispatch now incoming dispatched b)
  with ok i dispatch_incoming_transport [OF dispatch(3)] show ?thesis
    by (simp add: accounted_at_def flow_def under_way_def writers_def oks_due_def
        handled_messages_def in_hand_def)
next
  case (acknowledge now incoming dispatched r b)
  obtain j m where own: "j < length (sw_clients s)" "incoming = own_message j m"
    using carriedD [OF carried, of incoming] acknowledge(2) by (auto simp: under_way_def in_hand_def)
  have "\<not> se_broken env i out reply" for out reply
    using served by (simp add: served_connection_def)
  with ok i acknowledge(1,2) own
    acknowledge_transport [of env j m dispatched "wd_bridge (sw_world s)" r b] acknowledge(4)
  show ?thesis
    by (cases "j = i")
      (auto simp: accounted_at_def accounted_def flow_def under_way_def writers_def oks_due_def
        handled_messages_def in_hand_def Let_def)
qed (use ok i running in \<open>simp_all add: accounted_at_def flow_def under_way_def writers_def oks_due_def\<close>)

lemma outside_keeps_accounted:
  assumes "outside_step env s t" and "i < length (sw_clients s)" and "accounted_at env queued i s"
  shows "accounted_at env queued i t"
  using assms(1)
proof (cases rule: outside_step.cases)
  case (interrogate conn box asdu qoi now r b)
  with interrogation_effect [OF interrogate(2)] assms(2,3) show ?thesis
    by (simp add: accounted_at_def flow_def under_way_def writers_def oks_due_def
        handled_messages_def in_hand_def)
qed (use assms(2,3) in \<open>simp add: accounted_at_def flow_def under_way_def writers_def oks_due_def\<close>)

end


section \<open>All clients\<close>

definition channel_ok :: "('c \<Rightarrow> item list) \<Rightarrow> ('c \<Rightarrow> nat) \<Rightarrow> 'c SocketWorld \<Rightarrow> bool" where
  "channel_ok queued room s \<longleftrightarrow>
     room (sw_channel s) = UNIX_SOCKET_BACKLOG \<and> length (queued (sw_channel s)) \<le> UNIX_SOCKET_BACKLOG"

definition connections_ok :: "Connection list \<Rightarrow> 'c SocketWorld \<Rightarrow> bool" where
  "connections_ok conns s \<longleftrightarrow>
     map connection_of (sw_clients s) @ messages_in (sw_backlog s) = conns"

text \<open>The accept loop gives up only when the message loop has stopped, so the stream does not end.\<close>

definition loop_ok :: "'c SocketWorld \<Rightarrow> bool" where
  "loop_ok s \<longleftrightarrow>
     (sw_accept s = AcceptEnded \<longrightarrow> sw_outcome s \<noteq> None) \<and> sw_outcome s \<noteq> Some SourceEnded"

definition clients_ok :: "'c SocketEnv \<Rightarrow> ('c \<Rightarrow> item list) \<Rightarrow> 'c SocketWorld \<Rightarrow> bool" where
  "clients_ok env queued s \<longleftrightarrow>
     (sw_outcome s = None \<longrightarrow>
       (\<forall>i < length (sw_clients s). served_connection env i (connection_of (sw_clients s ! i)) \<longrightarrow>
          accounted_at env queued i s))"

lemma connection_kept:
  "i < length cs \<Longrightarrow> connection_of c = connection_of (cs ! i) \<Longrightarrow>
     map connection_of (cs[i := c]) = map connection_of cs"
  by (simp add: map_update list_update_same_conv)

lemma work_keeps_connections:
  assumes "work_step env s t" and ok: "connections_ok conns s"
  shows "connections_ok conns t"
  using assms(1)
proof (cases rule: work_step.cases)
  case (client i c out)
  with ok connection_kept [OF client(2), of c] turn_keeps_connection [OF client(4)] show ?thesis
    by (simp add: connections_ok_def)
next
  case (forward i incoming c)
  with ok connection_kept [OF forward(2), of "(sw_clients s ! i)\<lparr>ct_phase := ReadingLine\<rparr>"] show ?thesis
    by (simp add: connections_ok_def connection_of_def)
next
  case (forward_closed i incoming)
  with ok connection_kept [OF forward_closed(2), of "(sw_clients s ! i)\<lparr>ct_phase := Ended (Inr ())\<rparr>"]
  show ?thesis by (simp add: connections_ok_def connection_of_def)
qed (use ok in \<open>simp_all add: connections_ok_def\<close>)

lemma work_keeps_loop:
  assumes "work_step env s t" and "loop_ok s"
  shows "loop_ok t"
  using assms by (cases rule: work_step.cases) (auto simp: loop_ok_def no_sender_left_def)

lemma outcome_stays: "work_step env s t \<Longrightarrow> sw_outcome t = None \<Longrightarrow> sw_outcome s = None"
  by (erule work_stepE) simp_all

lemma clients_only_added:
  assumes "work_step env s t"
  shows "length (sw_clients t) = length (sw_clients s) \<or>
    (\<exists>conn. sw_clients t = sw_clients s @ [spawn_client conn] \<and> sw_world t = sw_world s \<and>
       sw_channel t = sw_channel s)"
  using assms by (cases rule: work_step.cases) auto

lemma work_keeps_connection:
  assumes "work_step env s t" and "i < length (sw_clients s)"
  shows "i < length (sw_clients t) \<and> connection_of (sw_clients t ! i) = connection_of (sw_clients s ! i)"
  using assms(1)
proof (cases rule: work_step.cases)
  case (client k c out)
  with assms(2) turn_keeps_connection [OF client(4)] show ?thesis by (cases "k = i") simp_all
next
  case (forward k incoming c)
  with assms(2) show ?thesis by (cases "k = i") (simp_all add: connection_of_def)
next
  case (forward_closed k incoming)
  with assms(2) show ?thesis by (cases "k = i") (simp_all add: connection_of_def)
qed (use assms(2) in \<open>simp_all add: nth_append\<close>)

lemma spawned_accounted:
  assumes "carried queued s" and "sw_clients t = sw_clients s @ [spawn_client conn]"
    and "sw_world t = sw_world s" and "sw_channel t = sw_channel s"
    and "served_connection env (length (sw_clients s)) conn"
  shows "accounted_at env queued (length (sw_clients s)) t"
proof -
  let ?n = "length (sw_clients s)"
  have "\<not> from_client ?n incoming" if "incoming \<in> set (under_way queued s)" for incoming
    using carriedD [OF assms(1) that] by auto
  then have "filter (from_client ?n) (under_way queued s) = []" by (simp add: filter_empty_conv)
  moreover have "under_way queued t = under_way queued s" using assms(3,4) by (simp add: under_way_def)
  moreover have "oks_due ?n t = 0"
    using calculation by (simp add: oks_due_def under_way_def assms(3))
  moreover have "writers t ?n = []" using assms(1,3) by (simp add: carried_def writers_def)
  moreover have "sw_clients t ! ?n = spawn_client conn" using assms(2) by simp
  ultimately show ?thesis
    using assms(2,5)
    by (auto simp: accounted_at_def accounted_def flow_def waiting_def spawn_client_def
        accepted_messages_def rejections_def served_connection_def)
qed

definition socket_ok ::
  "'c SocketEnv \<Rightarrow> ('c \<Rightarrow> item list) \<Rightarrow> ('c \<Rightarrow> nat) \<Rightarrow> Connection list \<Rightarrow> 'c SocketWorld \<Rightarrow> bool" where
  "socket_ok env queued room conns s \<longleftrightarrow>
     carried queued s \<and> channel_ok queued room s \<and> connections_ok conns s \<and> loop_ok s \<and>
     clients_ok env queued s"

context item_channel
begin

lemma work_keeps_channel:
  assumes "work_step env s t" and ch: "se_channel env = ch" and ok: "channel_ok queued room s"
  shows "channel_ok queued room t"
  using assms(1)
proof (cases rule: work_step.cases)
  case (send_accept_error e c)
  with ok sent [of "Inl e" "sw_channel s" c] ch show ?thesis by (simp add: channel_ok_def)
next
  case (forward i incoming c)
  with ok sent [of "Inr (tag_ack i incoming)" "sw_channel s" c] ch show ?thesis by (simp add: channel_ok_def)
next
  case (receive_error e c)
  with ok received [of "sw_channel s" "Inl e" c] ch show ?thesis by (simp add: channel_ok_def)
next
  case (receive incoming c now)
  with ok received [of "sw_channel s" "Inr incoming" c] ch show ?thesis by (simp add: channel_ok_def)
qed (use ok in \<open>simp_all add: channel_ok_def\<close>)

lemma work_keeps_clients:
  assumes step: "work_step env s t" and ch: "se_channel env = ch" and carried: "carried queued s"
    and ok: "clients_ok env queued s"
  shows "clients_ok env queued t"
  unfolding clients_ok_def
proof (intro impI allI)
  fix i
  assume running: "sw_outcome t = None" and i: "i < length (sw_clients t)"
    and served: "served_connection env i (connection_of (sw_clients t ! i))"
  show "accounted_at env queued i t"
  proof (cases "i < length (sw_clients s)")
    case True
    with work_keeps_connection [OF step True] served outcome_stays [OF step running] ok
    show ?thesis
      by (intro work_keeps_accounted [OF step ch carried running True]) (simp_all add: clients_ok_def)
  next
    case False
    with i clients_only_added [OF step] obtain conn where new:
      "sw_clients t = sw_clients s @ [spawn_client conn]" "sw_world t = sw_world s"
      "sw_channel t = sw_channel s" by auto
    with False i have "i = length (sw_clients s)" by simp
    with spawned_accounted [OF carried new] served new(1) show ?thesis by simp
  qed
qed

lemma socket_step_ok:
  assumes step: "socket_step env s t" and ch: "se_channel env = ch" and ok: "socket_ok env queued room conns s"
  shows "socket_ok env queued room conns t"
  using step unfolding socket_step_def
proof
  assume "work_step env s t"
  with ok ch show ?thesis
    by (simp add: socket_ok_def work_keeps_carried [of env s t] work_keeps_channel [of env s t]
        work_keeps_connections [of env s t] work_keeps_loop [of env s t] work_keeps_clients [of env s t])
next
  assume outside: "outside_step env s t"
  have same: "sw_clients t = sw_clients s" "sw_channel t = sw_channel s" "sw_accept t = sw_accept s"
    "sw_backlog t = sw_backlog s" "sw_outcome t = sw_outcome s \<or> sw_outcome t = Some Shutdown"
    using outside by (auto elim: outside_stepE)
  moreover have "clients_ok env queued t"
    using ok outside_keeps_accounted [OF outside] same
    by (auto simp: socket_ok_def clients_ok_def)
  ultimately show ?thesis
    using ok outside_keeps_carried [OF outside]
    by (auto simp: socket_ok_def channel_ok_def connections_ok_def loop_ok_def)
qed

lemma socket_start_ok:
  assumes "\<And>i. br_transport b i = []"
  shows "socket_ok env queued room (messages_in backlog) (UnixSocketSource_into_messages ch backlog b)"
  using carried_start [where b = b and backlog = backlog, OF assms]
  by (simp add: socket_ok_def channel_ok_def connections_ok_def loop_ok_def clients_ok_def
      UnixSocketSource_into_messages_def new_channel)

lemma socket_reachable_ok:
  assumes "(socket_step env)\<^sup>*\<^sup>* (UnixSocketSource_into_messages ch backlog b) s"
    and "se_channel env = ch" and "\<And>i. br_transport b i = []"
  shows "socket_ok env queued room (messages_in backlog) s"
  using assms(1)
  by (induction rule: rtranclp_induct)
    (auto intro: socket_start_ok [OF assms(3)] socket_step_ok [OF _ assms(2)])


text \<open>With peers that read their replies, tasks are idle only when everything has been done.\<close>

lemma quiet_is_done:
  assumes ok: "socket_ok env queued room conns s" and ch: "se_channel env = ch"
    and running: "sw_outcome s = None" and ready: "\<And>i out. se_ready env i out"
    and quiet: "\<And>t. \<not> work_step env s t"
  shows "sw_backlog s = [] \<and> wd_phase (sw_world s) = Idle \<and> queued (sw_channel s) = [] \<and>
    (\<forall>i < length (sw_clients s). \<exists>r. ct_phase (sw_clients s ! i) = Ended r)"
proof -
  have idle: "wd_phase (sw_world s) = Idle"
  proof (cases "wd_phase (sw_world s)")
    case (Cached now incoming)
    obtain d b where "dispatch_incoming (socket_loop_env env) now incoming (wd_bridge (sw_world s)) = (d, b)"
      by fastforce
    from work_step.dispatch [OF Cached this] quiet show ?thesis by blast
  next
    case (Dispatched now incoming d)
    obtain r b where "acknowledge_incoming (socket_loop_env env) incoming d (wd_bridge (sw_world s)) = (r, b)"
      by fastforce
    moreover have "ack_ready env incoming (writers s)"
      using ready by (simp add: ack_ready_def split: option.split)
    ultimately show ?thesis using work_step.acknowledge [OF Dispatched] quiet by blast
  qed
  have none: "mpsc_try_recv ch (sw_channel s) = None"
  proof (rule ccontr)
    assume "mpsc_try_recv ch (sw_channel s) \<noteq> None"
    then obtain x c where recv: "mpsc_try_recv ch (sw_channel s) = Some (x, c)" by auto
    show False
      using work_step.receive_error [OF running idle] work_step.receive [OF running idle] recv ch quiet
      by (cases x) blast+
  qed
  have empty_queue: "queued (sw_channel s) = []" by (rule empty [OF none])
  have send: "mpsc_try_send ch x (sw_channel s) \<noteq> None" for x
    using full [of x "sw_channel s"] ok empty_queue
    by (auto simp: socket_ok_def channel_ok_def UNIX_SOCKET_BACKLOG_def)
  have accepting: "sw_accept s = Accepting"
  proof (cases "sw_accept s")
    case (SendingError e)
    obtain c where "mpsc_try_send ch (Inl e) (sw_channel s) = Some c" using send by blast
    with work_step.send_accept_error [OF SendingError running] quiet ch show ?thesis by blast
  qed (use ok running in \<open>simp_all add: socket_ok_def loop_ok_def\<close>)
  have "sw_backlog s = []"
  proof (cases "sw_backlog s")
    case (Cons x xs)
    with work_step.accept [OF accepting] work_step.accept_error [OF accepting] quiet
    show ?thesis by (cases x) blast+
  qed
  moreover have "\<exists>r. ct_phase (sw_clients s ! i) = Ended r" if i: "i < length (sw_clients s)" for i
  proof -
    obtain c out where "client_turn env i (sw_clients s ! i) (writers s i) = (c, out)" by fastforce
    then have "ct_phase (sw_clients s ! i) \<notin> {Authorizing, ReadingLine}"
      using work_step.client [OF i] quiet ready by blast
    moreover have "ct_phase (sw_clients s ! i) \<noteq> Forwarding incoming" for incoming
      using work_step.forward [OF i _ running, of incoming env] send ch quiet by blast
    ultimately show ?thesis by (cases "ct_phase (sw_clients s ! i)") auto
  qed
  ultimately show ?thesis using idle empty_queue by blast
qed

end

section \<open>Fair runs\<close>

text \<open>
  An infinite run in which states may repeat, and in which some task makes a step when one can:
  the least that a scheduler gives.
\<close>

definition fair_run :: "'c SocketEnv \<Rightarrow> (nat \<Rightarrow> 'c SocketWorld) \<Rightarrow> bool" where
  "fair_run env run \<longleftrightarrow>
     (\<forall>n. run (Suc n) = run n \<or> socket_step env (run n) (run (Suc n))) \<and>
     (\<forall>n. (\<exists>t. work_step env (run n) t) \<longrightarrow> (\<exists>m \<ge> n. work_step env (run m) (run (Suc m))))"

lemma fair_run_reaches:
  assumes "fair_run env run" shows "(socket_step env)\<^sup>*\<^sup>* (run 0) (run n)"
proof (induction n)
  case (Suc n)
  from assms have "run (Suc n) = run n \<or> socket_step env (run n) (run (Suc n))"
    by (simp add: fair_run_def)
  with Suc show ?case by (auto intro: rtranclp.rtrancl_into_rtrancl)
qed simp

context item_channel
begin

lemma fair_run_work_falls:
  assumes "fair_run env run" and "se_channel env = ch" and "n \<le> m"
  shows "remaining queued (run m) \<le> remaining queued (run n)"
proof (rule lift_Suc_antimono_le [of "\<lambda>n. remaining queued (run n)", OF _ assms(3)])
  fix n
  from assms(1) have "run (Suc n) = run n \<or> socket_step env (run n) (run (Suc n))"
    by (simp add: fair_run_def)
  with work_decreases [OF _ assms(2), of "run n" "run (Suc n)"]
    outside_keeps_work [of env "run n" "run (Suc n)"]
  show "remaining queued (run (Suc n)) \<le> remaining queued (run n)"
    by (auto simp: socket_step_def)
qed

lemma fair_run_gets_quiet:
  assumes fair: "fair_run env run" and ch: "se_channel env = ch"
  shows "\<exists>m \<ge> n. \<forall>t. \<not> work_step env (run m) t"
proof (induction "remaining queued (run n)" arbitrary: n rule: less_induct)
  case less
  show ?case
  proof (cases "\<exists>t. work_step env (run n) t")
    case True
    then obtain m where m: "n \<le> m" "work_step env (run m) (run (Suc m))"
      using fair by (auto simp: fair_run_def)
    have "remaining queued (run (Suc m)) < remaining queued (run n)"
      using work_decreases [OF m(2) ch] fair_run_work_falls [OF fair ch m(1)] by simp
    from less.hyps [OF this] m(1) show ?thesis by (meson Suc_leD le_trans)
  qed auto
qed

end

text \<open>Such runs exist from every state, so the properties of fair runs are not vacuous.\<close>

fun greedy_run :: "('c SocketWorld \<Rightarrow> 'c SocketWorld option) \<Rightarrow> 'c SocketWorld \<Rightarrow> nat \<Rightarrow> 'c SocketWorld" where
  "greedy_run next_of s 0 = s"
| "greedy_run next_of s (Suc n) =
     (case next_of (greedy_run next_of s n) of None \<Rightarrow> greedy_run next_of s n | Some t \<Rightarrow> t)"

lemma fair_run_exists:
  "\<exists>run. fair_run env run \<and> run 0 = s \<and> (\<forall>n. sw_outcome (run n) = Some Shutdown \<longrightarrow> sw_outcome s = Some Shutdown)"
proof -
  define next_of where "next_of s =
    (if \<exists>t. work_step env s t then Some (SOME t. work_step env s t) else None)" for s
  let ?run = "greedy_run next_of s"
  have step: "work_step env (?run n) (?run (Suc n)) \<or> \<not> (\<exists>t. work_step env (?run n) t) \<and> ?run (Suc n) = ?run n"
    for n
    using someI_ex [of "work_step env (?run n)"] by (auto simp: next_of_def)
  then have "fair_run env ?run" unfolding fair_run_def socket_step_def by blast
  moreover have "sw_outcome (?run n) = Some Shutdown \<longrightarrow> sw_outcome s = Some Shutdown" for n
  proof (induction n)
    case (Suc n)
    with step [of n] show ?case by (auto elim: work_stepE)
  qed simp
  ultimately show ?thesis by (intro exI [of _ ?run]) simp
qed


section \<open>A peer that does not read\<close>

definition stalled :: "nat \<Rightarrow> 'c SocketWorld \<Rightarrow> 'c SocketWorld \<Rightarrow> bool" where
  "stalled i s t \<longleftrightarrow>
     wd_phase (sw_world t) = wd_phase (sw_world s) \<and> wd_acked (sw_world t) = wd_acked (sw_world s) \<and>
     sw_outcome t = sw_outcome s \<and> writers t i = writers s i"

lemma stalled_step:
  assumes "wd_phase (sw_world s) = Dispatched now incoming d" and "ack_fn incoming = Some (i, reply)"
    and "\<not> se_ready env i (writers s i)" and "stalled i s t" and "socket_step env t u"
  shows "stalled i s u"
proof -
  have t: "wd_phase (sw_world t) = Dispatched now incoming d" "\<not> se_ready env i (writers t i)"
    using assms(1,3,4) by (simp_all add: stalled_def)
  have "stalled i t u"
    using assms(5) unfolding socket_step_def
  proof
    assume "work_step env t u"
    then show ?thesis
    proof (cases rule: work_step.cases)
      case (client k c out)
      with t show ?thesis by (cases "k = i") (auto simp: stalled_def writers_def set_writers_def)
    next
      case (acknowledge now' incoming' d' r b)
      with t assms(2) show ?thesis by (simp add: ack_ready_def)
    qed (use t in \<open>simp_all add: stalled_def writers_def\<close>)
  next
    assume "outside_step env t u"
    then show ?thesis
    proof (cases rule: outside_step.cases)
      case (interrogate conn box asdu qoi now r b)
      with interrogation_effect [OF interrogate(2)] show ?thesis by (simp add: stalled_def writers_def)
    qed (use t in simp)
  qed
  with assms(4) show ?thesis by (simp add: stalled_def)
qed

section \<open>Properties\<close>

text \<open>What it is that every line of a connection has been answered.\<close>

definition lines_answered :: "'c SocketEnv \<Rightarrow> nat \<Rightarrow> Connection \<Rightarrow> 'c SocketWorld \<Rightarrow> bool" where
  "lines_answered env i conn s \<longleftrightarrow>
     (let lines = lines_of (unread (cn_input conn)) in
        filter (\<lambda>r. r \<noteq> reply_ok) (writers s i) = rejections env i lines \<and>
        length (filter (\<lambda>r. r = reply_ok) (writers s i)) = length (accepted_messages env i lines) \<and>
        filter (from_client i) (handled_messages (sw_world s)) = accepted_messages env i lines)"

lemma done_is_answered:
  assumes ok: "socket_ok env queued room conns s" and running: "sw_outcome s = None"
    and fin: "sw_backlog s = []" "wd_phase (sw_world s) = Idle" "queued (sw_channel s) = []"
      "\<forall>i < length (sw_clients s). \<exists>r. ct_phase (sw_clients s ! i) = Ended r"
    and i: "i < length conns" and served: "served_connection env i (conns ! i)"
  shows "lines_answered env i (conns ! i) s"
proof -
  have conns: "map connection_of (sw_clients s) = conns"
    using ok fin(1) by (simp add: socket_ok_def connections_ok_def)
  then have i': "i < length (sw_clients s)" and conn: "connection_of (sw_clients s ! i) = conns ! i"
    using i by auto
  then have input: "ct_input (sw_clients s ! i) = cn_input (conns ! i)"
    by (simp add: connection_of_def flip: conn)
  obtain r where r: "ct_phase (sw_clients s ! i) = Ended r" using fin(4) i' by blast
  have "accounted_at env queued i s"
    using ok running i' served conn by (simp add: socket_ok_def clients_ok_def)
  then show ?thesis
    using i' r fin(2,3)
    by (auto simp: accounted_at_def accounted_def input lines_answered_def flow_def under_way_def
        in_hand_def waiting_def oks_due_def lines_of.simps [of "[]"] Let_def)
qed

text \<open>C1: When the peers read their replies, a fair run of the bridge on the Unix socket answers every
  line: there is a moment at which all connections have been accepted and, for each connection
  whose peer is authorized, whose bytes are text and whose writes do not fail, every rejected line
  has its error reply, in order, every accepted line has been handled by the message loop, in
  order, and each of those has its \<open>ok\<close>. What the other connections do does not matter.\<close>

theorem every_line_is_answered:
  assumes "bounded_queue (se_channel env) queued room" and "fair_run env run"
    and "run 0 = UnixSocketSource_into_messages (se_channel env) backlog b"
    and "\<And>i. br_transport b i = []" and "\<And>n. sw_outcome (run n) \<noteq> Some Shutdown"
    and "\<And>i out. se_ready env i out"
  shows "\<exists>n. sw_backlog (run n) = [] \<and>
    (\<forall>i < length (messages_in backlog). served_connection env i (messages_in backlog ! i) \<longrightarrow>
       lines_answered env i (messages_in backlog ! i) (run n))"
proof -
  note chan = item_channel.intro [OF channel.intro [OF assms(1)]]
  let ?conns = "messages_in backlog"
  obtain n where quiet: "\<And>t. \<not> work_step env (run n) t"
    using item_channel.fair_run_gets_quiet [OF chan assms(2) refl, of 0] by blast
  have ok: "socket_ok env queued room ?conns (run n)"
    using item_channel.socket_reachable_ok [OF chan _ refl assms(4)] fair_run_reaches [OF assms(2), of n]
    by (simp add: assms(3))
  have running: "sw_outcome (run n) = None"
    using ok assms(5) [of n] LoopOutcome.exhaust [of "the (sw_outcome (run n))"]
    by (cases "sw_outcome (run n)") (auto simp: socket_ok_def loop_ok_def)
  note facts = item_channel.quiet_is_done [OF chan ok refl running assms(6) quiet]
  then show ?thesis
    using done_is_answered [OF ok running] by blast
qed

definition toy_socket_env :: "bool \<Rightarrow> (nat \<times> item list) SocketEnv" where
  "toy_socket_env reads = \<lparr>
     se_runtime = \<lparr>rt_socket_path = path_from ''/run/in'', rt_allowed_uid = None, rt_allowed_gid = None,
       rt_max_line_bytes = 10\<rparr>,
     se_parse_text = toy_json, se_rfc = (\<lambda>_. None), se_broken = (\<lambda>_ _ _. False),
     se_ready = (\<lambda>_ _. reads), se_channel = list_channel,
     se_loop = \<lparr>le_native = queue_env 5, le_server = 3, le_perform = (\<lambda>k w. (Inr (), w)),
       le_default_ca = 1, le_gi_only = True, le_policy = OutputPolicy_default\<rparr>,
     se_station = 20, se_order = (\<lambda>_. [])\<rparr>"

definition toy_connection :: Connection where
  "toy_connection = \<lparr>cn_peer = Inr \<lparr>uid = 7, gid = 1, pid = 9\<rparr>,
     cn_input = \<lparr>unread = ''t'' @ newline, read_fails = False\<rparr>\<rparr>"

definition toy_sockets :: "(nat \<Rightarrow> replies) Bridge" where
  "toy_sockets = \<lparr>br_store = Map.empty, br_metrics = Metrics_default, br_calls = [],
     br_running = True, br_transport = (\<lambda>_. [])\<rparr>"

lemma toy_lines: "lines_of (''t'' @ newline) = [''t'' @ newline]"
  by (simp add: lines_of.simps newline_def)

lemma toy_client_env: "client_env (toy_socket_env reads) i = toy_env"
  by (simp add: client_env_def toy_socket_env_def toy_env_def)

lemma toy_served: "served_connection (toy_socket_env reads) i toy_connection"
proof -
  have "list_all utf8 (lines_of (''t'' @ newline))"
    unfolding toy_lines by (simp add: utf8_def newline_def)
  then show ?thesis
    by (simp add: served_connection_def toy_socket_env_def toy_connection_def check_peer_authorization_def
        authorization_failure_for_uid_def authorization_failure_for_gid_def del: append.simps)
qed

lemma toy_fates:
  "rejections (toy_socket_env reads) i [''t'' @ newline] = []"
  "accepted_messages (toy_socket_env reads) i [''t'' @ newline] = [own_message i toy_message]"
  by (simp_all only: rejections_def accepted_messages_def toy_client_env map_filter_simps toy_verdict o_def)
    simp_all

theorem every_line_is_answered_witness:
  "\<exists>run n. fair_run (toy_socket_env True) run \<and>
     run 0 = UnixSocketSource_into_messages list_channel [Inr toy_connection] toy_sockets \<and>
     writers (run n) 0 = [reply_ok]"
proof -
  let ?env = "toy_socket_env True"
  let ?s = "UnixSocketSource_into_messages list_channel [Inr toy_connection] toy_sockets"
  obtain run where run: "fair_run ?env run" "run 0 = ?s"
    "\<And>n. sw_outcome (run n) = Some Shutdown \<longrightarrow> sw_outcome ?s = Some Shutdown"
    using fair_run_exists [of ?env ?s] by blast
  have ch: "se_channel ?env = list_channel" by (simp add: toy_socket_env_def)
  have never: "sw_outcome (run n) \<noteq> Some Shutdown" for n
    using run(3) [of n] by (auto simp: UnixSocketSource_into_messages_def)
  obtain n where "lines_answered ?env 0 toy_connection (run n)"
    using every_line_is_answered [of ?env snd fst run "[Inr toy_connection]" toy_sockets]
      list_channel_queue run(1,2) never toy_served
    by (auto simp: ch toy_sockets_def) (auto simp: toy_socket_env_def)
  then have "filter (\<lambda>r. r \<noteq> reply_ok) (writers (run n) 0) = []"
    "length (filter (\<lambda>r. r = reply_ok) (writers (run n) 0)) = 1"
    by (simp_all only: lines_answered_def Let_def toy_connection_def Connection.simps Reader.simps
        toy_lines toy_fates) simp_all
  then have "writers (run n) 0 = [reply_ok]"
    by (auto simp: filter_empty_conv length_Suc_conv)
  with run show ?thesis by blast
qed


text \<open>C11: The tasks of the Unix socket source always come to an end: however they and the
  interrogations interleave, whatever fails and whoever waits, all steps of accept loop, client
  tasks and message loop together are at most five per byte the peers send, three per connection,
  five per accept error, and one for the end of the stream.\<close>

theorem socket_tasks_terminate:
  assumes "bounded_queue (se_channel env) queued room"
    and "(((outside_step env)\<^sup>*\<^sup>* OO work_step env) ^^ n)
      (UnixSocketSource_into_messages (se_channel env) backlog b) s"
  shows "n \<le> 1 + (\<Sum>x\<leftarrow>backlog. case x of Inl e \<Rightarrow> 5 | Inr conn \<Rightarrow> 3 + 5 * length (unread (cn_input conn)))"
proof -
  note chan = item_channel.intro [OF channel.intro [OF assms(1)]]
  have "backlog_work = case_sum (\<lambda>e. 5) (\<lambda>conn. 3 + 5 * length (unread (cn_input conn)))"
    by (rule ext) (simp split: sum.split)
  then show ?thesis
    using item_channel.work_is_bounded [OF chan assms(2) refl] assms(1)
    by (simp add: remaining_def UnixSocketSource_into_messages_def accept_work_def loop_work_def
        world_start_def bounded_queue_def)
qed

lemma toy_accept:
  "work_step (toy_socket_env reads)
     (UnixSocketSource_into_messages list_channel (Inr toy_connection # backlog) toy_sockets)
     ((UnixSocketSource_into_messages list_channel (Inr toy_connection # backlog) toy_sockets)
        \<lparr>sw_backlog := backlog, sw_clients := [spawn_client toy_connection]\<rparr>)"
  using work_step.accept [of "UnixSocketSource_into_messages list_channel
      (Inr toy_connection # backlog) toy_sockets" toy_connection backlog]
  by (simp add: UnixSocketSource_into_messages_def)

theorem socket_tasks_terminate_witness:
  "\<exists>s. (((outside_step (toy_socket_env False))\<^sup>*\<^sup>* OO work_step (toy_socket_env False)) ^^ 1)
       (UnixSocketSource_into_messages list_channel [Inr toy_connection] toy_sockets) s \<and> (1 :: nat) \<le> 14"
proof -
  have ch: "se_channel (toy_socket_env False) = list_channel" by (simp add: toy_socket_env_def)
  have "(((outside_step (toy_socket_env False))\<^sup>*\<^sup>* OO work_step (toy_socket_env False)) ^^ 1)
      (UnixSocketSource_into_messages list_channel [Inr toy_connection] toy_sockets)
      ((UnixSocketSource_into_messages list_channel [Inr toy_connection] toy_sockets)
        \<lparr>sw_backlog := [], sw_clients := [spawn_client toy_connection]\<rparr>)"
    using toy_accept [of False "[]"] by auto
  with socket_tasks_terminate [of "toy_socket_env False" snd fst 1 "[Inr toy_connection]" toy_sockets,
      unfolded ch, OF list_channel_queue] show ?thesis
    by (fastforce simp: toy_connection_def newline_def)
qed

text \<open>C7: At any time of a run that has not been shut down, the lines read so far of an authorized,
  well-behaved client are all accounted for: the messages of the accepted ones are, in order, the
  handled ones, the one in hand, those in the channel and the one waiting for it; the rejected
  ones have their error replies in order; and exactly the handled messages have their \<open>ok\<close>. The
  channel never holds more than 64 messages, and the stream of the source never ends.\<close>

theorem no_message_lost:
  assumes "bounded_queue (se_channel env) queued room"
    and "(socket_step env)\<^sup>*\<^sup>* (UnixSocketSource_into_messages (se_channel env) backlog b) s"
    and "\<And>i. br_transport b i = []"
  shows "length (queued (sw_channel s)) \<le> 64 \<and> sw_outcome s \<noteq> Some SourceEnded \<and>
    (sw_outcome s = None \<longrightarrow>
      (\<forall>i < length (sw_clients s). served_connection env i (connection_of (sw_clients s ! i)) \<longrightarrow>
        (\<exists>lines. lines_of (unread (ct_input (sw_clients s ! i)))
            = lines @ lines_of (unread (ct_reader (sw_clients s ! i))) \<and>
          filter (from_client i) (handled_messages (sw_world s) @ in_hand (sw_world s) @
              messages_in (queued (sw_channel s))) @ waiting i (sw_clients s ! i)
            = accepted_messages env i lines \<and>
          filter (\<lambda>r. r \<noteq> reply_ok) (writers s i) = rejections env i lines \<and>
          length (filter (\<lambda>r. r = reply_ok) (writers s i))
            = length (filter (from_client i) (handled_messages (sw_world s))))))"
proof -
  note chan = item_channel.intro [OF channel.intro [OF assms(1)]]
  have ok: "socket_ok env queued room (messages_in backlog) s"
    using item_channel.socket_reachable_ok [OF chan assms(2) refl assms(3)] .
  then show ?thesis
    by (auto simp: socket_ok_def channel_ok_def loop_ok_def clients_ok_def accounted_at_def
        accounted_def flow_def under_way_def oks_due_def UNIX_SOCKET_BACKLOG_def)
qed

theorem no_message_lost_witness:
  "\<exists>s. (socket_step (toy_socket_env False))\<^sup>*\<^sup>*
       (UnixSocketSource_into_messages list_channel [Inr toy_connection] toy_sockets) s \<and>
     length (sw_clients s) = 1 \<and> length (snd (sw_channel s)) \<le> 64 \<and> writers s 0 = []"
proof -
  let ?env = "toy_socket_env False"
  let ?s = "(UnixSocketSource_into_messages list_channel [Inr toy_connection] toy_sockets)
    \<lparr>sw_backlog := [], sw_clients := [spawn_client toy_connection]\<rparr>"
  have ch: "se_channel ?env = list_channel" by (simp add: toy_socket_env_def)
  have "socket_step ?env (UnixSocketSource_into_messages list_channel [Inr toy_connection] toy_sockets) ?s"
    using toy_accept [of False "[]"] by (simp add: socket_step_def)
  then have reach: "(socket_step ?env)\<^sup>*\<^sup>*
      (UnixSocketSource_into_messages list_channel [Inr toy_connection] toy_sockets) ?s" by simp
  have "br_transport toy_sockets i = []" for i by (simp add: toy_sockets_def)
  from conjunct1 [OF no_message_lost [of ?env snd fst "[Inr toy_connection]" toy_sockets ?s, unfolded ch,
      OF list_channel_queue reach this]] reach show ?thesis
    by (intro exI [of _ ?s])
      (simp add: toy_sockets_def UnixSocketSource_into_messages_def writers_def world_start_def)
qed

text \<open>C12: A peer that sends messages but stops reading its replies stops the whole bridge input: once
  the loop is at the acknowledgement of a message of a connection that takes no more replies, no
  message of any client is acknowledged again, and the loop does not even end on the shutdown
  signal, which it only looks for between messages.\<close>

theorem unread_replies_stop_the_bridge:
  assumes "wd_phase (sw_world s) = Dispatched now incoming d" and "ack_fn incoming = Some (i, reply)"
    and "\<not> se_ready env i (writers s i)" and "(socket_step env)\<^sup>*\<^sup>* s t"
  shows "wd_phase (sw_world t) = Dispatched now incoming d \<and>
    wd_acked (sw_world t) = wd_acked (sw_world s) \<and> sw_outcome t = sw_outcome s"
proof -
  have "stalled i s t"
    using assms(4)
  proof (induction rule: rtranclp_induct)
    case (step t u)
    from stalled_step [OF assms(1-3) step.IH step.hyps(2)] show ?case .
  qed (simp add: stalled_def)
  with assms(1) show ?thesis by (simp add: stalled_def)
qed


definition toy_state ::
  "string \<Rightarrow> ClientPhase \<Rightarrow> item list \<Rightarrow> token LoopPhase \<Rightarrow> (nat \<Rightarrow> replies) Bridge
     \<Rightarrow> (nat \<times> item list) SocketWorld" where
  "toy_state rest phase items lp b = \<lparr>sw_backlog = [], sw_accept = Accepting,
     sw_clients = [\<lparr>ct_peer = cn_peer toy_connection, ct_input = cn_input toy_connection,
       ct_reader = \<lparr>unread = rest, read_fails = False\<rparr>, ct_phase = phase\<rparr>],
     sw_channel = (64, items), sw_outcome = None,
     sw_world = \<lparr>wd_phase = lp, wd_bridge = b, wd_acked = []\<rparr>\<rparr>"

text \<open>A client whose message the loop has dispatched, and which does not read.\<close>

lemma toy_turns:
  "client_turn (toy_socket_env reads) 0
     (sw_clients (toy_state (''t'' @ newline) Authorizing [] Idle b) ! 0) [] =
     (sw_clients (toy_state (''t'' @ newline) ReadingLine [] Idle b) ! 0, [])"
  "client_turn (toy_socket_env reads) 0
     (sw_clients (toy_state (''t'' @ newline) ReadingLine [] Idle b) ! 0) [] =
     (sw_clients (toy_state [] (Forwarding (message_with_ack toy_message)) [] Idle b) ! 0, [])"
  "client_turn (toy_socket_env reads) 0 (sw_clients (toy_state [] ReadingLine [] lp b) ! 0) [] =
     (sw_clients (toy_state [] (Ended (Inr ())) [] lp b) ! 0, [])"
proof -
  have read: "read_unix_client_line \<lparr>unread = ''t'' @ newline, read_fails = False\<rparr> =
      (Inr (Some (''t'' @ newline, 2)), \<lparr>unread = [], read_fails = False\<rparr>)"
    by (simp add: read_unix_client_line_def newline_def utf8_def Let_def)
  have "process_unix_socket_line (\<lambda>_ _. False) toy_json (\<lambda>_. None) (''t'' @ newline) 2 10 [] =
      (Inr (Some (message_with_ack toy_message)), [])"
    using process_line_verdict [of toy_env "''t'' @ newline" "[]"]
    by (simp add: toy_verdict del: append.simps) (simp add: toy_env_def newline_def numeral_2_eq_2)
  with read show "client_turn (toy_socket_env reads) 0
     (sw_clients (toy_state (''t'' @ newline) ReadingLine [] Idle b) ! 0) [] =
     (sw_clients (toy_state [] (Forwarding (message_with_ack toy_message)) [] Idle b) ! 0, [])"
    by (simp add: client_turn_def toy_state_def toy_socket_env_def del: append.simps)
qed (simp_all add: client_turn_def toy_state_def toy_socket_env_def toy_connection_def
    authorize_unix_client_def check_peer_authorization_def authorization_failure_for_uid_def
    authorization_failure_for_gid_def read_unix_client_line_def)

lemma toy_client_step:
  assumes "client_turn (toy_socket_env reads) 0 (sw_clients (toy_state r p items lp b) ! 0) [] =
      (sw_clients (toy_state r' p' items lp b) ! 0, [])"
    and "p \<in> {Authorizing, ReadingLine}" and "br_transport b = (\<lambda>_. [])"
  shows "work_step (toy_socket_env reads) (toy_state r p items lp b) (toy_state r' p' items lp b)"
proof -
  have "b\<lparr>br_transport := \<lambda>_. []\<rparr> = b" using assms(3) by (cases b) simp
  with work_step.client [of 0 "toy_state r p items lp b" "toy_socket_env reads" _ "[]"] assms show ?thesis
    by (simp add: toy_state_def writers_def set_writers_def fun_upd_idem)
qed

lemma work_then_run:
  "work_step env s t \<Longrightarrow> (socket_step env)\<^sup>*\<^sup>* t u \<Longrightarrow> (socket_step env)\<^sup>*\<^sup>* s u"
  by (rule converse_rtranclp_into_rtranclp [of "socket_step env" s t u]) (simp_all add: socket_step_def)

lemma toy_stall:
  obtains b where
    "(socket_step (toy_socket_env False))\<^sup>*\<^sup>*
       (UnixSocketSource_into_messages list_channel [Inr toy_connection] toy_sockets)
       (toy_state [] ReadingLine [] (Dispatched (OffsetDateTime 5) (own_message 0 toy_message) False) b)"
    "br_transport b = (\<lambda>_. [])"
proof -
  let ?env = "toy_socket_env False" and ?m = "own_message 0 toy_message" and ?t = "OffsetDateTime 5"
  let ?b = "cache_incoming (socket_loop_env ?env) ?t ?m toy_sockets"
  let ?L = "''t'' @ newline"
  have quiet: "br_transport toy_sockets = (\<lambda>_. [])" by (simp add: toy_sockets_def)
  have ch: "se_channel ?env = list_channel" by (simp add: toy_socket_env_def)
  have s0: "work_step ?env (UnixSocketSource_into_messages list_channel [Inr toy_connection] toy_sockets)
      (toy_state ?L Authorizing [] Idle toy_sockets)"
    using toy_accept [of False "[]"]
    by (simp add: UnixSocketSource_into_messages_def toy_state_def spawn_client_def list_channel_def
        UNIX_SOCKET_BACKLOG_def world_start_def toy_connection_def)
  have s1: "work_step ?env (toy_state ?L Authorizing [] Idle toy_sockets)
      (toy_state ?L ReadingLine [] Idle toy_sockets)"
    by (rule toy_client_step [OF toy_turns(1) _ quiet]) simp
  have s2: "work_step ?env (toy_state ?L ReadingLine [] Idle toy_sockets)
      (toy_state [] (Forwarding (message_with_ack toy_message)) [] Idle toy_sockets)"
    by (rule toy_client_step [OF toy_turns(2) _ quiet]) simp
  have s3: "work_step ?env (toy_state [] (Forwarding (message_with_ack toy_message)) [] Idle toy_sockets)
      (toy_state [] ReadingLine [Inr ?m] Idle toy_sockets)"
    using work_step.forward [of 0 "toy_state [] (Forwarding (message_with_ack toy_message)) [] Idle toy_sockets"
        "message_with_ack toy_message" ?env "(64, [Inr ?m])"]
    by (simp add: ch toy_state_def list_channel_def own_message_def)
  have s4: "work_step ?env (toy_state [] ReadingLine [Inr ?m] Idle toy_sockets)
      (toy_state [] ReadingLine [] (Cached ?t ?m) ?b)"
    using work_step.receive [of "toy_state [] ReadingLine [Inr ?m] Idle toy_sockets" ?env ?m "(64, [])" ?t]
    by (simp add: ch toy_state_def list_channel_def)
  have s5: "work_step ?env (toy_state [] ReadingLine [] (Cached ?t ?m) ?b)
      (toy_state [] ReadingLine [] (Dispatched ?t ?m False) ?b)"
    using work_step.dispatch [of "toy_state [] ReadingLine [] (Cached ?t ?m) ?b" ?t ?m ?env False ?b]
    by (simp add: toy_state_def dispatch_incoming_def) (simp add: toy_socket_env_def)
  have "(socket_step ?env)\<^sup>*\<^sup>*
      (UnixSocketSource_into_messages list_channel [Inr toy_connection] toy_sockets)
      (toy_state [] ReadingLine [] (Dispatched ?t ?m False) ?b)"
    by (rule work_then_run [OF s0] work_then_run [OF s1] work_then_run [OF s2] work_then_run [OF s3]
        work_then_run [OF s4] work_then_run [OF s5] rtranclp.rtrancl_refl)+
  with that [of ?b] show ?thesis by (simp add: quiet)
qed

theorem unread_replies_stop_the_bridge_witness:
  "\<exists>s t. (socket_step (toy_socket_env False))\<^sup>*\<^sup>*
       (UnixSocketSource_into_messages list_channel [Inr toy_connection] toy_sockets) s \<and>
     socket_step (toy_socket_env False) s t \<and> wd_acked (sw_world t) = [] \<and>
     in_hand (sw_world t) = [own_message 0 toy_message] \<and> sw_outcome t = None"
proof -
  let ?m = "own_message 0 toy_message" and ?t = "OffsetDateTime 5"
  obtain b where reach: "(socket_step (toy_socket_env False))\<^sup>*\<^sup>*
       (UnixSocketSource_into_messages list_channel [Inr toy_connection] toy_sockets)
       (toy_state [] ReadingLine [] (Dispatched ?t ?m False) b)" and b: "br_transport b = (\<lambda>_. [])"
    by (rule toy_stall)
  let ?s = "toy_state [] ReadingLine [] (Dispatched ?t ?m False) b"
  let ?u = "toy_state [] (Ended (Inr ())) [] (Dispatched ?t ?m False) b"
  have step: "socket_step (toy_socket_env False) ?s ?u"
    unfolding socket_step_def using toy_client_step [OF toy_turns(3) _ b] by simp
  then have "(socket_step (toy_socket_env False))\<^sup>*\<^sup>* ?s ?u" by simp
  from unread_replies_stop_the_bridge [where now = ?t and d = False, OF _ own_message_simps(2) _ this]
    reach step
  show ?thesis
    by (intro exI [of _ ?s] exI [of _ ?u]) (simp add: toy_state_def toy_socket_env_def in_hand_def)
qed

end
