(* ===== verification/Wire.thy ===== *)
theory Wire
  imports Supervisor
begin

text \<open>
  What message handling and interrogation give the library, point by point, through the whole of
  \<open>src/src/bridge.rs\<close> and \<open>src/src/asdu.rs\<close>: the type of each point, the ranges of its fields, its
  address and the time asked for. A point is an information object the library is asked to create,
  or the arguments of one of the server's methods for single, float and scaled points.
\<close>

section \<open>Reading the points\<close>

fun object_address :: "InformationObject \<Rightarrow> i32" where
  "object_address (SinglePointInformation a v q) = a"
| "object_address (MeasuredValueShort a x q) = a"
| "object_address (MeasuredValueScaled a n q) = a"
| "object_address (SinglePointWithCP56Time2a a v q ts) = a"
| "object_address (DoublePointWithCP56Time2a a v q ts) = a"
| "object_address (MeasuredValueScaledWithCP56Time2a a n q ts) = a"
| "object_address (MeasuredValueShortWithCP56Time2a a x q ts) = a"
| "object_address (MeasuredValueNormalizedWithCP56Time2a a x q ts) = a"

fun object_time :: "InformationObject \<Rightarrow> Timestamp option" where
  "object_time (SinglePointWithCP56Time2a a v q ts) = Some ts"
| "object_time (DoublePointWithCP56Time2a a v q ts) = Some ts"
| "object_time (MeasuredValueScaledWithCP56Time2a a n q ts) = Some ts"
| "object_time (MeasuredValueShortWithCP56Time2a a x q ts) = Some ts"
| "object_time (MeasuredValueNormalizedWithCP56Time2a a x q ts) = Some ts"
| "object_time _ = None"

text \<open>The ranges of the fields: scaled values of 16 bits, and no reserved bit in a quality.\<close>

definition quality_bits_only :: "Quality \<Rightarrow> bool" where
  "quality_bits_only q \<longleftrightarrow> q AND 0x0E = 0"

definition scaled_range :: "i32 \<Rightarrow> bool" where
  "scaled_range n \<longleftrightarrow> - 32768 \<le> sint n \<and> sint n \<le> 32767"

fun well_typed :: "InformationObject \<Rightarrow> bool" where
  "well_typed (SinglePointInformation a v q) = quality_bits_only q"
| "well_typed (MeasuredValueShort a x q) = quality_bits_only q"
| "well_typed (MeasuredValueScaled a n q) = (scaled_range n \<and> quality_bits_only q)"
| "well_typed (SinglePointWithCP56Time2a a v q ts) = quality_bits_only q"
| "well_typed (DoublePointWithCP56Time2a a v q ts) = quality_bits_only q"
| "well_typed (MeasuredValueScaledWithCP56Time2a a n q ts) = (scaled_range n \<and> quality_bits_only q)"
| "well_typed (MeasuredValueShortWithCP56Time2a a x q ts) = quality_bits_only q"
| "well_typed (MeasuredValueNormalizedWithCP56Time2a a x q ts) = quality_bits_only q"

text \<open>The methods of the server send types 1, 13 and 11, as their names say.\<close>

fun point_type :: "NativeCall \<Rightarrow> nat option" where
  "point_type (CreateIO io p) = Some (type_identification io)"
| "point_type (ServerSinglePoint cause ca ioa v q) = Some 1"
| "point_type (ServerMeasuredFloat cause ca ioa x q) = Some 13"
| "point_type (ServerMeasuredScaled cause ca ioa n q) = Some 11"
| "point_type _ = None"

fun point_address :: "NativeCall \<Rightarrow> int option" where
  "point_address (CreateIO io p) = Some (sint (object_address io))"
| "point_address (ServerSinglePoint cause ca ioa v q) = Some (int (unat ioa))"
| "point_address (ServerMeasuredFloat cause ca ioa x q) = Some (int (unat ioa))"
| "point_address (ServerMeasuredScaled cause ca ioa n q) = Some (int (unat ioa))"
| "point_address _ = None"

fun point_time :: "NativeCall \<Rightarrow> Timestamp option" where
  "point_time (CreateIO io p) = object_time io"
| "point_time _ = None"

fun point_typed :: "NativeCall \<Rightarrow> bool" where
  "point_typed (CreateIO io p) = well_typed io"
| "point_typed (ServerSinglePoint cause ca ioa v q) = quality_bits_only q"
| "point_typed (ServerMeasuredFloat cause ca ioa x q) = quality_bits_only q"
| "point_typed (ServerMeasuredScaled cause ca ioa n q) = quality_bits_only q"
| "point_typed _ = False"

text \<open>The calls added one point for each message, and \<open>Q\<close> holds of each message and its point.\<close>

definition adds_points ::
  "(Iec104Message \<Rightarrow> NativeCall \<Rightarrow> bool) \<Rightarrow> Iec104Message list \<Rightarrow> call_log \<Rightarrow> call_log \<Rightarrow> bool" where
  "adds_points Q msgs calls calls' \<longleftrightarrow> (\<exists>ps. points calls' = points calls @ ps \<and> list_all2 Q msgs ps)"

definition live_messages :: "('k, 't) LoopEnv \<Rightarrow> 'k IncomingMessage \<Rightarrow> Iec104Message list" where
  "live_messages env incoming = (if le_gi_only env then [] else [in_message incoming])"

definition cached_messages :: "(DataStore \<Rightarrow> point_key list) \<Rightarrow> DataStore \<Rightarrow> Iec104Message list" where
  "cached_messages order store = map cp_message (cached_points order store)"

section \<open>Documented types\<close>

text \<open>
  The type identification that the table of types in \<open>src/README.md\<close> gives for a data type; the
  schema's own comments in \<open>src/src/message.rs\<close> name the same types.
\<close>

fun documented_type :: "DataType \<Rightarrow> bool \<Rightarrow> nat" where
  "documented_type SinglePoint timed = (if timed then 30 else 1)"
| "documented_type DoublePoint timed = (if timed then 30 else 1)"
| "documented_type Scaled timed = (if timed then 35 else 11)"
| "documented_type Float timed = (if timed then 36 else 13)"
| "documented_type Normalized timed = (if timed then 34 else 9)"

definition time_sent :: "OutputPolicy \<Rightarrow> Iec104Message \<Rightarrow> OffsetDateTime option" where
  "time_sent policy msg = (if send_timestamps policy then msg_timestamp msg else None)"

section \<open>One request\<close>

text \<open>What the two paths make of a message before dispatch.\<close>

definition sent_form :: "OutputPolicy \<Rightarrow> Iec104Message \<Rightarrow> Outgoing \<Rightarrow> bool" where
  "sent_form policy msg out \<longleftrightarrow>
     effective_type (out_message out) = effective_type msg \<and>
     msg_timestamp (out_message out) = time_sent policy msg \<and> msg_ioa (out_message out) = msg_ioa msg"

lemma sent_forms:
  "sent_form policy msg (prepare_for_output msg received_at now policy)"
  "sent_form policy (cp_message point) (gi_outgoing now policy point)"
  by (simp_all add: sent_form_def time_sent_def effective_type_def prepare_for_output_def
      gi_outgoing_def Let_def)

text \<open>The point of a request, on the server and on a connection.\<close>

definition server_point :: "PointRequest \<Rightarrow> NativeCall" where
  "server_point = render ServerSinglePoint ServerMeasuredFloat ServerMeasuredScaled
     (\<lambda>td. CreateIO (timed_object td) 0)"

definition both_points :: "(NativeCall \<Rightarrow> bool) \<Rightarrow> PointRequest \<Rightarrow> bool" where
  "both_points Q req \<longleftrightarrow> Q (server_point req) \<and> Q (CreateIO (request_object req) 0)"

text \<open>A statement about the points of all requests carries over to the two handlers.\<close>

lemma live_adds_points:
  assumes "dispatch_incoming env now incoming b = (dispatched, b')"
    and "\<And>ca out. sent_form (le_policy env) (in_message incoming) out \<Longrightarrow>
      both_points (Q (in_message incoming)) (point_request ca out)"
  shows "adds_points Q (live_messages env incoming) (br_calls b) (br_calls b')"
  using dispatch_incoming_effect [OF assms(1)] assms(2) [OF sent_forms(1)]
  by (auto simp: adds_points_def live_messages_def both_points_def live_entry_def server_point_def)

lemma interrogation_adds_points:
  assumes "iterates order (br_store b)"
    and "interrogation_handler env station order default_ca policy conn box asdu station now b = (r, b')"
    and "\<And>point out. point \<in> set (cached_points order (br_store b)) \<Longrightarrow>
      sent_form policy (cp_message point) out \<Longrightarrow>
      both_points (Q (cp_message point)) (point_request default_ca out)"
  shows "adds_points Q (cached_messages order (br_store b)) (br_calls b) (br_calls b')"
proof -
  let ?point = "\<lambda>point. CreateIO (request_object (point_request default_ca (gi_outgoing now policy point))) 0"
  obtain mid confirmed terminated where
    "br_calls b' = br_calls b @ [SendActCon conn box False confirmed] @ mid @ [SendActTerm conn box terminated]"
    "points mid = map ?point (cached_points order (br_store b))"
    using station_interrogation_calls [OF assms(1,2)] by (auto simp: o_def)
  moreover have "list_all2 (\<lambda>point. Q (cp_message point)) (cached_points order (br_store b))
      (map ?point (cached_points order (br_store b)))"
    using assms(3) [OF _ sent_forms(2)]
    by (simp add: list_all2_map2 list_all2_same both_points_def)
  ultimately show ?thesis
    by (simp add: adds_points_def cached_messages_def list_all2_map1)
qed

lemma cached_points_ran:
  "iterates order store \<Longrightarrow> point \<in> set (cached_points order store) \<Longrightarrow> point \<in> ran store"
  by (auto simp: cached_points_def iterates_def intro: ranI)

section \<open>Facts about single points\<close>

lemma small_sint:
  fixes w :: u32
  assumes "unat w < 2 ^ 31"
  shows "sint w = int (unat w)"
proof -
  have "uint w < 2 ^ 31"
    using assms by (simp only: unat_eq_nat_uint nat_less_iff [OF uint_ge_0]) simp
  moreover have "- (2 ^ 31) \<le> uint w" by (rule order_trans [OF _ uint_ge_0]) simp
  ultimately have "signed_take_bit 31 (uint w) = uint w" by (simp add: signed_take_bit_int_eq_self)
  then show ?thesis by (simp add: sint_uint)
qed

lemma wire_quality_typed: "quality_bits_only (wire_quality out)"
  by (cases "msg_quality (out_message out)"; cases "not_topical out")
    (simp_all add: quality_bits_only_def wire_quality_def quality_bits)

lemma scast_scaled_range: "scaled_range (scast (n :: i16))"
proof -
  have "sint (scast n :: i32) = sint n" by (rule sint_up_scast) (simp add: is_up)
  then show ?thesis using sint_range_size [of n] by (simp add: scaled_range_def word_size)
qed

lemma timed_scaled_range: "scaled_range (timed_scaled_value v)"
proof (cases v)
  case (Bool b)
  then show ?thesis by (cases b) (simp_all add: scaled_range_def timed_scaled_value_def)
next
  case (Number x)
  then show ?thesis
    using saturate_bounds [of "- 32768" 32767 x]
    by (simp add: scaled_range_def timed_scaled_value_number)
qed

lemma request_typed:
  assumes "sent_form policy msg out"
  shows "both_points (\<lambda>p. point_typed p \<and> point_type p = Some
    (if effective_type msg = Normalized \<and> time_sent policy msg = None then 13
     else documented_type (effective_type msg) (time_sent policy msg \<noteq> None))) (point_request ca out)"
  using assms wire_quality_typed [of out]
  by (cases "effective_type msg"; cases "time_sent policy msg")
    (simp_all add: sent_form_def both_points_def server_point_def request_object_def point_request_def
      timed_object_def scast_scaled_range timed_scaled_range Let_def)

lemma object_address_information [simp]: "object_address (information_object ioa v ty q ts) = ioa"
  by (cases ty) simp_all

lemma object_time_information [simp]: "object_time (information_object ioa v ty q ts) = Some ts"
  by (cases ty) simp_all

lemma request_address_kept:
  assumes "sent_form policy msg out" and "unat (msg_ioa msg) < 2 ^ 31"
  shows "both_points (\<lambda>p. point_address p = Some (int (unat (msg_ioa msg)))) (point_request ca out)"
  using assms small_sint [OF assms(2)]
  by (auto simp: sent_form_def both_points_def server_point_def request_object_def point_request_def
      timed_object_def Let_def split: option.split)

lemma request_time:
  assumes "sent_form policy msg out"
  shows "both_points (\<lambda>p. point_time p =
    map_option offset_datetime_to_cp56_timestamp (time_sent policy msg)) (point_request ca out)"
  using assms
  by (auto simp: sent_form_def both_points_def server_point_def request_object_def point_request_def
      timed_object_def Let_def split: option.split)

section \<open>Properties\<close>


text \<open>Two handlers on a bridge that has one cached point, with their points.\<close>

definition toy_incoming :: "string IncomingMessage" where
  "toy_incoming = message_with_ack timed_message"

lemma toy_handlers:
  obtains dispatched b1 r b2 where
    "dispatch_incoming toy_loop_env (OffsetDateTime 5) toy_incoming one_point = (dispatched, b1)"
    "interrogation_handler (le_native toy_loop_env) 20 (\<lambda>_. [(1, 1)]) (le_default_ca toy_loop_env)
       (le_policy toy_loop_env) 7 80 request_example 20 (OffsetDateTime 5) one_point = (r, b2)"
  by (meson surj_pair)

lemma toy_order: "iterates (\<lambda>_. [(1, 1)]) (br_store one_point)"
  by (auto simp: iterates_def one_point_def split: if_splits)

lemma toy_messages:
  "live_messages toy_loop_env toy_incoming = [timed_message]"
  "cached_messages (\<lambda>_. [(1, 1)]) (br_store one_point) = [toy_message]"
  "br_calls one_point = []" "le_policy toy_loop_env = OutputPolicy_default"
  by (simp_all add: live_messages_def cached_messages_def cached_points_def toy_incoming_def one_point_def
      toy_loop_env_def toy_bridge_def message_with_ack_def with_ack_def)


text \<open>C30: A valid message, received or cached, is given to the library with its own object address, as
  a positive number of the 24-bit range: neither dispatch nor the cast to a signed 32-bit address
  changes it, on the server and in an interrogation.\<close>

theorem valid_address_on_wire:
  assumes "dispatch_incoming env now incoming b = (dispatched, b1)"
    and "iterates order (br_store b)"
    and "interrogation_handler (le_native env) station order (le_default_ca env) (le_policy env) conn
      box asdu station now b = (r, b2)"
    and "validate_message (in_message incoming) = Inr ()"
    and "\<forall>point \<in> ran (br_store b). validate_message (cp_message point) = Inr ()"
  defines "Q \<equiv> \<lambda>msg p. point_address p = Some (int (unat (msg_ioa msg))) \<and>
      1 \<le> unat (msg_ioa msg) \<and> unat (msg_ioa msg) < 2 ^ 24"
  shows "adds_points Q (live_messages env incoming) (br_calls b) (br_calls b1) \<and>
    adds_points Q (cached_messages order (br_store b)) (br_calls b) (br_calls b2)"
proof -
  have kept: "both_points (Q msg) (point_request ca out)"
    if "validate_message msg = Inr ()" and "sent_form (le_policy env) msg out" for msg ca out
  proof -
    have range: "1 \<le> unat (msg_ioa msg)" "unat (msg_ioa msg) \<le> 16777215"
      using that(1) by (simp_all add: validate_message_iff valid_message_def)
    then have "unat (msg_ioa msg) < 2 ^ 31" "unat (msg_ioa msg) < 2 ^ 24" by simp_all
    with range(1) request_address_kept [OF that(2), of ca] show ?thesis
      unfolding Q_def both_points_def by blast
  qed
  show ?thesis
    using kept assms(4,5) cached_points_ran [OF assms(2)]
    by (intro conjI live_adds_points [OF assms(1)] interrogation_adds_points [OF assms(2,3)]) blast+
qed

theorem valid_address_on_wire_witness:
  "\<exists>dispatched b1 r b2.
     dispatch_incoming toy_loop_env (OffsetDateTime 5) toy_incoming one_point = (dispatched, b1) \<and>
     interrogation_handler (queue_env 5) 20 (\<lambda>_. [(1, 1)]) 1 OutputPolicy_default 7 80 request_example 20
       (OffsetDateTime 5) one_point = (r, b2) \<and>
     map point_address (points (br_calls b1)) = [Some 1] \<and> map point_address (points (br_calls b2)) = [Some 1]"
proof (rule toy_handlers)
  fix dispatched b1 r b2
  assume run: "dispatch_incoming toy_loop_env (OffsetDateTime 5) toy_incoming one_point = (dispatched, b1)"
    "interrogation_handler (le_native toy_loop_env) 20 (\<lambda>_. [(1, 1)]) (le_default_ca toy_loop_env)
       (le_policy toy_loop_env) 7 80 request_example 20 (OffsetDateTime 5) one_point = (r, b2)"
  have "validate_message toy_message = Inr ()" "validate_message timed_message = Inr ()"
    by (simp_all add: validate_message_iff valid_message_def toy_message_def timed_message_def)
  then have valid: "validate_message (in_message toy_incoming) = Inr ()"
    "\<forall>point \<in> ran (br_store one_point). validate_message (cp_message point) = Inr ()"
    by (auto simp: toy_incoming_def message_with_ack_def with_ack_def one_point_def ran_def split: if_splits)
  from valid_address_on_wire [OF run(1) toy_order run(2) valid]
  have "map point_address (points (br_calls b1)) = [Some 1]" "map point_address (points (br_calls b2)) = [Some 1]"
    unfolding adds_points_def toy_messages
    by (auto simp: list_all2_Cons1 timed_message_def toy_message_def)
  with run show ?thesis by (simp add: toy_loop_env_def)
qed

text \<open>C27: The time tag of a point, received or replayed, is asked of the library for the message's own
  timestamp, or there is none if no time is sent. The milliseconds asked for are the milliseconds of
  the timestamp, rounded down, exactly when it lies between 1970 and 2^64 nanoseconds later (in
  the year 2554); outside, they differ. How the library encodes the milliseconds it is asked for
  (a CP56Time2a year has two digits) is not part of this.\<close>

theorem time_tags_request_exact_ms:
  assumes "dispatch_incoming env now incoming b = (dispatched, b1)"
    and "iterates order (br_store b)"
    and "interrogation_handler (le_native env) station order (le_default_ca env) (le_policy env) conn
      box asdu station now b = (r, b2)"
  defines "Q \<equiv> \<lambda>msg p.
      (case time_sent (le_policy env) msg of
         None \<Rightarrow> point_time p = None
       | Some t \<Rightarrow> \<exists>ms. point_time p = Some (Timestamp_from_ms ms) \<and>
           (int (unat ms) = unix_timestamp_nanos t div 1000000 \<longleftrightarrow>
              0 \<le> unix_timestamp_nanos t \<and> unix_timestamp_nanos t < 2 ^ 64))"
  shows "adds_points Q (live_messages env incoming) (br_calls b) (br_calls b1) \<and>
    adds_points Q (cached_messages order (br_store b)) (br_calls b) (br_calls b2)"
proof -
  have exact: "both_points (Q msg) (point_request ca out)" if "sent_form (le_policy env) msg out" for msg ca out
  proof (cases "time_sent (le_policy env) msg")
    case None
    with request_time [OF that, of ca] show ?thesis by (simp add: Q_def both_points_def)
  next
    case (Some t)
    let ?ts = "offset_datetime_to_cp56_timestamp t"
    have "Q msg p" if "point_time p = Some ?ts" for p
      unfolding Q_def Some option.case
    proof (intro exI conjI)
      show "point_time p = Some (Timestamp_from_ms (requested_ms ?ts))" using that by simp
    qed (rule requested_ms_exact_iff)
    with request_time [OF that, of ca] show ?thesis by (simp add: Some both_points_def)
  qed
  show ?thesis
    by (intro conjI live_adds_points [OF assms(1)] interrogation_adds_points [OF assms(2,3)] exact)
qed

text \<open>A message of 2 milliseconds after 1970, and a cached one without a timestamp.\<close>

theorem time_tags_request_exact_ms_witness:
  "\<exists>dispatched b1 r b2 ms.
     dispatch_incoming toy_loop_env (OffsetDateTime 5) toy_incoming one_point = (dispatched, b1) \<and>
     interrogation_handler (queue_env 5) 20 (\<lambda>_. [(1, 1)]) 1 OutputPolicy_default 7 80 request_example 20
       (OffsetDateTime 5) one_point = (r, b2) \<and>
     map point_time (points (br_calls b1)) = [Some (Timestamp_from_ms ms)] \<and> int (unat ms) = 2 \<and>
     map point_time (points (br_calls b2)) = [None]"
proof (rule toy_handlers)
  fix dispatched b1 r b2
  assume run: "dispatch_incoming toy_loop_env (OffsetDateTime 5) toy_incoming one_point = (dispatched, b1)"
    "interrogation_handler (le_native toy_loop_env) 20 (\<lambda>_. [(1, 1)]) (le_default_ca toy_loop_env)
       (le_policy toy_loop_env) 7 80 request_example 20 (OffsetDateTime 5) one_point = (r, b2)"
  from time_tags_request_exact_ms [OF run(1) toy_order run(2)]
  have "\<exists>ms. map point_time (points (br_calls b1)) = [Some (Timestamp_from_ms ms)] \<and> int (unat ms) = 2"
    "map point_time (points (br_calls b2)) = [None]"
    unfolding adds_points_def toy_messages
    by (auto simp: list_all2_Cons1 timed_message_def toy_message_def time_sent_def OutputPolicy_default_def)
  with run show ?thesis by (simp add: toy_loop_env_def)
qed

end
