(* ===== verification/MetricsPage.thy ===== *)
theory MetricsPage
  imports Supervisor
begin

text \<open>
  The page of the metrics endpoint of \<open>src/src/main.rs\<close>, read the way a scraper reads it: an HTTP
  response is split into status, headers and body, and the body into the samples and the metric
  types of the Prometheus text format. The reader is executable and knows nothing of how the page
  is written.
\<close>

section \<open>Reading a response\<close>

text \<open>The lines of the head, each ended by CR and LF, up to the first empty one; then the body.\<close>

fun read_head :: "string \<Rightarrow> string \<Rightarrow> (string list \<times> string) option" where
  "read_head line (c # d # cs) =
     (if c = CHR 0x0D \<and> d = CHR 0x0A
      then if line = [] then Some ([], cs) else map_option (apfst ((#) line)) (read_head [] cs)
      else read_head (line @ [c]) (d # cs))"
| "read_head line _ = None"

fun cut_at :: "char \<Rightarrow> string \<Rightarrow> (string \<times> string) option" where
  "cut_at sep [] = None"
| "cut_at sep (c # cs) = (if c = sep then Some ([], cs) else map_option (apfst ((#) c)) (cut_at sep cs))"

text \<open>A header is a name and, after a colon and a space, a value.\<close>

definition read_header :: "string \<Rightarrow> (string \<times> string) option" where
  "read_header line =
     (case cut_at (CHR '':'') line of
        Some (name, c # value) \<Rightarrow> if c = CHR '' '' then Some (name, value) else None
      | _ \<Rightarrow> None)"

definition header :: "string \<Rightarrow> string list \<Rightarrow> string option" where
  "header name lines = map_of (List.map_filter read_header lines) name"

definition read_number :: "string \<Rightarrow> nat option" where
  "read_number s = (if s \<noteq> [] \<and> list_all is_digit s then Some (numeral_value 0 s) else None)"

text \<open>A sample is a name and a number; a line that begins with \<open># TYPE\<close> names a metric and its type.\<close>

definition read_sample :: "string \<Rightarrow> (string \<times> nat option) option" where
  "read_sample line =
     (if line = [] \<or> hd line = CHR ''#'' then None
      else map_option (apsnd read_number) (cut_at (CHR '' '') line))"

definition read_type :: "string \<Rightarrow> (string \<times> string) option" where
  "read_type line =
     (if take 7 line = ''# TYPE '' then cut_at (CHR '' '') (drop 7 line) else None)"

definition samples :: "string \<Rightarrow> (string \<times> nat option) list" where
  "samples body = List.map_filter read_sample (split_on (CHR 0x0A) body)"

definition metric_types :: "string \<Rightarrow> (string \<times> string) list" where
  "metric_types body = List.map_filter read_type (split_on (CHR 0x0A) body)"

text \<open>What a page must say about the state it was served in.\<close>

definition reports :: "'t Bridge \<Rightarrow> string \<Rightarrow> bool" where
  "reports b page \<longleftrightarrow>
     (\<exists>lines body. read_head [] page = Some (''HTTP/1.1 200 OK'' # lines, body) \<and>
        map_option read_number (header ''Content-Length'' lines) = Some (Some (length body)) \<and>
        header ''Content-Type'' lines = Some ''text/plain; version=0.0.4'' \<and>
        header ''Connection'' lines = Some ''close'' \<and>
        samples body =
          [(''iec104bridge_cache_size'', Some (card (dom (br_store b)))),
           (''iec104bridge_messages_dispatched_total'', Some (unat (messages_dispatched (br_metrics b)))),
           (''iec104bridge_gi_responses_total'', Some (unat (gi_responses (br_metrics b))))] \<and>
        metric_types body =
          [(''iec104bridge_cache_size'', ''gauge''),
           (''iec104bridge_messages_dispatched_total'', ''counter''),
           (''iec104bridge_gi_responses_total'', ''counter'')])"

section \<open>Reading what the endpoint writes\<close>

lemma read_head_line:
  "CHR 0x0D \<notin> set l \<Longrightarrow> read_head acc (l @ crlf @ rest) =
     (if acc @ l = [] then Some ([], rest) else map_option (apfst ((#) (acc @ l))) (read_head [] rest))"
proof (induction l arbitrary: acc)
  case (Cons c l)
  then show ?case by (cases l) (auto simp: crlf_def)
qed (simp add: crlf_def)

text \<open>A head written as non-empty lines is read as these lines.\<close>

lemma read_head_lines:
  "list_all (\<lambda>l. l \<noteq> [] \<and> CHR 0x0D \<notin> set l) ls \<Longrightarrow>
     read_head [] (concat (map (\<lambda>l. l @ crlf) ls) @ crlf @ body) = Some (ls, body)"
  using read_head_line [of "[]" "[]" body] by (induction ls) (simp_all add: read_head_line)

lemma split_on_line: "sep \<notin> set l \<Longrightarrow> split_on sep (l @ sep # rest) = l # split_on sep rest"
  by (induction l) auto

lemma cut_at_name: "sep \<notin> set l \<Longrightarrow> cut_at sep (l @ sep # rest) = Some (l, rest)"
  by (induction l) auto

lemma decimal_no_char:
  assumes "\<not> is_digit c"
  shows "c \<notin> set (decimal n)"
  using assms decimal_digits [of n] by (auto simp: list_all_iff)

lemma read_number_decimal [simp]: "read_number (decimal n) = Some n"
  by (simp add: read_number_def decimal_digits numeral_value_decimal)

lemma no_digits: "\<not> is_digit (CHR 0x0A)" "\<not> is_digit (CHR 0x0D)"
  by (simp_all add: is_digit_def digit_value_def)

lemmas decimal_lines [simp] = no_digits [THEN decimal_no_char]

text \<open>One sample line, and the lines of the page.\<close>

lemma read_sample_line:
  assumes "CHR '' '' \<notin> set name" and "name \<noteq> []" and "hd name \<noteq> CHR ''#''"
  shows "read_sample (name @ CHR '' '' # decimal n) = Some (name, Some n)"
  using assms cut_at_name [OF assms(1), of "decimal n"] by (cases name) (simp_all add: read_sample_def)

lemma body_lines:
  "split_on (CHR 0x0A) (metrics_body cache_size dispatched gi) =
     [''# HELP iec104bridge_cache_size Number of data points currently cached'',
      ''# TYPE iec104bridge_cache_size gauge'',
      ''iec104bridge_cache_size'' @ CHR '' '' # decimal cache_size,
      ''# HELP iec104bridge_messages_dispatched_total Total IEC-104 messages dispatched'',
      ''# TYPE iec104bridge_messages_dispatched_total counter'',
      ''iec104bridge_messages_dispatched_total'' @ CHR '' '' # decimal (unat dispatched),
      ''# HELP iec104bridge_gi_responses_total Total General Interrogation responses'',
      ''# TYPE iec104bridge_gi_responses_total counter'',
      ''iec104bridge_gi_responses_total'' @ CHR '' '' # decimal (unat gi),
      []]"
  unfolding metrics_body_def newline_sep_def
  by (simp add: split_on_line)

lemma body_samples:
  "samples (metrics_body cache_size dispatched gi) =
     [(''iec104bridge_cache_size'', Some cache_size),
      (''iec104bridge_messages_dispatched_total'', Some (unat dispatched)),
      (''iec104bridge_gi_responses_total'', Some (unat gi))]"
proof -
  have "read_sample (''iec104bridge_cache_size'' @ CHR '' '' # decimal n) =
      Some (''iec104bridge_cache_size'', Some n)"
    "read_sample (''iec104bridge_messages_dispatched_total'' @ CHR '' '' # decimal n) =
      Some (''iec104bridge_messages_dispatched_total'', Some n)"
    "read_sample (''iec104bridge_gi_responses_total'' @ CHR '' '' # decimal n) =
      Some (''iec104bridge_gi_responses_total'', Some n)" for n
    by (rule read_sample_line; simp)+
  moreover have "read_sample (CHR ''#'' # l) = None" "read_sample [] = None" for l
    by (simp_all add: read_sample_def)
  ultimately show ?thesis
    unfolding samples_def body_lines by (simp only: map_filter_simps option.case)
qed

lemma body_types:
  "metric_types (metrics_body cache_size dispatched gi) =
     [(''iec104bridge_cache_size'', ''gauge''),
      (''iec104bridge_messages_dispatched_total'', ''counter''),
      (''iec104bridge_gi_responses_total'', ''counter'')]"
  unfolding metric_types_def body_lines by (simp add: read_type_def)

lemma page_head:
  "read_head [] (''HTTP/1.1 200 OK'' @ crlf @ ''Content-Type: text/plain; version=0.0.4'' @ crlf @
      ''Content-Length: '' @ decimal n @ crlf @ ''Connection: close'' @ crlf @ crlf @ body) =
   Some ([''HTTP/1.1 200 OK'', ''Content-Type: text/plain; version=0.0.4'',
      ''Content-Length: '' @ decimal n, ''Connection: close''], body)"
  using read_head_lines [where body = body and ls = "[''HTTP/1.1 200 OK'',
    ''Content-Type: text/plain; version=0.0.4'', ''Content-Length: '' @ decimal n, ''Connection: close'']"]
  by (simp del: read_head.simps)

lemma page_reports:
  assumes "iterates order (br_store b)"
  shows "reports b (serve_metrics_connection order b)"
proof -
  have size: "length (order (br_store b)) = card (dom (br_store b))"
    using assms distinct_card by (fastforce simp: iterates_def)
  let ?body = "metrics_body (card (dom (br_store b))) (messages_dispatched (br_metrics b))
    (gi_responses (br_metrics b))"
  let ?lines = "[''Content-Type: text/plain; version=0.0.4'',
    ''Content-Length: '' @ decimal (length ?body), ''Connection: close'']"
  have "read_head [] (serve_metrics_connection order b) = Some (''HTTP/1.1 200 OK'' # ?lines, ?body)"
    unfolding serve_metrics_connection_def size Let_def by (rule page_head)
  moreover have "header ''Content-Length'' ?lines = Some (decimal (length ?body))"
    "header ''Content-Type'' ?lines = Some ''text/plain; version=0.0.4''"
    "header ''Connection'' ?lines = Some ''close''"
    by (simp_all add: header_def read_header_def)
  ultimately show ?thesis
    unfolding reports_def using body_samples body_types
    by (intro exI [of _ ?lines] exI [of _ ?body]) simp
qed

section \<open>Properties\<close>

text \<open>C39: A bound metrics endpoint answers every accepted connection, in order, with a page that a
  scraper reads as status 200 with the exact length and the text format's content type, and whose
  samples are the number of cached points and the two counters, under their names and with their
  types, as they are when the page is served; failed accepts are skipped, and without its port
  the endpoint serves nothing.\<close>

theorem metrics_endpoint_serves:
  assumes "\<And>b. Inr b \<in> set events \<Longrightarrow> iterates order (br_store b)"
  shows "if binds (''0.0.0.0:'' @ decimal (unat port))
    then list_all2 reports (List.map_filter (case_sum (\<lambda>_. None) Some) events)
      (spawn_metrics_http_server binds order port events)
    else spawn_metrics_http_server binds order port events = []"
proof -
  have "list_all2 reports (List.map_filter (case_sum (\<lambda>_. None) Some) events)
      (metrics_accept_loop order events)"
    using assms by (induction order events rule: metrics_accept_loop.induct)
      (simp_all add: page_reports)
  then show ?thesis
    by (simp add: spawn_metrics_http_server_def bind_metrics_listener_def bind_metrics_addr_def)
qed

theorem metrics_endpoint_serves_witness:
  "\<exists>page lines body. spawn_metrics_http_server (\<lambda>_. True) (\<lambda>_. [(1, 1)]) 9100 [Inl NotFound, Inr one_point]
       = [page] \<and> read_head [] page = Some (''HTTP/1.1 200 OK'' # lines, body) \<and>
     samples body = [(''iec104bridge_cache_size'', Some 1),
       (''iec104bridge_messages_dispatched_total'', Some 0),
       (''iec104bridge_gi_responses_total'', Some 0)]"
proof -
  have one: "br_store one_point = [(1, 1) \<mapsto> \<lparr>cp_message = toy_message, cp_received_at = OffsetDateTime 0\<rparr>]"
    "br_metrics one_point = \<lparr>messages_dispatched = 0, gi_responses = 0\<rparr>"
    by (simp_all add: one_point_def toy_bridge_def Metrics_default_def)
  have "iterates (\<lambda>_. [(1, 1)]) (br_store one_point)"
    by (auto simp: iterates_def one split: if_splits)
  with metrics_endpoint_serves [where events = "[Inl NotFound, Inr one_point]" and
      order = "\<lambda>_. [(1, 1)]" and binds = "\<lambda>_. True" and port = 9100]
  have "list_all2 reports [one_point]
      (spawn_metrics_http_server (\<lambda>_. True) (\<lambda>_. [(1, 1)]) 9100 [Inl NotFound, Inr one_point])"
    by simp
  then show ?thesis
    by (auto simp: one reports_def list_all2_Cons1)
qed

end
