(* ===== verification/MessageFormat.thy ===== *)
theory MessageFormat
  imports Message
begin

text \<open>
  The documented JSON form of a message, as a specification of the deserialiser of
  \<open>src/src/message.rs\<close>: what each field looks like, which fields may be left out, and that every
  message is read back from its form, whatever the order and the keys around it.
\<close>

section \<open>The form of a field\<close>

fun DataType_name :: "DataType \<Rightarrow> string" where
  "DataType_name Float = ''float''"
| "DataType_name Scaled = ''scaled''"
| "DataType_name Normalized = ''normalized''"
| "DataType_name SinglePoint = ''single_point''"
| "DataType_name DoublePoint = ''double_point''"

fun QualityField_name :: "QualityField \<Rightarrow> string" where
  "QualityField_name Good = ''good''"
| "QualityField_name Invalid = ''invalid''"
| "QualityField_name NotTopical = ''not_topical''"
| "QualityField_name Substituted = ''substituted''"
| "QualityField_name Blocked = ''blocked''"
| "QualityField_name Overflow = ''overflow''"

fun CotField_name :: "CotField \<Rightarrow> string" where
  "CotField_name Spontaneous = ''spontaneous''"
| "CotField_name Periodic = ''periodic''"
| "CotField_name BackgroundScan = ''background_scan''"
| "CotField_name Interrogated = ''interrogated''"
| "CotField_name ReturnInfoRemote = ''return_info_remote''"
| "CotField_name ReturnInfoLocal = ''return_info_local''"

fun json_value :: "DataValue \<Rightarrow> json" where
  "json_value (Bool b) = JBool b"
| "json_value (Number x) = JNumber (FloatNum x)"

definition json_optional :: "('a \<Rightarrow> json) \<Rightarrow> 'a option \<Rightarrow> json" where
  "json_optional form x = (case x of None \<Rightarrow> JNull | Some a \<Rightarrow> form a)"

fun json_field :: "(OffsetDateTime \<Rightarrow> string) \<Rightarrow> Iec104Message \<Rightarrow> Field \<Rightarrow> json" where
  "json_field format m FIoa = JNumber (PosInt (ucast (msg_ioa m)))"
| "json_field format m FValue = json_value (msg_value m)"
| "json_field format m FType = json_optional (JString \<circ> DataType_name) (msg_data_type m)"
| "json_field format m FCa = json_optional (\<lambda>ca. JNumber (PosInt (ucast ca))) (msg_ca m)"
| "json_field format m FQuality = JString (QualityField_name (msg_quality m))"
| "json_field format m FCot = JString (CotField_name (msg_cot m))"
| "json_field format m FTimestamp = json_optional (JString \<circ> format) (msg_timestamp m)"

text \<open>The fields that may be left out: optional ones whose value is the default.\<close>

fun is_default :: "Iec104Message \<Rightarrow> Field \<Rightarrow> bool" where
  "is_default m FIoa = False"
| "is_default m FValue = False"
| "is_default m FType = (msg_data_type m = None)"
| "is_default m FCa = (msg_ca m = None)"
| "is_default m FQuality = (msg_quality m = Good)"
| "is_default m FCot = (msg_cot m = Spontaneous)"
| "is_default m FTimestamp = (msg_timestamp m = None)"

text \<open>The documented keys, and the entries of the form: the fields of \<open>keep\<close> in schema order.\<close>

fun documented_key :: "Field \<Rightarrow> string" where
  "documented_key FIoa = ''ioa''"
| "documented_key FValue = ''value''"
| "documented_key FType = ''type''"
| "documented_key FCa = ''ca''"
| "documented_key FQuality = ''quality''"
| "documented_key FCot = ''cot''"
| "documented_key FTimestamp = ''timestamp''"

definition documented_keys :: "string list" where
  "documented_keys = [''ioa'', ''value'', ''type'', ''ca'', ''quality'', ''cot'', ''timestamp'']"

definition message_object ::
  "(OffsetDateTime \<Rightarrow> string) \<Rightarrow> (Field \<Rightarrow> bool) \<Rightarrow> Iec104Message \<Rightarrow> (string \<times> json) list" where
  "message_object format keep m =
     map (\<lambda>f. (documented_key f, json_field format m f)) (filter keep fields)"

section \<open>Reading the form\<close>

lemma variant_of_name [simp]:
  "DataType_variant (DataType_name t) = Some t"
  "QualityField_variant (QualityField_name q) = Some q"
  "CotField_variant (CotField_name c) = Some c"
  by (cases t, simp_all add: DataType_variant_def)
    (cases q, simp_all add: QualityField_variant_def,
     cases c, simp_all add: CotField_variant_def)

lemma integer_widened [simp]:
  "unat (ucast (a :: u32) :: u64) < 4294967296" "ucast (ucast a :: u64) = a"
  "unat (ucast (ca :: u16) :: u64) < 65536" "ucast (ucast ca :: u64) = ca"
proof -
  have "unat (ucast a :: u64) \<le> unat a" "unat (ucast ca :: u64) \<le> unat ca"
    by (simp_all add: unsigned_ucast_eq take_bit_eq_mod)
  then show "unat (ucast a :: u64) < 4294967296" "unat (ucast ca :: u64) < 65536"
    using unsigned_less [of a, where ?'a = nat] unsigned_less [of ca, where ?'a = nat] by simp_all
  show "ucast (ucast a :: u64) = a" "ucast (ucast ca :: u64) = ca"
    by (simp_all add: ucast_up_ucast_id is_up)
qed

lemma de_Option_Some: "de j = Some x \<Longrightarrow> j \<noteq> JNull \<Longrightarrow> de_Option de j = Some (Some x)"
  by (cases j) auto

lemma json_field_reads:
  assumes "\<And>t. msg_timestamp m = Some t \<Longrightarrow> rfc (format t) = Some t"
  shows "field_reads rfc f (json_field format m f) m"
proof (cases f)
  case FValue
  then show ?thesis by (cases "msg_value m") (auto simp: field_reads_def)
next
  case FTimestamp
  then show ?thesis
    using assms by (cases "msg_timestamp m") (auto simp: field_reads_def json_optional_def)
qed (auto simp: field_reads_def json_optional_def de_Option_Some split: option.split)

lemma is_default_agrees: "is_default m f \<Longrightarrow> field_agrees f blank_message m"
  by (cases f) (auto simp: blank_message_def QualityField_default_def CotField_default_def)

lemma distinct_fields: "distinct fields" "set fields = UNIV"
  using Field.exhaust by (auto simp: fields_def)

lemma field_of_documented [simp]: "field_of (documented_key f) = Some f"
  by (cases f) simp_all

lemma field_of_undocumented: "k \<notin> set documented_keys \<Longrightarrow> field_of k = None"
  by (auto simp: field_of_def fields_def documented_keys_def)

lemma known_entries_documented:
  "known_entries (filter (\<lambda>kj. fst kj \<in> set documented_keys) kvs) = known_entries kvs"
  by (induction kvs) (auto simp: field_of_undocumented split: option.split)

definition message_entries ::
  "(OffsetDateTime \<Rightarrow> string) \<Rightarrow> (Field \<Rightarrow> bool) \<Rightarrow> Iec104Message \<Rightarrow> (Field \<times> json) list" where
  "message_entries format keep m = map (\<lambda>f. (f, json_field format m f)) (filter keep fields)"

lemma known_entries_object: "known_entries (message_object format keep m) = message_entries format keep m"
proof -
  have "known_entries (map (\<lambda>f. (documented_key f, j f)) fs) = map (\<lambda>f. (f, j f)) fs" for j fs
    by (induction fs) simp_all
  then show ?thesis by (simp add: message_object_def message_entries_def)
qed

lemma map_of_message_entries:
  "map_of (message_entries format keep m) f = (if keep f then Some (json_field format m f) else None)"
  unfolding message_entries_def map_of_map_keys
  by (simp add: map_of_map_restrict distinct_fields restrict_map_def)

section \<open>Properties\<close>

text \<open>C34: Every message can be written as JSON and is read back unchanged: in any order of its keys,
  with any other keys around them, with every optional field that has its default left out or
  written, and nothing is asked of the time format but that it reads what it prints.\<close>

theorem message_json_roundtrip:
  assumes "\<And>t. msg_timestamp m = Some t \<Longrightarrow> rfc (format t) = Some t"
    and "\<And>f. \<not> keep f \<Longrightarrow> is_default m f"
    and "mset (filter (\<lambda>kj. fst kj \<in> set documented_keys) kvs) = mset (message_object format keep m)"
  shows "deserialize_message rfc (JObject kvs) = Inr m"
proof -
  let ?form = "message_entries format keep m" and ?K = "known_entries kvs"
  have fsts: "map fst ?form = filter keep fields" by (simp add: message_entries_def o_def)
  have same: "mset ?K = mset ?form"
    using known_entries_permute [OF assms(3)]
    by (simp only: known_entries_documented known_entries_object)
  have "distinct (map fst ?form)" unfolding fsts using distinct_fields by simp
  moreover have "mset (map fst ?K) = mset (map fst ?form)" using same by simp
  ultimately have distinct: "distinct (map fst ?K)"
    and keys: "set (map fst ?K) = set (filter keep fields)"
    unfolding fsts [symmetric] by (metis mset_eq_imp_distinct_iff, metis mset_eq_setD)
  have "set ?K = set ?form" using same by (rule mset_eq_setD)
  with distinct \<open>distinct (map fst ?form)\<close> have entries: "map_of ?K = map_of ?form"
    by (simp add: map_of_inject_set)
  have "FIoa \<in> set (map fst ?K)" "FValue \<in> set (map fst ?K)"
    unfolding keys using assms(2) [of FIoa] assms(2) [of FValue] by (auto simp: distinct_fields)
  with distinct show ?thesis
    unfolding object_describes_iff object_describes_def entries map_of_message_entries
    using json_field_reads [OF assms(1)] is_default_agrees [OF assms(2)] by simp
qed

text \<open>The message 1.5 for point 100, invalid, with its keys reordered and a unit beside them.\<close>

theorem message_json_roundtrip_witness:
  "deserialize_message (\<lambda>_. None)
     (JObject [(''quality'', JString ''invalid''), (''unit'', JString ''A''),
       (''value'', JNumber (FloatNum (F64 0x3FF8000000000000))), (''ioa'', JNumber (PosInt 100))])
   = Inr (blank_message\<lparr>msg_ioa := 100, msg_value := Number (F64 0x3FF8000000000000),
       msg_quality := Invalid\<rparr>)"
  by (rule message_json_roundtrip [where format = "\<lambda>_. []" and keep = "\<lambda>f. f \<in> {FIoa, FValue, FQuality}"],
      simp add: blank_message_def, rename_tac f, case_tac f)
    (simp_all add: blank_message_def message_object_def documented_keys_def fields_def
      CotField_default_def)

end
