(* ===== verification/MessageTests.thy ===== *)
theory MessageTests
  imports Message
begin

text \<open>
  The unit tests of \<open>src/src/message.rs\<close>, replayed on the model: each test of the crate is the
  predicate it asserts, and each is shown to hold. A JSON text of a test is given by its syntax
  tree; the two texts with a valid timestamp and the one with an invalid one say what they need of
  the RFC 3339 parser and formatter of the \<open>time\<close> crate, \<open>rfc\<close> and \<open>format\<close>.
\<close>

named_theorems unit_test "tests of the crate that hold of the model"

section \<open>Assertions\<close>

abbreviation int_json :: "u64 \<Rightarrow> json" where
  "int_json n \<equiv> JNumber (PosInt n)"

abbreviation float_json :: "f64 \<Rightarrow> json" where
  "float_json x \<equiv> JNumber (FloatNum x)"

type_synonym rfc3339_parser = "string \<Rightarrow> OffsetDateTime option"
type_synonym rfc3339_formatter = "OffsetDateTime \<Rightarrow> string option"

text \<open>\<open>parse(json)\<close> panics, and so fails the test, on a message that cannot be read.\<close>

definition parses :: "rfc3339_parser \<Rightarrow> json \<Rightarrow> (Iec104Message \<Rightarrow> bool) \<Rightarrow> bool" where
  "parses rfc j asserts = (case deserialize_message rfc j of Inl _ \<Rightarrow> False | Inr msg \<Rightarrow> asserts msg)"

definition rejects :: "rfc3339_parser \<Rightarrow> json \<Rightarrow> bool" where
  "rejects rfc j \<longleftrightarrow> \<not> is_ok (deserialize_message rfc j)"

text \<open>What the tests use of RFC 3339: two texts are read, one of them is printed back, and one is not a time.\<close>

definition reads_test_times :: "rfc3339_parser \<Rightarrow> rfc3339_formatter \<Rightarrow> bool" where
  "reads_test_times rfc format \<longleftrightarrow>
     (case rfc ''2026-05-29T12:34:56.789Z'' of
        None \<Rightarrow> False
      | Some t \<Rightarrow> format t = Some ''2026-05-29T12:34:56.789Z'') \<and>
     rfc ''2026-05-29T12:34:56Z'' \<noteq> None \<and> rfc ''not-a-time'' = None"

section \<open>The tests\<close>

definition minimal_float_message :: "rfc3339_parser \<Rightarrow> bool" where
  "minimal_float_message rfc \<longleftrightarrow>
     parses rfc
       (JObject [(''ioa'', int_json 100), (''value'', float_json (F64 0x4045400000000000))])
       (\<lambda>msg. msg_ioa msg = 100 \<and> msg_value msg = Number (F64 0x4045400000000000) \<and> msg_data_type msg = None \<and>
         msg_ca msg = None \<and> msg_quality msg = Good \<and> msg_cot msg = Spontaneous \<and> msg_timestamp msg = None)"

definition minimal_bool_message :: "rfc3339_parser \<Rightarrow> bool" where
  "minimal_bool_message rfc \<longleftrightarrow>
     parses rfc
       (JObject [(''ioa'', int_json 200), (''value'', JBool True)])
       (\<lambda>msg. msg_ioa msg = 200 \<and> msg_value msg = Bool True)"

definition explicit_type_float :: "rfc3339_parser \<Rightarrow> bool" where
  "explicit_type_float rfc \<longleftrightarrow>
     parses rfc
       (JObject [(''ioa'', int_json 1), (''value'', float_json (F64 0x3FF0000000000000)),
          (''type'', JString ''float'')])
       (\<lambda>msg. msg_data_type msg = Some Float)"

definition explicit_type_scaled :: "rfc3339_parser \<Rightarrow> bool" where
  "explicit_type_scaled rfc \<longleftrightarrow>
     parses rfc
       (JObject [(''ioa'', int_json 1), (''value'', int_json 10), (''type'', JString ''scaled'')])
       (\<lambda>msg. msg_data_type msg = Some Scaled)"

definition explicit_type_normalized :: "rfc3339_parser \<Rightarrow> bool" where
  "explicit_type_normalized rfc \<longleftrightarrow>
     parses rfc
       (JObject [(''ioa'', int_json 1), (''value'', float_json (F64 0x3FE0000000000000)),
          (''type'', JString ''normalized'')])
       (\<lambda>msg. msg_data_type msg = Some Normalized)"

definition explicit_type_single_point :: "rfc3339_parser \<Rightarrow> bool" where
  "explicit_type_single_point rfc \<longleftrightarrow>
     parses rfc
       (JObject [(''ioa'', int_json 1), (''value'', JBool True),
          (''type'', JString ''single_point'')])
       (\<lambda>msg. msg_data_type msg = Some SinglePoint)"

definition explicit_type_double_point :: "rfc3339_parser \<Rightarrow> bool" where
  "explicit_type_double_point rfc \<longleftrightarrow>
     parses rfc
       (JObject [(''ioa'', int_json 1), (''value'', JBool True),
          (''type'', JString ''double_point'')])
       (\<lambda>msg. msg_data_type msg = Some DoublePoint)"

definition ca_field_present :: "rfc3339_parser \<Rightarrow> bool" where
  "ca_field_present rfc \<longleftrightarrow>
     parses rfc
       (JObject [(''ioa'', int_json 1), (''value'', int_json 0), (''ca'', int_json 5)])
       (\<lambda>msg. msg_ca msg = Some 5)"

definition ca_field_absent :: "rfc3339_parser \<Rightarrow> bool" where
  "ca_field_absent rfc \<longleftrightarrow>
     parses rfc
       (JObject [(''ioa'', int_json 1), (''value'', int_json 0)])
       (\<lambda>msg. msg_ca msg = None)"

definition quality_default_is_good :: "rfc3339_parser \<Rightarrow> bool" where
  "quality_default_is_good rfc \<longleftrightarrow>
     parses rfc
       (JObject [(''ioa'', int_json 1), (''value'', int_json 0)])
       (\<lambda>msg. msg_quality msg = Good)"

definition quality_invalid :: "rfc3339_parser \<Rightarrow> bool" where
  "quality_invalid rfc \<longleftrightarrow>
     parses rfc
       (JObject [(''ioa'', int_json 1), (''value'', int_json 0),
          (''quality'', JString ''invalid'')])
       (\<lambda>msg. msg_quality msg = Invalid)"

definition quality_not_topical :: "rfc3339_parser \<Rightarrow> bool" where
  "quality_not_topical rfc \<longleftrightarrow>
     parses rfc
       (JObject [(''ioa'', int_json 1), (''value'', int_json 0),
          (''quality'', JString ''not_topical'')])
       (\<lambda>msg. msg_quality msg = NotTopical)"

definition quality_substituted :: "rfc3339_parser \<Rightarrow> bool" where
  "quality_substituted rfc \<longleftrightarrow>
     parses rfc
       (JObject [(''ioa'', int_json 1), (''value'', int_json 0),
          (''quality'', JString ''substituted'')])
       (\<lambda>msg. msg_quality msg = Substituted)"

definition quality_blocked :: "rfc3339_parser \<Rightarrow> bool" where
  "quality_blocked rfc \<longleftrightarrow>
     parses rfc
       (JObject [(''ioa'', int_json 1), (''value'', int_json 0),
          (''quality'', JString ''blocked'')])
       (\<lambda>msg. msg_quality msg = Blocked)"

definition quality_overflow :: "rfc3339_parser \<Rightarrow> bool" where
  "quality_overflow rfc \<longleftrightarrow>
     parses rfc
       (JObject [(''ioa'', int_json 1), (''value'', int_json 0),
          (''quality'', JString ''overflow'')])
       (\<lambda>msg. msg_quality msg = Overflow)"

definition cot_default_is_spontaneous :: "rfc3339_parser \<Rightarrow> bool" where
  "cot_default_is_spontaneous rfc \<longleftrightarrow>
     parses rfc
       (JObject [(''ioa'', int_json 1), (''value'', int_json 0)])
       (\<lambda>msg. msg_cot msg = Spontaneous)"

definition cot_periodic :: "rfc3339_parser \<Rightarrow> bool" where
  "cot_periodic rfc \<longleftrightarrow>
     parses rfc
       (JObject [(''ioa'', int_json 1), (''value'', int_json 0), (''cot'', JString ''periodic'')])
       (\<lambda>msg. msg_cot msg = Periodic)"

definition cot_background_scan :: "rfc3339_parser \<Rightarrow> bool" where
  "cot_background_scan rfc \<longleftrightarrow>
     parses rfc
       (JObject [(''ioa'', int_json 1), (''value'', int_json 0),
          (''cot'', JString ''background_scan'')])
       (\<lambda>msg. msg_cot msg = BackgroundScan)"

definition cot_interrogated :: "rfc3339_parser \<Rightarrow> bool" where
  "cot_interrogated rfc \<longleftrightarrow>
     parses rfc
       (JObject [(''ioa'', int_json 1), (''value'', int_json 0),
          (''cot'', JString ''interrogated'')])
       (\<lambda>msg. msg_cot msg = Interrogated)"

definition cot_return_info_remote :: "rfc3339_parser \<Rightarrow> bool" where
  "cot_return_info_remote rfc \<longleftrightarrow>
     parses rfc
       (JObject [(''ioa'', int_json 1), (''value'', int_json 0),
          (''cot'', JString ''return_info_remote'')])
       (\<lambda>msg. msg_cot msg = ReturnInfoRemote)"

definition cot_return_info_local :: "rfc3339_parser \<Rightarrow> bool" where
  "cot_return_info_local rfc \<longleftrightarrow>
     parses rfc
       (JObject [(''ioa'', int_json 1), (''value'', int_json 0),
          (''cot'', JString ''return_info_local'')])
       (\<lambda>msg. msg_cot msg = ReturnInfoLocal)"

definition timestamp_field_present :: "rfc3339_parser \<Rightarrow> rfc3339_formatter \<Rightarrow> bool" where
  "timestamp_field_present rfc format \<longleftrightarrow>
     parses rfc
       (JObject [(''ioa'', int_json 1), (''value'', int_json 0),
          (''timestamp'', JString ''2026-05-29T12:34:56.789Z'')])
       (\<lambda>msg. case msg_timestamp msg of
          None \<Rightarrow> False
        | Some timestamp \<Rightarrow> format timestamp = Some ''2026-05-29T12:34:56.789Z'')"

definition invalid_timestamp_fails :: "rfc3339_parser \<Rightarrow> bool" where
  "invalid_timestamp_fails rfc \<longleftrightarrow>
     rejects rfc
       (JObject [(''ioa'', int_json 1), (''value'', int_json 0),
          (''timestamp'', JString ''not-a-time'')])"

definition missing_ioa_fails :: "rfc3339_parser \<Rightarrow> bool" where
  "missing_ioa_fails rfc \<longleftrightarrow>
     rejects rfc
       (JObject [(''value'', float_json (F64 0x3FF0000000000000))])"

definition missing_value_fails :: "rfc3339_parser \<Rightarrow> bool" where
  "missing_value_fails rfc \<longleftrightarrow>
     rejects rfc
       (JObject [(''ioa'', int_json 1)])"

definition unknown_quality_fails :: "rfc3339_parser \<Rightarrow> bool" where
  "unknown_quality_fails rfc \<longleftrightarrow>
     rejects rfc
       (JObject [(''ioa'', int_json 1), (''value'', int_json 0), (''quality'', JString ''bogus'')])"

definition full_message_round_trip :: "rfc3339_parser \<Rightarrow> bool" where
  "full_message_round_trip rfc \<longleftrightarrow>
     parses rfc
       (JObject [(''ioa'', int_json 100), (''value'', float_json (F64 0x4045400000000000)),
          (''type'', JString ''float''), (''ca'', int_json 1), (''quality'', JString ''good''), (''cot'', JString ''spontaneous''), (''timestamp'', JString ''2026-05-29T12:34:56Z'')])
       (\<lambda>msg. msg_ioa msg = 100 \<and> msg_value msg = Number (F64 0x4045400000000000) \<and> msg_data_type msg = Some Float \<and>
         msg_ca msg = Some 1 \<and> msg_quality msg = Good \<and> msg_cot msg = Spontaneous \<and> msg_timestamp msg \<noteq> None)"

section \<open>They hold\<close>

lemmas reading =
  parses_def rejects_def blank_message_def require_field_def DataType_variant_def
  QualityField_variant_def CotField_variant_def QualityField_default_def CotField_default_def

lemma minimal_float_message_passes [unit_test]: "minimal_float_message rfc"
  by (simp add: minimal_float_message_def reading)

lemma minimal_bool_message_passes [unit_test]: "minimal_bool_message rfc"
  by (simp add: minimal_bool_message_def reading)

lemma explicit_type_float_passes [unit_test]: "explicit_type_float rfc"
  by (simp add: explicit_type_float_def reading)

lemma explicit_type_scaled_passes [unit_test]: "explicit_type_scaled rfc"
  by (simp add: explicit_type_scaled_def reading)

lemma explicit_type_normalized_passes [unit_test]: "explicit_type_normalized rfc"
  by (simp add: explicit_type_normalized_def reading)

lemma explicit_type_single_point_passes [unit_test]: "explicit_type_single_point rfc"
  by (simp add: explicit_type_single_point_def reading)

lemma explicit_type_double_point_passes [unit_test]: "explicit_type_double_point rfc"
  by (simp add: explicit_type_double_point_def reading)

lemma ca_field_present_passes [unit_test]: "ca_field_present rfc"
  by (simp add: ca_field_present_def reading)

lemma ca_field_absent_passes [unit_test]: "ca_field_absent rfc"
  by (simp add: ca_field_absent_def reading)

lemma quality_default_is_good_passes [unit_test]: "quality_default_is_good rfc"
  by (simp add: quality_default_is_good_def reading)

lemma quality_invalid_passes [unit_test]: "quality_invalid rfc"
  by (simp add: quality_invalid_def reading)

lemma quality_not_topical_passes [unit_test]: "quality_not_topical rfc"
  by (simp add: quality_not_topical_def reading)

lemma quality_substituted_passes [unit_test]: "quality_substituted rfc"
  by (simp add: quality_substituted_def reading)

lemma quality_blocked_passes [unit_test]: "quality_blocked rfc"
  by (simp add: quality_blocked_def reading)

lemma quality_overflow_passes [unit_test]: "quality_overflow rfc"
  by (simp add: quality_overflow_def reading)

lemma cot_default_is_spontaneous_passes [unit_test]: "cot_default_is_spontaneous rfc"
  by (simp add: cot_default_is_spontaneous_def reading)

lemma cot_periodic_passes [unit_test]: "cot_periodic rfc"
  by (simp add: cot_periodic_def reading)

lemma cot_background_scan_passes [unit_test]: "cot_background_scan rfc"
  by (simp add: cot_background_scan_def reading)

lemma cot_interrogated_passes [unit_test]: "cot_interrogated rfc"
  by (simp add: cot_interrogated_def reading)

lemma cot_return_info_remote_passes [unit_test]: "cot_return_info_remote rfc"
  by (simp add: cot_return_info_remote_def reading)

lemma cot_return_info_local_passes [unit_test]: "cot_return_info_local rfc"
  by (simp add: cot_return_info_local_def reading)

lemma timestamp_field_present_passes [unit_test]: "reads_test_times rfc format \<Longrightarrow> timestamp_field_present rfc format"
  by (auto simp: timestamp_field_present_def reads_test_times_def reading split: option.splits)

lemma invalid_timestamp_fails_passes [unit_test]: "reads_test_times rfc format \<Longrightarrow> invalid_timestamp_fails rfc "
  by (auto simp: invalid_timestamp_fails_def reads_test_times_def reading split: option.splits)

lemma missing_ioa_fails_passes [unit_test]: "missing_ioa_fails rfc"
  by (simp add: missing_ioa_fails_def reading)

lemma missing_value_fails_passes [unit_test]: "missing_value_fails rfc"
  by (simp add: missing_value_fails_def reading)

lemma unknown_quality_fails_passes [unit_test]: "unknown_quality_fails rfc"
  by (simp add: unknown_quality_fails_def reading)

lemma full_message_round_trip_passes [unit_test]: "reads_test_times rfc format \<Longrightarrow> full_message_round_trip rfc "
  by (auto simp: full_message_round_trip_def reads_test_times_def reading split: option.splits)

definition message_tests :: "rfc3339_parser \<Rightarrow> rfc3339_formatter \<Rightarrow> bool list" where
  "message_tests rfc format =
     [minimal_float_message rfc,
      minimal_bool_message rfc,
      explicit_type_float rfc,
      explicit_type_scaled rfc,
      explicit_type_normalized rfc,
      explicit_type_single_point rfc,
      explicit_type_double_point rfc,
      ca_field_present rfc,
      ca_field_absent rfc,
      quality_default_is_good rfc,
      quality_invalid rfc,
      quality_not_topical rfc,
      quality_substituted rfc,
      quality_blocked rfc,
      quality_overflow rfc,
      cot_default_is_spontaneous rfc,
      cot_periodic rfc,
      cot_background_scan rfc,
      cot_interrogated rfc,
      cot_return_info_remote rfc,
      cot_return_info_local rfc,
      timestamp_field_present rfc format,
      invalid_timestamp_fails rfc,
      missing_ioa_fails rfc,
      missing_value_fails rfc,
      unknown_quality_fails rfc,
      full_message_round_trip rfc]"

lemma message_tests_pass:
  assumes "reads_test_times rfc format"
  shows "list_all (\<lambda>passed. passed) (message_tests rfc format)"
  using assms by (simp add: message_tests_def unit_test)

end
