(* ===== verification/ConfigTests.thy ===== *)
theory ConfigTests
  imports Config MessageTests
begin

text \<open>
  The unit tests of \<open>src/src/config.rs\<close>, replayed on the model: an environment is built from a
  map with the two required names or from an empty one, and loaded.
\<close>

section \<open>Helpers of the tests\<close>

definition no_env :: lookup where
  "no_env = Map.empty"

definition required_env :: lookup where
  "required_env = [''NATS_STREAM'' \<mapsto> ''sensors'', ''NATS_CONSUMER'' \<mapsto> ''bridge'']"

text \<open>\<open>from_map(..)\<close>, with \<open>unwrap\<close> and the assertions, or with \<open>is_err\<close>.\<close>

definition loads :: "lookup \<Rightarrow> (Config \<Rightarrow> bool) \<Rightarrow> bool" where
  "loads get asserts = (case from_lookup get of Inl _ \<Rightarrow> False | Inr cfg \<Rightarrow> asserts cfg)"

definition fails_to_load :: "lookup \<Rightarrow> bool" where
  "fails_to_load get \<longleftrightarrow> \<not> is_ok (from_lookup get)"

section \<open>The tests\<close>

definition missing_nats_stream_is_error :: bool where
  "missing_nats_stream_is_error \<longleftrightarrow>
     fails_to_load (required_env(''NATS_STREAM'' := None))"

definition missing_nats_consumer_is_error :: bool where
  "missing_nats_consumer_is_error \<longleftrightarrow>
     fails_to_load (required_env(''NATS_CONSUMER'' := None))"

definition default_nats_url :: bool where
  "default_nats_url \<longleftrightarrow>
     loads required_env
       (\<lambda>cfg. nats_url cfg = ''nats://localhost:4222'')"

definition default_input_transport_is_nats :: bool where
  "default_input_transport_is_nats \<longleftrightarrow>
     loads required_env
       (\<lambda>cfg. input_transport cfg = Nats)"

definition default_iec104_port :: bool where
  "default_iec104_port \<longleftrightarrow>
     loads required_env
       (\<lambda>cfg. iec104_port cfg = 2404)"

definition default_iec104_ca :: bool where
  "default_iec104_ca \<longleftrightarrow>
     loads required_env
       (\<lambda>cfg. iec104_default_ca cfg = 1)"

definition default_iec104_gi_only_is_false :: bool where
  "default_iec104_gi_only_is_false \<longleftrightarrow>
     loads required_env
       (\<lambda>cfg. \<not> iec104_gi_only cfg)"

definition default_bind_addr :: bool where
  "default_bind_addr \<longleftrightarrow>
     loads required_env
       (\<lambda>cfg. iec104_bind_addr cfg = ''0.0.0.0'')"

definition default_subject_filter_is_none :: bool where
  "default_subject_filter_is_none \<longleftrightarrow>
     loads required_env
       (\<lambda>cfg. nats_subject_filter cfg = None)"

definition default_unix_socket_settings :: bool where
  "default_unix_socket_settings \<longleftrightarrow>
     loads required_env
       (\<lambda>cfg. unix_socket_path cfg = ''/run/iec104bridge/input.sock'' \<and> unix_socket_allowed_uid cfg = None \<and>
         unix_socket_allowed_gid cfg = None \<and> unix_socket_max_line_bytes cfg = 65536)"

definition custom_nats_url :: bool where
  "custom_nats_url \<longleftrightarrow>
     loads (required_env(''NATS_URL'' \<mapsto> ''nats://nats.example.com:4222''))
       (\<lambda>cfg. nats_url cfg = ''nats://nats.example.com:4222'')"

definition custom_iec104_port :: bool where
  "custom_iec104_port \<longleftrightarrow>
     loads (required_env(''IEC104_PORT'' \<mapsto> ''12345''))
       (\<lambda>cfg. iec104_port cfg = 12345)"

definition default_iec104_queue_size :: bool where
  "default_iec104_queue_size \<longleftrightarrow>
     loads required_env
       (\<lambda>cfg. iec104_queue_size cfg = 1024)"

definition custom_iec104_queue_size :: bool where
  "custom_iec104_queue_size \<longleftrightarrow>
     loads (required_env(''IEC104_QUEUE_SIZE'' \<mapsto> ''4096''))
       (\<lambda>cfg. iec104_queue_size cfg = 4096)"

definition zero_iec104_queue_size_is_error :: bool where
  "zero_iec104_queue_size_is_error \<longleftrightarrow>
     fails_to_load (required_env(''IEC104_QUEUE_SIZE'' \<mapsto> ''0''))"

definition custom_iec104_ca :: bool where
  "custom_iec104_ca \<longleftrightarrow>
     loads (required_env(''IEC104_CA'' \<mapsto> ''42''))
       (\<lambda>cfg. iec104_default_ca cfg = 42)"

definition default_iec104_timestamps_is_true :: bool where
  "default_iec104_timestamps_is_true \<longleftrightarrow>
     loads required_env
       (\<lambda>cfg. iec104_timestamps cfg)"

definition default_iec104_max_age_is_off :: bool where
  "default_iec104_max_age_is_off \<longleftrightarrow>
     loads required_env
       (\<lambda>cfg. iec104_max_age cfg = None)"

definition custom_iec104_max_age :: bool where
  "custom_iec104_max_age \<longleftrightarrow>
     loads (required_env(''IEC104_MAX_AGE_SECONDS'' \<mapsto> ''3600''))
       (\<lambda>cfg. iec104_max_age cfg = Some (duration_from_secs 3600))"

definition zero_iec104_max_age_is_error :: bool where
  "zero_iec104_max_age_is_error \<longleftrightarrow>
     fails_to_load (required_env(''IEC104_MAX_AGE_SECONDS'' \<mapsto> ''0''))"

definition iec104_timestamps_can_be_disabled :: bool where
  "iec104_timestamps_can_be_disabled \<longleftrightarrow>
     loads (required_env(''IEC104_TIMESTAMPS'' \<mapsto> ''false''))
       (\<lambda>cfg. \<not> iec104_timestamps cfg)"

definition invalid_iec104_timestamps_is_error :: bool where
  "invalid_iec104_timestamps_is_error \<longleftrightarrow>
     fails_to_load (required_env(''IEC104_TIMESTAMPS'' \<mapsto> ''sometimes''))"

definition custom_iec104_gi_only :: bool where
  "custom_iec104_gi_only \<longleftrightarrow>
     loads (required_env(''IEC104_GI_ONLY'' \<mapsto> ''yes''))
       (\<lambda>cfg. iec104_gi_only cfg)"

definition custom_subject_filter :: bool where
  "custom_subject_filter \<longleftrightarrow>
     loads (required_env(''NATS_SUBJECT_FILTER'' \<mapsto> ''plant.a.>''))
       (\<lambda>cfg. nats_subject_filter cfg = Some ''plant.a.>'')"

definition custom_bind_addr :: bool where
  "custom_bind_addr \<longleftrightarrow>
     loads (required_env(''IEC104_BIND_ADDR'' \<mapsto> ''127.0.0.1''))
       (\<lambda>cfg. iec104_bind_addr cfg = ''127.0.0.1'')"

definition unix_socket_transport_does_not_require_nats_settings :: bool where
  "unix_socket_transport_does_not_require_nats_settings \<longleftrightarrow>
     loads (no_env(''INPUT_TRANSPORT'' \<mapsto> ''unix_socket''))
       (\<lambda>cfg. input_transport cfg = UnixSocket \<and> nats_stream cfg = [] \<and> nats_consumer cfg = [])"

definition custom_unix_socket_settings :: bool where
  "custom_unix_socket_settings \<longleftrightarrow>
     loads (no_env(''INPUT_TRANSPORT'' \<mapsto> ''unix_socket'', ''UNIX_SOCKET_PATH'' \<mapsto> ''/tmp/test.sock'', ''UNIX_SOCKET_ALLOWED_UID'' \<mapsto> ''123'', ''UNIX_SOCKET_ALLOWED_GID'' \<mapsto> ''456'', ''UNIX_SOCKET_MAX_LINE_BYTES'' \<mapsto> ''4096''))
       (\<lambda>cfg. unix_socket_path cfg = ''/tmp/test.sock'' \<and> unix_socket_allowed_uid cfg = Some 123 \<and>
         unix_socket_allowed_gid cfg = Some 456 \<and> unix_socket_max_line_bytes cfg = 4096)"

definition invalid_input_transport_is_error :: bool where
  "invalid_input_transport_is_error \<longleftrightarrow>
     fails_to_load (required_env(''INPUT_TRANSPORT'' \<mapsto> ''redis''))"

definition invalid_port_is_error :: bool where
  "invalid_port_is_error \<longleftrightarrow>
     fails_to_load (required_env(''IEC104_PORT'' \<mapsto> ''not_a_number''))"

definition invalid_unix_socket_uid_is_error :: bool where
  "invalid_unix_socket_uid_is_error \<longleftrightarrow>
     fails_to_load (no_env(''INPUT_TRANSPORT'' \<mapsto> ''unix_socket'', ''UNIX_SOCKET_ALLOWED_UID'' \<mapsto> ''abc''))"

definition zero_unix_socket_max_line_bytes_is_error :: bool where
  "zero_unix_socket_max_line_bytes_is_error \<longleftrightarrow>
     fails_to_load (no_env(''INPUT_TRANSPORT'' \<mapsto> ''unix_socket'', ''UNIX_SOCKET_MAX_LINE_BYTES'' \<mapsto> ''0''))"

definition port_out_of_u16_range_is_error :: bool where
  "port_out_of_u16_range_is_error \<longleftrightarrow>
     fails_to_load (required_env(''IEC104_PORT'' \<mapsto> ''99999''))"

definition invalid_ca_is_error :: bool where
  "invalid_ca_is_error \<longleftrightarrow>
     fails_to_load (required_env(''IEC104_CA'' \<mapsto> ''not_a_number''))"

definition stream_and_consumer_are_stored :: bool where
  "stream_and_consumer_are_stored \<longleftrightarrow>
     loads required_env
       (\<lambda>cfg. nats_stream cfg = ''sensors'' \<and> nats_consumer cfg = ''bridge'')"

definition tls_disabled_by_default :: bool where
  "tls_disabled_by_default \<longleftrightarrow>
     loads required_env
       (\<lambda>cfg. \<not> tls_enabled cfg \<and> tls_port cfg = 19998 \<and> tls_cert_path cfg = None \<and>
         tls_key_path cfg = None \<and> tls_ca_cert_path cfg = None)"

definition tls_enabled_requires_cert_path :: bool where
  "tls_enabled_requires_cert_path \<longleftrightarrow>
     fails_to_load (required_env(''TLS_ENABLED'' \<mapsto> ''true'', ''TLS_KEY_PATH'' \<mapsto> ''/key.pem'', ''TLS_CA_CERT_PATH'' \<mapsto> ''/ca.pem''))"

definition tls_enabled_requires_key_path :: bool where
  "tls_enabled_requires_key_path \<longleftrightarrow>
     fails_to_load (required_env(''TLS_ENABLED'' \<mapsto> ''true'', ''TLS_CERT_PATH'' \<mapsto> ''/cert.pem'', ''TLS_CA_CERT_PATH'' \<mapsto> ''/ca.pem''))"

definition tls_enabled_requires_ca_cert_path :: bool where
  "tls_enabled_requires_ca_cert_path \<longleftrightarrow>
     fails_to_load (required_env(''TLS_ENABLED'' \<mapsto> ''true'', ''TLS_CERT_PATH'' \<mapsto> ''/cert.pem'', ''TLS_KEY_PATH'' \<mapsto> ''/key.pem''))"

definition tls_enabled_with_all_paths_ok :: bool where
  "tls_enabled_with_all_paths_ok \<longleftrightarrow>
     loads (required_env(''TLS_ENABLED'' \<mapsto> ''true'', ''TLS_CERT_PATH'' \<mapsto> ''/cert.pem'', ''TLS_KEY_PATH'' \<mapsto> ''/key.pem'', ''TLS_CA_CERT_PATH'' \<mapsto> ''/ca.pem''))
       (\<lambda>cfg. tls_enabled cfg \<and> tls_cert_path cfg = Some ''/cert.pem'' \<and>
         tls_key_path cfg = Some ''/key.pem'' \<and> tls_ca_cert_path cfg = Some ''/ca.pem'')"

definition tls_enabled_truthy_values :: bool where
  "tls_enabled_truthy_values \<longleftrightarrow>
     list_all (\<lambda>v. loads (required_env(''TLS_ENABLED'' \<mapsto> v, ''TLS_CERT_PATH'' \<mapsto> ''/c.pem'',
         ''TLS_KEY_PATH'' \<mapsto> ''/k.pem'', ''TLS_CA_CERT_PATH'' \<mapsto> ''/ca.pem'')) tls_enabled)
       [''true'', ''1'', ''yes'', ''True'', ''TRUE'', ''YES'']"

definition custom_tls_port :: bool where
  "custom_tls_port \<longleftrightarrow>
     loads (required_env(''TLS_PORT'' \<mapsto> ''8883''))
       (\<lambda>cfg. tls_port cfg = 8883)"

section \<open>They hold\<close>

lemmas loading =
  loads_def fails_to_load_def no_env_def required_env_def load_defs parse_eval char_of_def bit_0

lemma missing_nats_stream_is_error_passes [unit_test]: missing_nats_stream_is_error
  by (simp add: missing_nats_stream_is_error_def loading)

lemma missing_nats_consumer_is_error_passes [unit_test]: missing_nats_consumer_is_error
  by (simp add: missing_nats_consumer_is_error_def loading)

lemma default_nats_url_passes [unit_test]: default_nats_url
  by (simp add: default_nats_url_def loading)

lemma default_input_transport_is_nats_passes [unit_test]: default_input_transport_is_nats
  by (simp add: default_input_transport_is_nats_def loading)

lemma default_iec104_port_passes [unit_test]: default_iec104_port
  by (simp add: default_iec104_port_def loading)

lemma default_iec104_ca_passes [unit_test]: default_iec104_ca
  by (simp add: default_iec104_ca_def loading)

lemma default_iec104_gi_only_is_false_passes [unit_test]: default_iec104_gi_only_is_false
  by (simp add: default_iec104_gi_only_is_false_def loading)

lemma default_bind_addr_passes [unit_test]: default_bind_addr
  by (simp add: default_bind_addr_def loading)

lemma default_subject_filter_is_none_passes [unit_test]: default_subject_filter_is_none
  by (simp add: default_subject_filter_is_none_def loading)

lemma default_unix_socket_settings_passes [unit_test]: default_unix_socket_settings
  by (simp add: default_unix_socket_settings_def loading)

lemma custom_nats_url_passes [unit_test]: custom_nats_url
  by (simp add: custom_nats_url_def loading)

lemma custom_iec104_port_passes [unit_test]: custom_iec104_port
  by (simp add: custom_iec104_port_def loading)

lemma default_iec104_queue_size_passes [unit_test]: default_iec104_queue_size
  by (simp add: default_iec104_queue_size_def loading)

lemma custom_iec104_queue_size_passes [unit_test]: custom_iec104_queue_size
  by (simp add: custom_iec104_queue_size_def loading)

lemma zero_iec104_queue_size_is_error_passes [unit_test]: zero_iec104_queue_size_is_error
  by (simp add: zero_iec104_queue_size_is_error_def loading)

lemma custom_iec104_ca_passes [unit_test]: custom_iec104_ca
  by (simp add: custom_iec104_ca_def loading)

lemma default_iec104_timestamps_is_true_passes [unit_test]: default_iec104_timestamps_is_true
  by (simp add: default_iec104_timestamps_is_true_def loading)

lemma default_iec104_max_age_is_off_passes [unit_test]: default_iec104_max_age_is_off
  by (simp add: default_iec104_max_age_is_off_def loading)

lemma custom_iec104_max_age_passes [unit_test]: custom_iec104_max_age
  by (simp add: custom_iec104_max_age_def loading)

lemma zero_iec104_max_age_is_error_passes [unit_test]: zero_iec104_max_age_is_error
  by (simp add: zero_iec104_max_age_is_error_def loading)

lemma iec104_timestamps_can_be_disabled_passes [unit_test]: iec104_timestamps_can_be_disabled
  by (simp add: iec104_timestamps_can_be_disabled_def loading)

lemma invalid_iec104_timestamps_is_error_passes [unit_test]: invalid_iec104_timestamps_is_error
  by (simp add: invalid_iec104_timestamps_is_error_def loading)

lemma custom_iec104_gi_only_passes [unit_test]: custom_iec104_gi_only
  by (simp add: custom_iec104_gi_only_def loading)

lemma custom_subject_filter_passes [unit_test]: custom_subject_filter
  by (simp add: custom_subject_filter_def loading)

lemma custom_bind_addr_passes [unit_test]: custom_bind_addr
  by (simp add: custom_bind_addr_def loading)

lemma unix_socket_transport_does_not_require_nats_settings_passes [unit_test]: unix_socket_transport_does_not_require_nats_settings
  by (simp add: unix_socket_transport_does_not_require_nats_settings_def loading)

lemma custom_unix_socket_settings_passes [unit_test]: custom_unix_socket_settings
  by (simp add: custom_unix_socket_settings_def loading)

lemma invalid_input_transport_is_error_passes [unit_test]: invalid_input_transport_is_error
  by (simp add: invalid_input_transport_is_error_def loading)

lemma invalid_port_is_error_passes [unit_test]: invalid_port_is_error
  by (simp add: invalid_port_is_error_def loading)

lemma invalid_unix_socket_uid_is_error_passes [unit_test]: invalid_unix_socket_uid_is_error
  by (simp add: invalid_unix_socket_uid_is_error_def loading)

lemma zero_unix_socket_max_line_bytes_is_error_passes [unit_test]: zero_unix_socket_max_line_bytes_is_error
  by (simp add: zero_unix_socket_max_line_bytes_is_error_def loading)

lemma port_out_of_u16_range_is_error_passes [unit_test]: port_out_of_u16_range_is_error
  by (simp add: port_out_of_u16_range_is_error_def loading)

lemma invalid_ca_is_error_passes [unit_test]: invalid_ca_is_error
  by (simp add: invalid_ca_is_error_def loading)

lemma stream_and_consumer_are_stored_passes [unit_test]: stream_and_consumer_are_stored
  by (simp add: stream_and_consumer_are_stored_def loading)

lemma tls_disabled_by_default_passes [unit_test]: tls_disabled_by_default
  by (simp add: tls_disabled_by_default_def loading)

lemma tls_enabled_requires_cert_path_passes [unit_test]: tls_enabled_requires_cert_path
  by (simp add: tls_enabled_requires_cert_path_def loading)

lemma tls_enabled_requires_key_path_passes [unit_test]: tls_enabled_requires_key_path
  by (simp add: tls_enabled_requires_key_path_def loading)

lemma tls_enabled_requires_ca_cert_path_passes [unit_test]: tls_enabled_requires_ca_cert_path
  by (simp add: tls_enabled_requires_ca_cert_path_def loading)

lemma tls_enabled_with_all_paths_ok_passes [unit_test]: tls_enabled_with_all_paths_ok
  by (simp add: tls_enabled_with_all_paths_ok_def loading)

lemma tls_enabled_truthy_values_passes [unit_test]: tls_enabled_truthy_values
  by (simp add: tls_enabled_truthy_values_def loading)

lemma custom_tls_port_passes [unit_test]: custom_tls_port
  by (simp add: custom_tls_port_def loading)

definition config_tests :: "bool list" where
  "config_tests =
     [missing_nats_stream_is_error,
      missing_nats_consumer_is_error,
      default_nats_url,
      default_input_transport_is_nats,
      default_iec104_port,
      default_iec104_ca,
      default_iec104_gi_only_is_false,
      default_bind_addr,
      default_subject_filter_is_none,
      default_unix_socket_settings,
      custom_nats_url,
      custom_iec104_port,
      default_iec104_queue_size,
      custom_iec104_queue_size,
      zero_iec104_queue_size_is_error,
      custom_iec104_ca,
      default_iec104_timestamps_is_true,
      default_iec104_max_age_is_off,
      custom_iec104_max_age,
      zero_iec104_max_age_is_error,
      iec104_timestamps_can_be_disabled,
      invalid_iec104_timestamps_is_error,
      custom_iec104_gi_only,
      custom_subject_filter,
      custom_bind_addr,
      unix_socket_transport_does_not_require_nats_settings,
      custom_unix_socket_settings,
      invalid_input_transport_is_error,
      invalid_port_is_error,
      invalid_unix_socket_uid_is_error,
      zero_unix_socket_max_line_bytes_is_error,
      port_out_of_u16_range_is_error,
      invalid_ca_is_error,
      stream_and_consumer_are_stored,
      tls_disabled_by_default,
      tls_enabled_requires_cert_path,
      tls_enabled_requires_key_path,
      tls_enabled_requires_ca_cert_path,
      tls_enabled_with_all_paths_ok,
      tls_enabled_truthy_values,
      custom_tls_port]"

lemma config_tests_pass: "list_all (\<lambda>passed. passed) config_tests"
  by (simp add: config_tests_def unit_test)

end
