(* ===== verification/BridgeTests.thy ===== *)
theory BridgeTests
  imports Sinks MessageTests
begin

text \<open>
  The unit tests of \<open>src/src/bridge.rs\<close>, replayed on the model: the tables, type inference and
  dispatch on the capturing sink, and the output policy. Float literals are given by their bits.
\<close>

unbundle bit_operations_syntax

section \<open>Helpers of the tests\<close>

definition make_msg ::
  "u32 \<Rightarrow> DataValue \<Rightarrow> DataType option \<Rightarrow> QualityField \<Rightarrow> CotField \<Rightarrow> u16 option \<Rightarrow> Iec104Message" where
  "make_msg ioa v data_type quality cause ca =
     \<lparr>msg_ioa = ioa, msg_value = v, msg_data_type = data_type, msg_ca = ca, msg_quality = quality,
      msg_cot = cause, msg_timestamp = None\<rparr>"

definition simple_float :: "u32 \<Rightarrow> f64 \<Rightarrow> Iec104Message" where
  "simple_float ioa x = make_msg ioa (Number x) (Some Float) Good Spontaneous None"

definition simple_bool :: "u32 \<Rightarrow> bool \<Rightarrow> Iec104Message" where
  "simple_bool ioa v = make_msg ioa (Bool v) (Some SinglePoint) Good Spontaneous None"

text \<open>
  The sink of the tests. Reading a tag back gives the milliseconds it was made from, as the library
  does for the dates of the tests.
\<close>

definition test_sink :: "SentCall list DataSink" where
  "test_sink = CapturingSink requested_ms"

text \<open>The first call of the sink; indexing panics when there is none.\<close>

definition first_call :: "SentCall list \<Rightarrow> (SentCall \<Rightarrow> bool) \<Rightarrow> bool" where
  "first_call calls matches = (case calls of [] \<Rightarrow> False | call # _ \<Rightarrow> matches call)"

definition at_minutes :: "int \<Rightarrow> OffsetDateTime" where
  "at_minutes minutes = OffsetDateTime (minutes * 60 * 1000000000)"

definition test_policy :: "bool \<Rightarrow> nat option \<Rightarrow> OutputPolicy" where
  "test_policy timestamps max_age_min =
     \<lparr>send_timestamps = timestamps, max_age = map_option (\<lambda>m. duration_from_secs (m * 60)) max_age_min\<rparr>"

definition timed_float :: "int \<Rightarrow> Iec104Message" where
  "timed_float minute = (simple_float 100 (F64 0x3FF8000000000000))\<lparr>msg_timestamp := Some (at_minutes minute)\<rparr>"

text \<open>The helper \<open>wire_quality\<close> of the tests, \<open>None\<close> where it panics.\<close>

definition captured_quality :: "Outgoing \<Rightarrow> Quality option" where
  "captured_quality out =
     (case dispatch_outgoing test_sink out 1 [] of
        CallMeasuredFloat _ _ _ _ q # _ \<Rightarrow> Some q
      | _ \<Rightarrow> None)"

text \<open>What the tests use of RFC 3339: two texts denote the same instant, after 1970.\<close>

definition reads_offsets :: "rfc3339_parser \<Rightarrow> bool" where
  "reads_offsets rfc \<longleftrightarrow>
     (case rfc ''2026-06-01T12:34:56.789Z'' of
        None \<Rightarrow> False
      | Some t \<Rightarrow> 0 \<le> unix_timestamp_nanos t \<and> rfc ''2026-06-01T14:34:56.789+02:00'' = Some t)"

section \<open>The tests\<close>

definition map_quality_good :: bool where
  "map_quality_good \<longleftrightarrow>
     map_quality Good = Quality_GOOD"

definition map_quality_invalid :: bool where
  "map_quality_invalid \<longleftrightarrow>
     map_quality Invalid = Quality_INVALID"

definition map_quality_not_topical :: bool where
  "map_quality_not_topical \<longleftrightarrow>
     map_quality NotTopical = Quality_NOT_TOPICAL"

definition map_quality_substituted :: bool where
  "map_quality_substituted \<longleftrightarrow>
     map_quality Substituted = Quality_SUBSTITUTED"

definition map_quality_blocked :: bool where
  "map_quality_blocked \<longleftrightarrow>
     map_quality Blocked = Quality_BLOCKED"

definition map_quality_overflow :: bool where
  "map_quality_overflow \<longleftrightarrow>
     map_quality Overflow = Quality_OVERFLOW"

definition map_cot_spontaneous :: bool where
  "map_cot_spontaneous \<longleftrightarrow>
     map_cot Spontaneous = COT_Spontaneous"

definition map_cot_periodic :: bool where
  "map_cot_periodic \<longleftrightarrow>
     map_cot Periodic = COT_Periodic"

definition map_cot_background_scan :: bool where
  "map_cot_background_scan \<longleftrightarrow>
     map_cot BackgroundScan = COT_Background"

definition map_cot_interrogated :: bool where
  "map_cot_interrogated \<longleftrightarrow>
     map_cot Interrogated = COT_InterrogatedByStation"

definition map_cot_return_info_remote :: bool where
  "map_cot_return_info_remote \<longleftrightarrow>
     map_cot ReturnInfoRemote = COT_ReturnRemote"

definition map_cot_return_info_local :: bool where
  "map_cot_return_info_local \<longleftrightarrow>
     map_cot ReturnInfoLocal = COT_ReturnLocal"

definition infer_type_bool_yields_single_point :: bool where
  "infer_type_bool_yields_single_point \<longleftrightarrow>
     first_call (dispatch test_sink (make_msg 1 (Bool True) None Good Spontaneous None) 1 [])
       (\<lambda>call. case call of CallSinglePoint _ _ _ v _ \<Rightarrow> v | _ \<Rightarrow> False)"

definition infer_type_integer_yields_scaled :: bool where
  "infer_type_integer_yields_scaled \<longleftrightarrow>
     first_call (dispatch test_sink (make_msg 1 (Number (F64 0x4045000000000000)) None Good Spontaneous None) 1 [])
       (\<lambda>call. case call of CallMeasuredScaled _ _ _ n _ \<Rightarrow> n = 42 | _ \<Rightarrow> False)"

definition infer_type_float_yields_measured_float :: bool where
  "infer_type_float_yields_measured_float \<longleftrightarrow>
     first_call (dispatch test_sink (make_msg 1 (Number (F64 0x3FF8000000000000)) None Good Spontaneous None) 1 [])
       (\<lambda>call. case call of CallMeasuredFloat _ _ _ _ _ \<Rightarrow> True | _ \<Rightarrow> False)"

definition dispatch_single_point_bool_true :: bool where
  "dispatch_single_point_bool_true \<longleftrightarrow>
     first_call (dispatch test_sink (simple_bool 100 True) 1 [])
       (\<lambda>call. call = CallSinglePoint COT_Spontaneous 1 100 True Quality_GOOD)"

definition dispatch_single_point_bool_false :: bool where
  "dispatch_single_point_bool_false \<longleftrightarrow>
     first_call (dispatch test_sink (simple_bool 200 False) 1 [])
       (\<lambda>call. case call of CallSinglePoint _ _ _ v _ \<Rightarrow> \<not> v | _ \<Rightarrow> False)"

definition dispatch_single_point_nonzero_number_is_on :: bool where
  "dispatch_single_point_nonzero_number_is_on \<longleftrightarrow>
     first_call (dispatch test_sink (make_msg 1 (Number (F64 0x4014000000000000)) (Some SinglePoint) Good Spontaneous None) 1 [])
       (\<lambda>call. case call of CallSinglePoint _ _ _ v _ \<Rightarrow> v | _ \<Rightarrow> False)"

definition dispatch_single_point_zero_number_is_off :: bool where
  "dispatch_single_point_zero_number_is_off \<longleftrightarrow>
     first_call (dispatch test_sink (make_msg 1 (Number (F64 0x0000000000000000)) (Some SinglePoint) Good Spontaneous None) 1 [])
       (\<lambda>call. case call of CallSinglePoint _ _ _ v _ \<Rightarrow> \<not> v | _ \<Rightarrow> False)"

definition dispatch_float_number :: bool where
  "dispatch_float_number \<longleftrightarrow>
     first_call (dispatch test_sink (simple_float 300 (F64 0x3FF8000000000000)) 1 [])
       (\<lambda>call. case call of CallMeasuredFloat _ _ _ x _ \<Rightarrow> \<bar>f32_real x - 3 / 2\<bar> < 1 / 1000000 | _ \<Rightarrow> False)"

definition dispatch_float_bool_true_is_one :: bool where
  "dispatch_float_bool_true_is_one \<longleftrightarrow>
     first_call (dispatch test_sink (make_msg 1 (Bool True) (Some Float) Good Spontaneous None) 1 [])
       (\<lambda>call. case call of CallMeasuredFloat _ _ _ x _ \<Rightarrow> f32_real x = 1 | _ \<Rightarrow> False)"

definition dispatch_float_bool_false_is_zero :: bool where
  "dispatch_float_bool_false_is_zero \<longleftrightarrow>
     first_call (dispatch test_sink (make_msg 1 (Bool False) (Some Float) Good Spontaneous None) 1 [])
       (\<lambda>call. case call of CallMeasuredFloat _ _ _ x _ \<Rightarrow> f32_real x = 0 | _ \<Rightarrow> False)"

definition dispatch_normalized_number :: bool where
  "dispatch_normalized_number \<longleftrightarrow>
     first_call (dispatch test_sink (make_msg 1 (Number (F64 0x3FE8000000000000)) (Some Normalized) Good Spontaneous None) 1 [])
       (\<lambda>call. case call of CallMeasuredFloat _ _ _ _ _ \<Rightarrow> True | _ \<Rightarrow> False)"

definition dispatch_scaled_number :: bool where
  "dispatch_scaled_number \<longleftrightarrow>
     first_call (dispatch test_sink (make_msg 1 (Number (F64 0x408F400000000000)) (Some Scaled) Good Spontaneous None) 1 [])
       (\<lambda>call. case call of CallMeasuredScaled _ _ _ n _ \<Rightarrow> n = 1000 | _ \<Rightarrow> False)"

definition dispatch_scaled_clamps_to_i16_max :: bool where
  "dispatch_scaled_clamps_to_i16_max \<longleftrightarrow>
     first_call (dispatch test_sink (make_msg 1 (Number (F64 0x40F86A0000000000)) (Some Scaled) Good Spontaneous None) 1 [])
       (\<lambda>call. case call of CallMeasuredScaled _ _ _ n _ \<Rightarrow> sint n = 32767 | _ \<Rightarrow> False)"

definition dispatch_scaled_clamps_to_i16_min :: bool where
  "dispatch_scaled_clamps_to_i16_min \<longleftrightarrow>
     first_call (dispatch test_sink (make_msg 1 (Number (F64 0xC0F86A0000000000)) (Some Scaled) Good Spontaneous None) 1 [])
       (\<lambda>call. case call of CallMeasuredScaled _ _ _ n _ \<Rightarrow> sint n = - 32768 | _ \<Rightarrow> False)"

definition dispatch_scaled_bool_true_is_one :: bool where
  "dispatch_scaled_bool_true_is_one \<longleftrightarrow>
     first_call (dispatch test_sink (make_msg 1 (Bool True) (Some Scaled) Good Spontaneous None) 1 [])
       (\<lambda>call. case call of CallMeasuredScaled _ _ _ n _ \<Rightarrow> n = 1 | _ \<Rightarrow> False)"

definition dispatch_double_point_bool_falls_back_to_single :: bool where
  "dispatch_double_point_bool_falls_back_to_single \<longleftrightarrow>
     first_call (dispatch test_sink (make_msg 1 (Bool True) (Some DoublePoint) Good Spontaneous None) 1 [])
       (\<lambda>call. case call of CallSinglePoint _ _ _ v _ \<Rightarrow> v | _ \<Rightarrow> False)"

definition dispatch_double_point_number_falls_back_to_single :: bool where
  "dispatch_double_point_number_falls_back_to_single \<longleftrightarrow>
     first_call (dispatch test_sink (make_msg 1 (Number (F64 0x3FF0000000000000)) (Some DoublePoint) Good Spontaneous None) 1 [])
       (\<lambda>call. case call of CallSinglePoint _ _ _ v _ \<Rightarrow> v | _ \<Rightarrow> False)"

definition dispatch_uses_message_ca_over_default :: bool where
  "dispatch_uses_message_ca_over_default \<longleftrightarrow>
     first_call (dispatch test_sink (make_msg 1 (Bool True) (Some SinglePoint) Good Spontaneous (Some 42)) 1 [])
       (\<lambda>call. case call of CallSinglePoint _ ca _ _ _ \<Rightarrow> ca = 42 | _ \<Rightarrow> False)"

definition dispatch_falls_back_to_default_ca :: bool where
  "dispatch_falls_back_to_default_ca \<longleftrightarrow>
     first_call (dispatch test_sink (simple_bool 1 True) 99 [])
       (\<lambda>call. case call of CallSinglePoint _ ca _ _ _ \<Rightarrow> ca = 99 | _ \<Rightarrow> False)"

definition dispatch_propagates_invalid_quality :: bool where
  "dispatch_propagates_invalid_quality \<longleftrightarrow>
     first_call (dispatch test_sink (make_msg 1 (Bool True) (Some SinglePoint) Invalid Spontaneous None) 1 [])
       (\<lambda>call. case call of CallSinglePoint _ _ _ _ q \<Rightarrow> q = Quality_INVALID | _ \<Rightarrow> False)"

definition dispatch_propagates_periodic_cot :: bool where
  "dispatch_propagates_periodic_cot \<longleftrightarrow>
     first_call (dispatch test_sink (make_msg 1 (Bool True) (Some SinglePoint) Good Periodic None) 1 [])
       (\<lambda>call. case call of CallSinglePoint cause _ _ _ _ \<Rightarrow> cause = COT_Periodic | _ \<Rightarrow> False)"

definition dispatch_timestamped_float_uses_timed_type :: bool where
  "dispatch_timestamped_float_uses_timed_type \<longleftrightarrow>
     first_call (dispatch test_sink ((simple_float 10 (F64 0x4045400000000000))\<lparr>msg_timestamp := Some (at_minutes 1)\<rparr>) 1 [])
       (\<lambda>call. case call of CallTimed _ _ ioa ty _ _ _ \<Rightarrow> ioa = 10 \<and> ty = MeasuredFloatTime | _ \<Rightarrow> False)"

definition dispatch_timestamped_scaled_uses_timed_type :: bool where
  "dispatch_timestamped_scaled_uses_timed_type \<longleftrightarrow>
     first_call (dispatch test_sink ((make_msg 11 (Number (F64 0x4014000000000000)) (Some Scaled) Good Spontaneous None)
         \<lparr>msg_timestamp := Some (at_minutes 2)\<rparr>) 1 [])
       (\<lambda>call. case call of CallTimed _ _ ioa ty _ _ _ \<Rightarrow> ioa = 11 \<and> ty = MeasuredScaledTime | _ \<Rightarrow> False)"

definition dispatch_timestamp_offsets_for_same_instant_produce_same_iec_timestamp :: "rfc3339_parser \<Rightarrow> bool" where
  "dispatch_timestamp_offsets_for_same_instant_produce_same_iec_timestamp rfc \<longleftrightarrow>
     (case (rfc ''2026-06-01T12:34:56.789Z'', rfc ''2026-06-01T14:34:56.789+02:00'') of
        (Some utc, Some offset) \<Rightarrow>
          first_call (dispatch test_sink
            ((simple_float 12 (F64 0x3FF8000000000000))\<lparr>msg_timestamp := Some utc\<rparr>) 1 []) (\<lambda>utc_call.
          first_call (dispatch test_sink
            ((simple_float 12 (F64 0x3FF8000000000000))\<lparr>msg_timestamp := Some offset\<rparr>) 1 []) (\<lambda>offset_call.
            case (utc_call, offset_call) of
              (CallTimed _ _ _ _ _ _ utc_ms, CallTimed _ _ _ _ _ _ offset_ms) \<Rightarrow> utc_ms = offset_ms
            | _ \<Rightarrow> False))
      | _ \<Rightarrow> False)"

definition strips_timestamp_when_timestamps_disabled :: bool where
  "strips_timestamp_when_timestamps_disabled \<longleftrightarrow>
     (let out = prepare_for_output (timed_float 100) (at_minutes 100) (at_minutes 100) (test_policy False None)
      in msg_timestamp (out_message out) = None \<and>
         first_call (dispatch_outgoing test_sink out 1 [])
           (\<lambda>call. case call of CallMeasuredFloat _ _ ioa _ _ \<Rightarrow> ioa = 100 | _ \<Rightarrow> False))"

definition keeps_timestamp_by_default :: bool where
  "keeps_timestamp_by_default \<longleftrightarrow>
     (let out = prepare_for_output (timed_float 100) (at_minutes 100) (at_minutes 100) (OutputPolicy_default)
      in msg_timestamp (out_message out) = Some (at_minutes 100))"

definition old_source_time_is_not_topical :: bool where
  "old_source_time_is_not_topical \<longleftrightarrow>
     (let out = prepare_for_output (timed_float 0) (at_minutes 100) (at_minutes 100) (test_policy False (Some 60))
      in captured_quality out = Some Quality_NOT_TOPICAL)"

definition old_arrival_is_not_topical_even_for_future_timestamp :: bool where
  "old_arrival_is_not_topical_even_for_future_timestamp \<longleftrightarrow>
     (let out = prepare_for_output (timed_float 220) (at_minutes 0) (at_minutes 100) (test_policy False (Some 60))
      in captured_quality out = Some Quality_NOT_TOPICAL)"

definition future_timestamp_is_not_stale :: bool where
  "future_timestamp_is_not_stale \<longleftrightarrow>
     (let out = prepare_for_output (timed_float 160) (at_minutes 99) (at_minutes 100) (test_policy False (Some 60))
      in captured_quality out = Some Quality_GOOD)"

definition fresh_point_keeps_quality :: bool where
  "fresh_point_keeps_quality \<longleftrightarrow>
     (let out = prepare_for_output (timed_float 90) (at_minutes 99) (at_minutes 100) (test_policy False (Some 60))
      in captured_quality out = Some Quality_GOOD)"

definition stale_never_overrides_invalid :: bool where
  "stale_never_overrides_invalid \<longleftrightarrow>
     (let out = prepare_for_output ((timed_float 0)\<lparr>msg_quality := Invalid\<rparr>) (at_minutes 0) (at_minutes 100) (test_policy False (Some 60))
      in captured_quality out = Some Quality_INVALID)"

definition stale_substituted_keeps_substituted_flag :: bool where
  "stale_substituted_keeps_substituted_flag \<longleftrightarrow>
     (let out = prepare_for_output ((timed_float 0)\<lparr>msg_quality := Substituted\<rparr>) (at_minutes 0) (at_minutes 100) (test_policy False (Some 60))
      in captured_quality out = Some (Quality_SUBSTITUTED OR Quality_NOT_TOPICAL))"

definition untimed_message_uses_arrival_only :: bool where
  "untimed_message_uses_arrival_only \<longleftrightarrow>
     (let out = prepare_for_output (simple_float 100 (F64 0x3FF0000000000000)) (at_minutes 50) (at_minutes 100) (test_policy True (Some 60))
      in captured_quality out = Some Quality_GOOD)"

section \<open>They hold\<close>

lemmas dispatching =
  make_msg_def simple_float_def simple_bool_def first_call_def timed_float_def captured_quality_def
  test_sink_def CapturingSink_def dispatch_def dispatch_outgoing_def dispatch_context_def
  DispatchContext_from_message_def dispatch_single_point_def dispatch_float_like_def
  dispatch_scaled_def dispatch_double_point_def timed_call_def is_scaled_number_def
  f64_i16_min_def f64_i16_max_def f32_one_def f32_zero_def quality_bits

lemmas policing =
  prepare_for_output_def test_policy_def at_minutes_def OutputPolicy_default_def elapsed_exceeds_def
  duration_from_secs_def Let_def

lemmas f32_eval = f32_real_def mag32_units_def f32_mag_def f32_neg_def

lemma map_quality_good_passes [unit_test]: map_quality_good
  by (simp add: map_quality_good_def map_quality_def map_cot_def QUALITY_MAP_def COT_MAP_def)

lemma map_quality_invalid_passes [unit_test]: map_quality_invalid
  by (simp add: map_quality_invalid_def map_quality_def map_cot_def QUALITY_MAP_def COT_MAP_def)

lemma map_quality_not_topical_passes [unit_test]: map_quality_not_topical
  by (simp add: map_quality_not_topical_def map_quality_def map_cot_def QUALITY_MAP_def COT_MAP_def)

lemma map_quality_substituted_passes [unit_test]: map_quality_substituted
  by (simp add: map_quality_substituted_def map_quality_def map_cot_def QUALITY_MAP_def COT_MAP_def)

lemma map_quality_blocked_passes [unit_test]: map_quality_blocked
  by (simp add: map_quality_blocked_def map_quality_def map_cot_def QUALITY_MAP_def COT_MAP_def)

lemma map_quality_overflow_passes [unit_test]: map_quality_overflow
  by (simp add: map_quality_overflow_def map_quality_def map_cot_def QUALITY_MAP_def COT_MAP_def)

lemma map_cot_spontaneous_passes [unit_test]: map_cot_spontaneous
  by (simp add: map_cot_spontaneous_def map_quality_def map_cot_def QUALITY_MAP_def COT_MAP_def)

lemma map_cot_periodic_passes [unit_test]: map_cot_periodic
  by (simp add: map_cot_periodic_def map_quality_def map_cot_def QUALITY_MAP_def COT_MAP_def)

lemma map_cot_background_scan_passes [unit_test]: map_cot_background_scan
  by (simp add: map_cot_background_scan_def map_quality_def map_cot_def QUALITY_MAP_def COT_MAP_def)

lemma map_cot_interrogated_passes [unit_test]: map_cot_interrogated
  by (simp add: map_cot_interrogated_def map_quality_def map_cot_def QUALITY_MAP_def COT_MAP_def)

lemma map_cot_return_info_remote_passes [unit_test]: map_cot_return_info_remote
  by (simp add: map_cot_return_info_remote_def map_quality_def map_cot_def QUALITY_MAP_def COT_MAP_def)

lemma map_cot_return_info_local_passes [unit_test]: map_cot_return_info_local
  by (simp add: map_cot_return_info_local_def map_quality_def map_cot_def QUALITY_MAP_def COT_MAP_def)

lemma infer_type_bool_yields_single_point_passes [unit_test]: infer_type_bool_yields_single_point
  by (simp add: infer_type_bool_yields_single_point_def dispatching float_eval)

lemma infer_type_integer_yields_scaled_passes [unit_test]: infer_type_integer_yields_scaled
  by (simp add: infer_type_integer_yields_scaled_def dispatching float_eval)

lemma infer_type_float_yields_measured_float_passes [unit_test]: infer_type_float_yields_measured_float
  by (simp add: infer_type_float_yields_measured_float_def dispatching float_eval)

lemma dispatch_single_point_bool_true_passes [unit_test]: dispatch_single_point_bool_true
  by (simp add: dispatch_single_point_bool_true_def dispatching float_eval)

lemma dispatch_single_point_bool_false_passes [unit_test]: dispatch_single_point_bool_false
  by (simp add: dispatch_single_point_bool_false_def dispatching float_eval)

lemma dispatch_single_point_nonzero_number_is_on_passes [unit_test]: dispatch_single_point_nonzero_number_is_on
  by (simp add: dispatch_single_point_nonzero_number_is_on_def dispatching float_eval)

lemma dispatch_single_point_zero_number_is_off_passes [unit_test]: dispatch_single_point_zero_number_is_off
  by (simp add: dispatch_single_point_zero_number_is_off_def dispatching float_eval)

lemma dispatch_float_number_passes [unit_test]: dispatch_float_number
  by (simp add: dispatch_float_number_def dispatching float_eval f32_eval)

lemma dispatch_float_bool_true_is_one_passes [unit_test]: dispatch_float_bool_true_is_one
  by (simp add: dispatch_float_bool_true_is_one_def dispatching float_eval f32_eval)

lemma dispatch_float_bool_false_is_zero_passes [unit_test]: dispatch_float_bool_false_is_zero
  by (simp add: dispatch_float_bool_false_is_zero_def dispatching float_eval f32_eval)

lemma dispatch_normalized_number_passes [unit_test]: dispatch_normalized_number
  by (simp add: dispatch_normalized_number_def dispatching float_eval)

lemma dispatch_scaled_number_passes [unit_test]: dispatch_scaled_number
  by (simp add: dispatch_scaled_number_def dispatching float_eval)

lemma dispatch_scaled_clamps_to_i16_max_passes [unit_test]: dispatch_scaled_clamps_to_i16_max
  by (simp add: dispatch_scaled_clamps_to_i16_max_def dispatching float_eval)

lemma dispatch_scaled_clamps_to_i16_min_passes [unit_test]: dispatch_scaled_clamps_to_i16_min
  by (simp add: dispatch_scaled_clamps_to_i16_min_def dispatching float_eval)

lemma dispatch_scaled_bool_true_is_one_passes [unit_test]: dispatch_scaled_bool_true_is_one
  by (simp add: dispatch_scaled_bool_true_is_one_def dispatching float_eval)

lemma dispatch_double_point_bool_falls_back_to_single_passes [unit_test]: dispatch_double_point_bool_falls_back_to_single
  by (simp add: dispatch_double_point_bool_falls_back_to_single_def dispatching float_eval)

lemma dispatch_double_point_number_falls_back_to_single_passes [unit_test]: dispatch_double_point_number_falls_back_to_single
  by (simp add: dispatch_double_point_number_falls_back_to_single_def dispatching float_eval)

lemma dispatch_uses_message_ca_over_default_passes [unit_test]: dispatch_uses_message_ca_over_default
  by (simp add: dispatch_uses_message_ca_over_default_def dispatching float_eval)

lemma dispatch_falls_back_to_default_ca_passes [unit_test]: dispatch_falls_back_to_default_ca
  by (simp add: dispatch_falls_back_to_default_ca_def dispatching float_eval)

lemma dispatch_propagates_invalid_quality_passes [unit_test]: dispatch_propagates_invalid_quality
  by (simp add: dispatch_propagates_invalid_quality_def dispatching float_eval)

lemma dispatch_propagates_periodic_cot_passes [unit_test]: dispatch_propagates_periodic_cot
  by (simp add: dispatch_propagates_periodic_cot_def dispatching float_eval)

lemma dispatch_timestamped_float_uses_timed_type_passes [unit_test]: dispatch_timestamped_float_uses_timed_type
  by (simp add: dispatch_timestamped_float_uses_timed_type_def dispatching float_eval)

lemma dispatch_timestamped_scaled_uses_timed_type_passes [unit_test]: dispatch_timestamped_scaled_uses_timed_type
  by (simp add: dispatch_timestamped_scaled_uses_timed_type_def dispatching float_eval)

lemma dispatch_timestamp_offsets_for_same_instant_produce_same_iec_timestamp_passes [unit_test]: "reads_offsets rfc \<Longrightarrow> dispatch_timestamp_offsets_for_same_instant_produce_same_iec_timestamp rfc"
  by (auto simp: dispatch_timestamp_offsets_for_same_instant_produce_same_iec_timestamp_def reads_offsets_def dispatching split: option.splits)

lemma strips_timestamp_when_timestamps_disabled_passes [unit_test]: strips_timestamp_when_timestamps_disabled
  by (simp add: strips_timestamp_when_timestamps_disabled_def dispatching policing)

lemma keeps_timestamp_by_default_passes [unit_test]: keeps_timestamp_by_default
  by (simp add: keeps_timestamp_by_default_def dispatching policing)

lemma old_source_time_is_not_topical_passes [unit_test]: old_source_time_is_not_topical
  by (simp add: old_source_time_is_not_topical_def dispatching policing)

lemma old_arrival_is_not_topical_even_for_future_timestamp_passes [unit_test]: old_arrival_is_not_topical_even_for_future_timestamp
  by (simp add: old_arrival_is_not_topical_even_for_future_timestamp_def dispatching policing)

lemma future_timestamp_is_not_stale_passes [unit_test]: future_timestamp_is_not_stale
  by (simp add: future_timestamp_is_not_stale_def dispatching policing)

lemma fresh_point_keeps_quality_passes [unit_test]: fresh_point_keeps_quality
  by (simp add: fresh_point_keeps_quality_def dispatching policing)

lemma stale_never_overrides_invalid_passes [unit_test]: stale_never_overrides_invalid
  by (simp add: stale_never_overrides_invalid_def dispatching policing)

lemma stale_substituted_keeps_substituted_flag_passes [unit_test]: stale_substituted_keeps_substituted_flag
  by (simp add: stale_substituted_keeps_substituted_flag_def dispatching policing)

lemma untimed_message_uses_arrival_only_passes [unit_test]: untimed_message_uses_arrival_only
  by (simp add: untimed_message_uses_arrival_only_def dispatching policing)

definition bridge_tests :: "rfc3339_parser \<Rightarrow> bool list" where
  "bridge_tests rfc =
     [map_quality_good,
      map_quality_invalid,
      map_quality_not_topical,
      map_quality_substituted,
      map_quality_blocked,
      map_quality_overflow,
      map_cot_spontaneous,
      map_cot_periodic,
      map_cot_background_scan,
      map_cot_interrogated,
      map_cot_return_info_remote,
      map_cot_return_info_local,
      infer_type_bool_yields_single_point,
      infer_type_integer_yields_scaled,
      infer_type_float_yields_measured_float,
      dispatch_single_point_bool_true,
      dispatch_single_point_bool_false,
      dispatch_single_point_nonzero_number_is_on,
      dispatch_single_point_zero_number_is_off,
      dispatch_float_number,
      dispatch_float_bool_true_is_one,
      dispatch_float_bool_false_is_zero,
      dispatch_normalized_number,
      dispatch_scaled_number,
      dispatch_scaled_clamps_to_i16_max,
      dispatch_scaled_clamps_to_i16_min,
      dispatch_scaled_bool_true_is_one,
      dispatch_double_point_bool_falls_back_to_single,
      dispatch_double_point_number_falls_back_to_single,
      dispatch_uses_message_ca_over_default,
      dispatch_falls_back_to_default_ca,
      dispatch_propagates_invalid_quality,
      dispatch_propagates_periodic_cot,
      dispatch_timestamped_float_uses_timed_type,
      dispatch_timestamped_scaled_uses_timed_type,
      dispatch_timestamp_offsets_for_same_instant_produce_same_iec_timestamp rfc,
      strips_timestamp_when_timestamps_disabled,
      keeps_timestamp_by_default,
      old_source_time_is_not_topical,
      old_arrival_is_not_topical_even_for_future_timestamp,
      future_timestamp_is_not_stale,
      fresh_point_keeps_quality,
      stale_never_overrides_invalid,
      stale_substituted_keeps_substituted_flag,
      untimed_message_uses_arrival_only]"

lemma bridge_tests_pass:
  assumes "reads_offsets rfc"
  shows "list_all (\<lambda>passed. passed) (bridge_tests rfc)"
  using assms by (simp add: bridge_tests_def unit_test)

end
