(* ===== verification/RuntimeTests.thy ===== *)
theory RuntimeTests
  imports Supervisor BridgeTests
begin

text \<open>
  The unit tests of \<open>src/src/validation.rs\<close>, \<open>src/src/source.rs\<close> and \<open>src/src/main.rs\<close>, replayed on
  the model. The tests of the Unix socket run the client's task on what the client has written; the
  texts are read by the parameter \<open>parse_text\<close>. The interrogation tests run the handler against
  the library whose queue has room and look at what its connection receives.
\<close>

section \<open>Validation\<close>

definition base_message :: Iec104Message where
  "base_message = \<lparr>msg_ioa = 1, msg_value = Number (F64 0x4045000000000000), msg_data_type = Some Float,
     msg_ca = Some 1, msg_quality = Good, msg_cot = Spontaneous, msg_timestamp = None\<rparr>"

definition accepts_valid_message :: bool where
  "accepts_valid_message \<longleftrightarrow> is_ok (validate_message base_message)"

definition rejects_zero_ioa :: bool where
  "rejects_zero_ioa \<longleftrightarrow> \<not> is_ok (validate_message (base_message\<lparr>msg_ioa := 0\<rparr>))"

definition rejects_invalid_ca :: bool where
  "rejects_invalid_ca \<longleftrightarrow> \<not> is_ok (validate_message (base_message\<lparr>msg_ca := Some 0\<rparr>))"

definition rejects_out_of_range_normalized_value :: bool where
  "rejects_out_of_range_normalized_value \<longleftrightarrow>
     \<not> is_ok (validate_message
       (base_message\<lparr>msg_data_type := Some Normalized, msg_value := Number (F64 0x3FF8000000000000)\<rparr>))"

definition rejects_numeric_single_point :: bool where
  "rejects_numeric_single_point \<longleftrightarrow>
     \<not> is_ok (validate_message (base_message\<lparr>msg_data_type := Some SinglePoint\<rparr>))"

definition rejects_timestamp_before_unix_epoch :: bool where
  "rejects_timestamp_before_unix_epoch \<longleftrightarrow>
     \<not> is_ok (validate_message (base_message\<lparr>msg_timestamp := Some (OffsetDateTime (- 1000000000))\<rparr>))"

section \<open>Sources\<close>

definition numbered_msg :: "u32 \<Rightarrow> f64 \<Rightarrow> Iec104Message" where
  "numbered_msg ioa x = \<lparr>msg_ioa = ioa, msg_value = Number x, msg_data_type = Some Float,
     msg_ca = None, msg_quality = Good, msg_cot = Spontaneous, msg_timestamp = None\<rparr>"

definition timestamp_ms :: "OffsetDateTime \<Rightarrow> u64" where
  "timestamp_ms t = (word_of_int (unix_timestamp_nanos t) :: u64) div 1000000"

definition iter_source_yields_all_messages_in_order :: bool where
  "iter_source_yields_all_messages_in_order \<longleftrightarrow>
     (let msgs = [numbered_msg 1 (F64 0x3FF0000000000000), numbered_msg 2 (F64 0x4000000000000000),
            numbered_msg 3 (F64 0x4008000000000000)];
          yielded = IterSource_into_messages msgs :: (unit, unit IncomingMessage) result list
      in length yielded = 3 \<and>
         list_all2 (\<lambda>item msg. case item of
             Inl _ \<Rightarrow> False
           | Inr incoming \<Rightarrow> msg_ioa (in_message incoming) = msg_ioa msg) yielded msgs)"

definition iter_source_empty_vec_ends_immediately :: bool where
  "iter_source_empty_vec_ends_immediately \<longleftrightarrow>
     (IterSource_into_messages [] :: (unit, unit IncomingMessage) result list) = []"

text \<open>The texts that the clients of the tests write.\<close>

definition quoted :: "string \<Rightarrow> string" where
  "quoted s = [CHR 0x22] @ s @ [CHR 0x22]"

definition float_text :: string where
  "float_text = ''{'' @ quoted ''ioa'' @ '':1,'' @ quoted ''value'' @ '':42.5,'' @
     quoted ''type'' @ '':'' @ quoted ''float'' @ ''}''"

definition timed_text :: string where
  "timed_text = ''{'' @ quoted ''ioa'' @ '':1001,'' @ quoted ''value'' @ '':132.4,'' @
     quoted ''type'' @ '':'' @ quoted ''float'' @ '','' @
     quoted ''timestamp'' @ '':'' @ quoted ''2026-06-01T12:34:56.789Z'' @ ''}''"

definition bad_text :: string where
  "bad_text = ''not-json''"

text \<open>What \<open>serde_json\<close> makes of them.\<close>

definition reads_test_texts :: "(string \<Rightarrow> json option) \<Rightarrow> bool" where
  "reads_test_texts parse_text \<longleftrightarrow>
     parse_text float_text = Some (JObject [(''ioa'', int_json 1),
       (''value'', float_json (F64 0x4045400000000000)), (''type'', JString ''float'')]) \<and>
     parse_text timed_text = Some (JObject [(''ioa'', int_json 1001),
       (''value'', float_json (F64 0x40608CCCCCCCCCCD)), (''type'', JString ''float''),
       (''timestamp'', JString ''2026-06-01T12:34:56.789Z'')]) \<and>
     parse_text bad_text = None"

text \<open>
  A client of a source with a limit of 1024 bytes: the state its task leaves after reading what the
  client wrote. The second function reads the reply to an acknowledgement.
\<close>

definition client_of_source ::
  "(string \<Rightarrow> json option) \<Rightarrow> rfc3339_parser \<Rightarrow> u32 option \<Rightarrow> PeerCred \<Rightarrow> string \<Rightarrow> ClientState" where
  "client_of_source parse_text rfc allowed_uid peer written =
     spawn_unix_client_task
       \<lparr>env_parse_text = parse_text, env_rfc = rfc, env_max_line_bytes = 0,
        env_broken = (\<lambda>_ _. False), env_rx_open = (\<lambda>_. True)\<rparr> (Inr peer)
       \<lparr>rt_socket_path = run_socket, rt_allowed_uid = allowed_uid, rt_allowed_gid = None,
        rt_max_line_bytes = 1024\<rparr>
       \<lparr>cl_reader = \<lparr>unread = written, read_fails = False\<rparr>, cl_replies = [], cl_sent = []\<rparr>"

definition acked_replies :: "string IncomingMessage \<Rightarrow> replies \<Rightarrow> replies" where
  "acked_replies incoming out = snd (ack (write_socket_reply (\<lambda>_ _. False)) incoming out)"

definition test_peer :: "u32 \<Rightarrow> PeerCred" where
  "test_peer user = \<lparr>uid = user, gid = 1000, pid = 1234\<rparr>"

definition unix_socket_source_accepts_valid_message_and_acks_after_dispatch ::
  "(string \<Rightarrow> json option) \<Rightarrow> rfc3339_parser \<Rightarrow> bool" where
  "unix_socket_source_accepts_valid_message_and_acks_after_dispatch parse_text rfc \<longleftrightarrow>
     (let client = client_of_source parse_text rfc None (test_peer 1000) (float_text @ newline)
      in case cl_sent client of
           [] \<Rightarrow> False
         | incoming # _ \<Rightarrow> msg_ioa (in_message incoming) = 1 \<and>
             acked_replies incoming (cl_replies client) = [''ok'' @ newline])"

definition unix_socket_source_timestamped_message_dispatches_as_timed_iec_output ::
  "(string \<Rightarrow> json option) \<Rightarrow> rfc3339_parser \<Rightarrow> bool" where
  "unix_socket_source_timestamped_message_dispatches_as_timed_iec_output parse_text rfc \<longleftrightarrow>
     (let client = client_of_source parse_text rfc None (test_peer 1000) (timed_text @ newline)
      in case (cl_sent client, rfc ''2026-06-01T12:34:56.789Z'') of
           (incoming # _, Some t) \<Rightarrow>
             acked_replies incoming (cl_replies client) = [''ok'' @ newline] \<and>
             first_call (dispatch test_sink (in_message incoming) 1 [])
               (\<lambda>call. case call of
                   CallTimed cause ca ioa ty _ _ ms \<Rightarrow> cause = COT_Spontaneous \<and> ca = 1 \<and>
                     ioa = 1001 \<and> ty = MeasuredFloatTime \<and> ms = timestamp_ms t
                 | _ \<Rightarrow> False)
         | _ \<Rightarrow> False)"

definition unix_socket_source_rejects_parse_errors ::
  "(string \<Rightarrow> json option) \<Rightarrow> rfc3339_parser \<Rightarrow> bool" where
  "unix_socket_source_rejects_parse_errors parse_text rfc \<longleftrightarrow>
     (let client = client_of_source parse_text rfc None (test_peer 1000) (bad_text @ newline)
      in cl_replies client = [''error parse'' @ newline] \<and> cl_sent client = [])"

definition unix_socket_source_rejects_unauthorized_peer ::
  "(string \<Rightarrow> json option) \<Rightarrow> rfc3339_parser \<Rightarrow> bool" where
  "unix_socket_source_rejects_unauthorized_peer parse_text rfc \<longleftrightarrow>
     cl_replies (client_of_source parse_text rfc (Some 42) (test_peer 7) []) =
       [''error unauthorized'' @ newline]"

definition prepare_socket_path_removes_stale_socket_file :: bool where
  "prepare_socket_path_removes_stale_socket_file \<longleftrightarrow>
     (case prepare_socket_path tree_os run_socket (run_tree RegularFile) of
        (Inl _, _) \<Rightarrow> False
      | (Inr created_parent_dir, f) \<Rightarrow> tree_kind f run_socket = None \<and> \<not> created_parent_dir)"

definition ensure_socket_parent_dir_reports_when_it_creates_directory :: bool where
  "ensure_socket_parent_dir_reports_when_it_creates_directory \<longleftrightarrow>
     (let socket_dir = \<lparr>absolute = True, components = [''run'', ''new-socket-dir'']\<rparr>
      in case ensure_socket_parent_dir tree_os socket_dir (run_tree RegularFile) of
           (Inl _, _) \<Rightarrow> False
         | (Inr created_parent_dir, f) \<Rightarrow>
             created_parent_dir \<and> tree_kind f socket_dir = Some Directory)"

section \<open>Message handling\<close>

definition sample_message :: Iec104Message where
  "sample_message = \<lparr>msg_ioa = 100, msg_value = Number (F64 0x4045400000000000),
     msg_data_type = Some Float, msg_ca = None, msg_quality = Good, msg_cot = Spontaneous,
     msg_timestamp = None\<rparr>"

definition outgoing :: "Iec104Message \<Rightarrow> Outgoing" where
  "outgoing message = \<lparr>out_message = message, not_topical = False\<rparr>"

definition dispatch_message_if_enabled_skips_when_gi_only :: bool where
  "dispatch_message_if_enabled_skips_when_gi_only \<longleftrightarrow>
     (case dispatch_message_if_enabled test_sink (outgoing sample_message) 7 True [] of
        (dispatched, calls) \<Rightarrow> \<not> dispatched \<and> calls = [])"

definition dispatch_message_if_enabled_dispatches_when_spontaneous_enabled :: bool where
  "dispatch_message_if_enabled_dispatches_when_spontaneous_enabled \<longleftrightarrow>
     (case dispatch_message_if_enabled test_sink (outgoing sample_message) 7 False [] of
        (dispatched, calls) \<Rightarrow> dispatched \<and>
          first_call calls (\<lambda>call. case call of
              CallMeasuredFloat _ ca ioa _ _ \<Rightarrow> ca = 7 \<and> ioa = 100
            | _ \<Rightarrow> False))"

text \<open>The flag of the tests is the transport: an acknowledgement sets it.\<close>

definition test_loop_env :: "OutputPolicy \<Rightarrow> (unit, bool) LoopEnv" where
  "test_loop_env out_policy = \<lparr>le_native = queue_env 5, le_server = 3,
     le_perform = (\<lambda>_ _. (Inr (), True)), le_default_ca = 7, le_gi_only = True,
     le_policy = out_policy\<rparr>"

definition test_bridge :: "DataStore \<Rightarrow> bool Bridge" where
  "test_bridge store = \<lparr>br_store = store, br_metrics = Metrics_default, br_calls = [],
     br_running = True, br_transport = False\<rparr>"

definition handle_incoming_message_gi_only_caches_and_acks_without_dispatching ::
  "OffsetDateTime \<Rightarrow> bool" where
  "handle_incoming_message_gi_only_caches_and_acks_without_dispatching now \<longleftrightarrow>
     (case handle_incoming_message (test_loop_env OutputPolicy_default) now
             (with_ack sample_message ()) (test_bridge Map.empty) of
        (r, b) \<Rightarrow> is_ok r \<and> dom (br_store b) = {(7, 100)} \<and>
          map_option cp_message (br_store b (7, 100)) = Some sample_message \<and>
          br_transport b \<and> messages_dispatched (br_metrics b) = 0)"

definition handle_incoming_message_caches_timestamp_and_arrival ::
  "OffsetDateTime \<Rightarrow> OffsetDateTime \<Rightarrow> bool" where
  "handle_incoming_message_caches_timestamp_and_arrival before now \<longleftrightarrow>
     (let message = sample_message\<lparr>msg_timestamp := Some (at_minutes 1)\<rparr>
      in case handle_incoming_message (test_loop_env \<lparr>send_timestamps = False, max_age = None\<rparr>) now
                (with_ack message ()) (test_bridge Map.empty) of
           (r, b) \<Rightarrow> is_ok r \<and>
             (case br_store b (7, 100) of
                None \<Rightarrow> False
              | Some cached \<Rightarrow> msg_timestamp (cp_message cached) = msg_timestamp message \<and>
                  cp_received_at cached \<ge> before))"

definition replay_with_policy_on_empty_cache_sends_nothing :: "OffsetDateTime \<Rightarrow> bool" where
  "replay_with_policy_on_empty_cache_sends_nothing now \<longleftrightarrow>
     replay_cached_values test_sink (\<lambda>_. []) Map.empty 1
       \<lparr>send_timestamps = False, max_age = Some (duration_from_secs 60)\<rparr> now [] = []"

section \<open>Interrogations\<close>

text \<open>What a master receives: type identification, cause and the negative bit.\<close>

datatype ReceivedCause = ActivationCon | ActivationTermination | DataCause CauseOfTransmission

type_synonym Received = "(nat option \<times> ReceivedCause \<times> bool) list"

fun received_asdu :: "Delivery \<Rightarrow> Received" where
  "received_asdu (ActCon conn negative True) = [(Some 100, ActivationCon, negative)]"
| "received_asdu (ActTerm conn True) = [(Some 100, ActivationTermination, False)]"
| "received_asdu (Sent conn (hdr, objects) True) =
     [(map_option type_identification (if objects = [] then None else Some (hd objects)),
       DataCause (hdr_cot hdr), hdr_isNegative hdr)]"
| "received_asdu _ = []"

definition gi_store :: "OffsetDateTime \<Rightarrow> DataStore" where
  "gi_store now =
     [(7, 100) \<mapsto> \<lparr>cp_message = sample_message\<lparr>msg_ioa := 100\<rparr>, cp_received_at = now\<rparr>,
      (7, 101) \<mapsto> \<lparr>cp_message = sample_message\<lparr>msg_ioa := 101\<rparr>, cp_received_at = now\<rparr>]"

definition run_gi :: "u8 \<Rightarrow> point_key list \<Rightarrow> OffsetDateTime \<Rightarrow> u8 \<Rightarrow> Received" where
  "run_gi station keys now qoi =
     (let b = snd (interrogation_handler (queue_env 16) station (\<lambda>_. keys) 7 OutputPolicy_default
                7 80 request_example qoi now (test_bridge (gi_store now)))
      in case heap_after (br_calls b) of
           None \<Rightarrow> []
         | Some h \<Rightarrow> concat (map received_asdu (heap_out h)))"

text \<open>In both orders in which the two cached points may be iterated.\<close>

definition gi_reply_sends_interrogated_values_before_act_term :: "OffsetDateTime \<Rightarrow> bool" where
  "gi_reply_sends_interrogated_values_before_act_term now \<longleftrightarrow>
     list_all (\<lambda>keys.
       let received = run_gi 20 keys now 20;
           before_term = takeWhile (\<lambda>(_, cause, _). cause \<noteq> ActivationTermination) received;
           is_data = (\<lambda>(_, cause, _). cause = DataCause COT_InterrogatedByStation \<or>
                        cause = DataCause COT_Spontaneous)
       in length (filter is_data received) = 2 \<and> filter is_data before_term = filter is_data received \<and>
          hd received = (Some 100, ActivationCon, False) \<and>
          length before_term < length received \<and>
          fst (received ! length before_term) = Some 100 \<and>
          list_all (\<lambda>(_, cause, _). cause = DataCause COT_InterrogatedByStation)
            (filter is_data received))
       [[(7, 100), (7, 101)], [(7, 101), (7, 100)]]"

definition group_interrogation_is_negatively_confirmed :: "OffsetDateTime \<Rightarrow> bool" where
  "group_interrogation_is_negatively_confirmed now \<longleftrightarrow>
     run_gi 20 [(7, 100), (7, 101)] now 21 = [(Some 100, ActivationCon, True)]"

section \<open>They hold\<close>

lemmas validating =
  validate_message_def validate_ioa_def validate_ca_def validate_timestamp_def
  validate_normalized_value_def validate_boolean_point_value_def base_message_def
  f64_one_def f64_minus_one_def

lemma validation_tests_pass [unit_test]:
  accepts_valid_message rejects_zero_ioa rejects_invalid_ca rejects_out_of_range_normalized_value
  rejects_numeric_single_point rejects_timestamp_before_unix_epoch
  by (simp_all add: accepts_valid_message_def rejects_zero_ioa_def rejects_invalid_ca_def
      rejects_out_of_range_normalized_value_def rejects_numeric_single_point_def
      rejects_timestamp_before_unix_epoch_def validating float_eval)

lemma iter_source_tests_pass [unit_test]:
  iter_source_yields_all_messages_in_order iter_source_empty_vec_ends_immediately
  by (simp_all add: iter_source_yields_all_messages_in_order_def numbered_msg_def
      iter_source_empty_vec_ends_immediately_def IterSource_into_messages_def IncomingMessage_new_def
      Let_def)

lemmas claiming_path =
  prepare_socket_path_def ensure_socket_parent_dir_def create_directory_if_missing.simps
  remove_existing_socket_path_def remove_existing_socket_entry_def socket_parent_def parent_def
  tree_os_def tree_add_def tree_kind_def in_directory_def run_tree_def run_dir_def run_socket_def
  plain_def Let_def

lemma socket_path_tests_pass [unit_test]:
  prepare_socket_path_removes_stale_socket_file
  ensure_socket_parent_dir_reports_when_it_creates_directory
  by (simp_all add: prepare_socket_path_removes_stale_socket_file_def
      ensure_socket_parent_dir_reports_when_it_creates_directory_def claiming_path)

lemma dispatch_enabled_tests_pass [unit_test]:
  dispatch_message_if_enabled_skips_when_gi_only
  dispatch_message_if_enabled_dispatches_when_spontaneous_enabled
  by (simp_all add: dispatch_message_if_enabled_skips_when_gi_only_def
      dispatch_message_if_enabled_dispatches_when_spontaneous_enabled_def
      dispatch_message_if_enabled_def outgoing_def sample_message_def dispatching Let_def)

lemmas handling =
  handle_incoming_message_def cache_incoming_def dispatch_incoming_def acknowledge_incoming_def
  incoming_key_def store_insert_def ack_def with_ack_def test_loop_env_def test_bridge_def
  sample_message_def Metrics_default_def

lemma handle_incoming_tests_pass [unit_test]:
  "handle_incoming_message_gi_only_caches_and_acks_without_dispatching now"
  "before \<le> now \<Longrightarrow> handle_incoming_message_caches_timestamp_and_arrival before now"
  "replay_with_policy_on_empty_cache_sends_nothing now"
  by (simp_all add: handle_incoming_message_gi_only_caches_and_acks_without_dispatching_def
      handle_incoming_message_caches_timestamp_and_arrival_def
      replay_with_policy_on_empty_cache_sends_nothing_def replay_cached_values_def handling)

lemmas replaying =
  run_gi_def interrogation_handler_def replay_cached_values_def gi_store_def gi_outgoing_def
  prepare_for_output_def OutputPolicy_default_def ConnectionSink_def ConnectionSink_new_def
  send_untimed_def count_failure_def send_untimed_to_connection_def create_io_def
  single_object_asdu_def send_to_connection_def queue_env_def has_room_def next_handle_def
  test_bridge_def sample_message_def count_gi_response_def heap_after_def empty_heap_def
  hand_over_def PinnedAsdu_copy_of_def move_to_def request_example_def

lemma gi_reply_test_passes [unit_test]: "gi_reply_sends_interrogated_values_before_act_term now"
  by (simp add: gi_reply_sends_interrogated_values_before_act_term_def replaying dispatching Let_def)

lemma group_interrogation_test_passes [unit_test]: "group_interrogation_is_negatively_confirmed now"
  by (simp add: group_interrogation_is_negatively_confirmed_def replaying Let_def)


lemmas connecting =
  client_of_source_def spawn_unix_client_task_def handle_unix_client_def authorize_unix_client_def
  check_peer_authorization_def authorization_failure_for_uid_def authorization_failure_for_gid_def
  reply_unauthorized_def write_socket_reply_def test_peer_def

lemma unauthorized_test_passes [unit_test]:
  "unix_socket_source_rejects_unauthorized_peer parse_text rfc"
  by (simp add: unix_socket_source_rejects_unauthorized_peer_def connecting reply_denied_def)

lemma single_line:
  assumes "list_all (\<lambda>c. c \<noteq> CHR 0x0A) t"
  shows "lines_of (t @ newline) = [t @ newline]"
proof -
  have front: "takeWhile (\<lambda>c. c \<noteq> CHR 0x0A) (t @ newline) = t"
    using assms by (simp add: takeWhile_append newline_def list_all_iff)
  show ?thesis
    by (simp add: lines_of.simps [of "t @ newline"] front Let_def)
      (simp add: newline_def lines_of.simps [of "[]"])
qed

text \<open>A client without restrictions that writes one line of a plain text.\<close>

definition plain_text :: "string \<Rightarrow> bool" where
  "plain_text t \<longleftrightarrow> list_all (\<lambda>c. c \<noteq> CHR 0x0A) t \<and> utf8 (t @ newline) \<and> length t < 1024 \<and>
     t \<noteq> [] \<and> last t \<noteq> CHR 0x0D \<and> last t \<noteq> CHR 0x0A"

lemma trim_plain_text: "plain_text t \<Longrightarrow> trim_end_newlines (t @ newline) = t"
  by (cases t rule: rev_cases) (simp_all add: plain_text_def trim_end_newlines_def newline_def)

lemma one_line_client:
  assumes "plain_text t"
  shows "cl_replies (client_of_source parse_text rfc None peer (t @ newline)) =
      (case from_text parse_text rfc t of
         Inl _ \<Rightarrow> [reply_parse]
       | Inr m \<Rightarrow> if valid_message m then [] else [reply_validation])"
    and "cl_sent (client_of_source parse_text rfc None peer (t @ newline)) =
      (case from_text parse_text rfc t of
         Inl _ \<Rightarrow> []
       | Inr m \<Rightarrow> if valid_message m then [message_with_ack m] else [])"
proof -
  let ?env = "\<lparr>env_parse_text = parse_text, env_rfc = rfc, env_max_line_bytes = 1024,
    env_broken = (\<lambda>_ _. False), env_rx_open = (\<lambda>_. True)\<rparr>"
  let ?s = "\<lparr>cl_reader = \<lparr>unread = t @ newline, read_fails = False\<rparr>, cl_replies = [], cl_sent = []\<rparr>"
  have lines: "lines_of (t @ newline) = [t @ newline]" "list_all utf8 (lines_of (t @ newline))"
    using assms single_line [of t] by (simp_all add: plain_text_def)
  have "client_of_source parse_text rfc None peer (t @ newline) = snd (forward_unix_client_lines ?env ?s)"
    by (simp add: connecting)
  also have "\<dots> = ?s\<lparr>cl_reader := \<lparr>unread = [], read_fails = False\<rparr>,
      cl_replies := List.map_filter (reply_of \<circ> verdict ?env) [t @ newline],
      cl_sent := List.map_filter (message_of \<circ> verdict ?env) [t @ newline]\<rparr>"
    using forward_well_behaved [of ?s _ ?env, OF _ lines(2)] by (simp add: lines(1))
  finally have client: "client_of_source parse_text rfc None peer (t @ newline) = \<dots>" .
  have "length (t @ newline) \<le> 1024" "t \<noteq> []" using assms by (simp_all add: plain_text_def newline_def)
  then have "verdict ?env (t @ newline) =
      (case from_text parse_text rfc t of
         Inl _ \<Rightarrow> Reject reply_parse
       | Inr m \<Rightarrow> if valid_message m then Accept m else Reject reply_validation)"
    using trim_plain_text [OF assms] by (simp add: verdict_def Let_def)
  then show "cl_replies (client_of_source parse_text rfc None peer (t @ newline)) =
      (case from_text parse_text rfc t of
         Inl _ \<Rightarrow> [reply_parse]
       | Inr m \<Rightarrow> if valid_message m then [] else [reply_validation])"
    and "cl_sent (client_of_source parse_text rfc None peer (t @ newline)) =
      (case from_text parse_text rfc t of
         Inl _ \<Rightarrow> []
       | Inr m \<Rightarrow> if valid_message m then [message_with_ack m] else [])"
    unfolding client by (auto simp: List.map_filter_def split: sum.split)
qed

lemma test_texts_plain: "plain_text float_text" "plain_text timed_text" "plain_text bad_text"
  by (simp_all add: plain_text_def bad_text_def float_text_def timed_text_def quoted_def newline_def utf8_def)

lemma test_texts_read:
  assumes "reads_test_texts parse_text"
  shows "from_text parse_text rfc bad_text = Inl InvalidValue"
    and "from_text parse_text rfc float_text = Inr (numbered_msg 1 (F64 0x4045400000000000))"
    and "rfc ''2026-06-01T12:34:56.789Z'' = Some t \<Longrightarrow> from_text parse_text rfc timed_text =
      Inr ((numbered_msg 1001 (F64 0x40608CCCCCCCCCCD))\<lparr>msg_timestamp := Some t\<rparr>)"
  using assms
  by (simp_all add: reads_test_texts_def from_text_def numbered_msg_def blank_message_def
      require_field_def DataType_variant_def QualityField_default_def CotField_default_def)

lemma client_tests_pass [unit_test]:
  assumes "reads_test_texts parse_text"
  shows "unix_socket_source_accepts_valid_message_and_acks_after_dispatch parse_text rfc"
    and "unix_socket_source_rejects_parse_errors parse_text rfc"
    and "reads_offsets rfc \<Longrightarrow>
      unix_socket_source_timestamped_message_dispatches_as_timed_iec_output parse_text rfc"
  by (auto simp: unix_socket_source_accepts_valid_message_and_acks_after_dispatch_def
      unix_socket_source_rejects_parse_errors_def
      unix_socket_source_timestamped_message_dispatches_as_timed_iec_output_def one_line_client
      test_texts_plain test_texts_read [OF assms] numbered_msg_def valid_message_def reply_parse_def
      acked_replies_def message_with_ack_def with_ack_def ack_def write_socket_reply_def reply_ok_def
      dispatching offset_datetime_to_cp56_timestamp_def timestamp_ms_def
      reads_offsets_def Let_def split: option.splits)

section \<open>All of them\<close>

definition validation_tests :: "bool list" where
  "validation_tests =
     [accepts_valid_message, rejects_zero_ioa, rejects_invalid_ca,
      rejects_out_of_range_normalized_value, rejects_numeric_single_point,
      rejects_timestamp_before_unix_epoch]"

definition source_tests :: "(string \<Rightarrow> json option) \<Rightarrow> rfc3339_parser \<Rightarrow> bool list" where
  "source_tests parse_text rfc =
     [iter_source_yields_all_messages_in_order, iter_source_empty_vec_ends_immediately,
      unix_socket_source_accepts_valid_message_and_acks_after_dispatch parse_text rfc,
      unix_socket_source_timestamped_message_dispatches_as_timed_iec_output parse_text rfc,
      unix_socket_source_rejects_parse_errors parse_text rfc,
      unix_socket_source_rejects_unauthorized_peer parse_text rfc,
      prepare_socket_path_removes_stale_socket_file,
      ensure_socket_parent_dir_reports_when_it_creates_directory]"

definition main_tests :: "OffsetDateTime \<Rightarrow> OffsetDateTime \<Rightarrow> bool list" where
  "main_tests before now =
     [dispatch_message_if_enabled_skips_when_gi_only,
      dispatch_message_if_enabled_dispatches_when_spontaneous_enabled,
      handle_incoming_message_gi_only_caches_and_acks_without_dispatching now,
      handle_incoming_message_caches_timestamp_and_arrival before now,
      replay_with_policy_on_empty_cache_sends_nothing now,
      gi_reply_sends_interrogated_values_before_act_term now,
      group_interrogation_is_negatively_confirmed now]"

lemma runtime_tests_pass:
  assumes "reads_test_texts parse_text" and "reads_offsets rfc" and "before \<le> now"
  shows "list_all (\<lambda>passed. passed)
    (validation_tests @ source_tests parse_text rfc @ main_tests before now)"
  using assms by (simp add: validation_tests_def source_tests_def main_tests_def unit_test)

end
