(* ===== verification/Tls.thy ===== *)
theory Tls
  imports Config
begin

text \<open>
  Mutual TLS, \<open>src/src/tls.rs\<close>, and the TLS listener of \<open>src/src/main.rs\<close>: loading the PEM files,
  building the acceptor, the two-variant stream, the handshake and the proxy session. The file
  system, \<open>rustls\<close> and \<open>rustls_pemfile\<close> are parameters: a record of the calls the code makes.
\<close>

section \<open>Loading certificates and keys\<close>

datatype load_error = CannotOpen string | BadPem string | NothingFound string

datatype tls_error =
    LoadingCaCertificate load_error
  | AddingCaCertificate
  | BuildingVerifier
  | LoadingServerCertificate load_error
  | LoadingServerKey load_error
  | BuildingServerConfig

record ('cert, 'key, 'verifier, 'acceptor) tls_api =
  tls_open :: "string \<Rightarrow> string option"
  tls_pem_certs :: "string \<Rightarrow> (unit, 'cert) result list"
  tls_pem_private_key :: "string \<Rightarrow> (unit, 'key option) result"
  tls_root_accepts :: "'cert list \<Rightarrow> 'cert \<Rightarrow> bool"
  tls_client_verifier :: "'cert list \<Rightarrow> 'verifier option"
  tls_server_config :: "'verifier \<Rightarrow> 'cert list \<Rightarrow> 'key \<Rightarrow> 'acceptor option"

text \<open>\<open>collect\<close> into a result: the first error, or all values.\<close>

fun collect_results :: "('e, 'a) result list \<Rightarrow> ('e, 'a list) result" where
  "collect_results [] = Inr []"
| "collect_results (Inl e # rs) = Inl e"
| "collect_results (Inr a # rs) = and_then (collect_results rs) (\<lambda>as. Inr (a # as))"

definition with_context :: "('e \<Rightarrow> 'f) \<Rightarrow> ('e, 'a) result \<Rightarrow> ('f, 'a) result" where
  "with_context f r = (case r of Inl e \<Rightarrow> Inl (f e) | Inr a \<Rightarrow> Inr a)"

definition load_certs ::
  "('cert, 'key, 'verifier, 'acceptor) tls_api \<Rightarrow> string \<Rightarrow> (load_error, 'cert list) result" where
  "load_certs api path =
     and_then (ok_or (tls_open api path) (CannotOpen path)) (\<lambda>file.
     and_then (with_context (\<lambda>_. BadPem path) (collect_results (tls_pem_certs api file))) (\<lambda>certs.
     if certs = [] then Inl (NothingFound path) else Inr certs))"

definition load_private_key ::
  "('cert, 'key, 'verifier, 'acceptor) tls_api \<Rightarrow> string \<Rightarrow> (load_error, 'key) result" where
  "load_private_key api path =
     and_then (ok_or (tls_open api path) (CannotOpen path)) (\<lambda>file.
     and_then (with_context (\<lambda>_. BadPem path) (tls_pem_private_key api file)) (\<lambda>key.
     ok_or key (NothingFound path)))"

section \<open>The acceptor\<close>

record TlsConfig =
  cert_path :: string
  key_path :: string
  ca_cert_path :: string

fun add_to_root_store ::
  "('cert, 'key, 'verifier, 'acceptor) tls_api \<Rightarrow> 'cert list \<Rightarrow> 'cert list
     \<Rightarrow> (tls_error, 'cert list) result" where
  "add_to_root_store api root_store [] = Inr root_store"
| "add_to_root_store api root_store (cert # certs) =
     (if tls_root_accepts api root_store cert
      then add_to_root_store api (root_store @ [cert]) certs
      else Inl AddingCaCertificate)"

definition build_acceptor ::
  "('cert, 'key, 'verifier, 'acceptor) tls_api \<Rightarrow> TlsConfig \<Rightarrow> (tls_error, 'acceptor) result" where
  "build_acceptor api cfg =
     and_then (with_context LoadingCaCertificate (load_certs api (ca_cert_path cfg))) (\<lambda>ca_certs.
     and_then (add_to_root_store api [] ca_certs) (\<lambda>root_store.
     and_then (ok_or (tls_client_verifier api root_store) BuildingVerifier) (\<lambda>client_verifier.
     and_then (with_context LoadingServerCertificate (load_certs api (cert_path cfg))) (\<lambda>server_certs.
     and_then (with_context LoadingServerKey (load_private_key api (key_path cfg))) (\<lambda>server_key.
     ok_or (tls_server_config api client_verifier server_certs server_key) BuildingServerConfig)))))"

section \<open>Streams\<close>

datatype ('p, 't) MaybeTlsStream = Plaintext 'p | Tls 't

datatype 'a Poll = Ready 'a | Pending

text \<open>A poll of the stream is the poll of the variant; the buffer is what was read into it.\<close>

definition poll_read ::
  "('p \<Rightarrow> 'b \<Rightarrow> 'r Poll \<times> 'p \<times> 'b) \<Rightarrow> ('t \<Rightarrow> 'b \<Rightarrow> 'r Poll \<times> 't \<times> 'b) \<Rightarrow> ('p, 't) MaybeTlsStream \<Rightarrow> 'b
     \<Rightarrow> 'r Poll \<times> ('p, 't) MaybeTlsStream \<times> 'b" where
  "poll_read plain_read tls_read s buf =
     (case s of
        Plaintext p \<Rightarrow> (case plain_read p buf of (r, p, buf) \<Rightarrow> (r, Plaintext p, buf))
      | Tls t \<Rightarrow> (case tls_read t buf of (r, t, buf) \<Rightarrow> (r, Tls t, buf)))"

definition poll_write ::
  "('p \<Rightarrow> string \<Rightarrow> 'r Poll \<times> 'p) \<Rightarrow> ('t \<Rightarrow> string \<Rightarrow> 'r Poll \<times> 't) \<Rightarrow> ('p, 't) MaybeTlsStream \<Rightarrow> string
     \<Rightarrow> 'r Poll \<times> ('p, 't) MaybeTlsStream" where
  "poll_write plain_write tls_write s buf =
     (case s of
        Plaintext p \<Rightarrow> (case plain_write p buf of (r, p) \<Rightarrow> (r, Plaintext p))
      | Tls t \<Rightarrow> (case tls_write t buf of (r, t) \<Rightarrow> (r, Tls t)))"

definition poll_flush ::
  "('p \<Rightarrow> 'r Poll \<times> 'p) \<Rightarrow> ('t \<Rightarrow> 'r Poll \<times> 't) \<Rightarrow> ('p, 't) MaybeTlsStream
     \<Rightarrow> 'r Poll \<times> ('p, 't) MaybeTlsStream" where
  "poll_flush plain_flush tls_flush s =
     (case s of
        Plaintext p \<Rightarrow> (case plain_flush p of (r, p) \<Rightarrow> (r, Plaintext p))
      | Tls t \<Rightarrow> (case tls_flush t of (r, t) \<Rightarrow> (r, Tls t)))"

definition poll_shutdown ::
  "('p \<Rightarrow> 'r Poll \<times> 'p) \<Rightarrow> ('t \<Rightarrow> 'r Poll \<times> 't) \<Rightarrow> ('p, 't) MaybeTlsStream
     \<Rightarrow> 'r Poll \<times> ('p, 't) MaybeTlsStream" where
  "poll_shutdown plain_shutdown tls_shutdown s =
     (case s of
        Plaintext p \<Rightarrow> (case plain_shutdown p of (r, p) \<Rightarrow> (r, Plaintext p))
      | Tls t \<Rightarrow> (case tls_shutdown t of (r, t) \<Rightarrow> (r, Tls t)))"

section \<open>A proxy session\<close>

text \<open>
  The world of a session: the handshake of the acceptor, the connection to the local server, and
  the copy of bytes in both directions. The log has what the session did, in order.
\<close>

datatype copy_error = BrokenPipe | ConnectionReset | OtherCopyError

record ('tcp, 'acceptor, 't, 'local) proxy_world =
  handshake :: "'acceptor \<Rightarrow> 'tcp \<Rightarrow> (unit, 't) result"
  connect_local :: "string \<Rightarrow> (unit, 'local) result"
  copy_bidirectional :: "('tcp, 't) MaybeTlsStream \<Rightarrow> 'local \<Rightarrow> (copy_error, nat \<times> nat) result"

datatype ('tcp, 't, 'local) proxy_action =
    Handshake 'tcp
  | ConnectLocal string
  | Copy "('tcp, 't) MaybeTlsStream" 'local

datatype proxy_end =
    HandshakeFailed
  | LocalConnectFailed
  | SessionClosed nat nat
  | PeerDisconnected
  | SessionError

definition accept_tls ::
  "('tcp, 'acceptor, 't, 'local) proxy_world \<Rightarrow> 'tcp \<Rightarrow> 'acceptor
     \<Rightarrow> (unit, ('tcp, 't) MaybeTlsStream) result" where
  "accept_tls world tcp acceptor =
     and_then (handshake world acceptor tcp) (\<lambda>tls. Inr (Tls tls))"

definition spawn_tls_proxy ::
  "('tcp, 'acceptor, 't, 'local) proxy_world \<Rightarrow> 'tcp \<Rightarrow> 'acceptor \<Rightarrow> string
     \<Rightarrow> proxy_end \<times> ('tcp, 't, 'local) proxy_action list" where
  "spawn_tls_proxy world tcp acceptor iec104_local_addr =
     (case accept_tls world tcp acceptor of
        Inl _ \<Rightarrow> (HandshakeFailed, [Handshake tcp])
      | Inr tls_stream \<Rightarrow>
          (case connect_local world iec104_local_addr of
             Inl _ \<Rightarrow> (LocalConnectFailed, [Handshake tcp, ConnectLocal iec104_local_addr])
           | Inr conn \<Rightarrow>
               (case copy_bidirectional world tls_stream conn of
                  Inr (from_tls, from_local) \<Rightarrow> SessionClosed from_tls from_local
                | Inl e \<Rightarrow>
                    if e = BrokenPipe \<or> e = ConnectionReset then PeerDisconnected else SessionError,
                [Handshake tcp, ConnectLocal iec104_local_addr, Copy tls_stream conn])))"

section \<open>The listener\<close>

text \<open>\<open>Panicked\<close> stands for the \<open>expect\<close> on the three paths.\<close>

datatype listener_error = Panicked | AcceptorFailed tls_error | ListenerBindFailed string

record 'acceptor TlsListener =
  tl_bind :: string
  tl_local :: string
  tl_acceptor :: 'acceptor

definition local_addr :: "u16 \<Rightarrow> string" where
  "local_addr port = ''127.0.0.1:'' @ decimal (unat port)"

definition spawn_tls_listener_if_enabled ::
  "('cert, 'key, 'verifier, 'acceptor) tls_api \<Rightarrow> (string \<Rightarrow> bool) \<Rightarrow> Config
     \<Rightarrow> (listener_error, 'acceptor TlsListener option) result" where
  "spawn_tls_listener_if_enabled api binds config =
     (if \<not> tls_enabled config then Inr None
      else
        and_then (ok_or (tls_cert_path config) Panicked) (\<lambda>cert.
        and_then (ok_or (tls_key_path config) Panicked) (\<lambda>key.
        and_then (ok_or (tls_ca_cert_path config) Panicked) (\<lambda>ca.
        and_then (with_context AcceptorFailed (build_acceptor api
                    \<lparr>cert_path = cert, key_path = key, ca_cert_path = ca\<rparr>)) (\<lambda>acceptor.
        let tls_bind = iec104_bind_addr config @ '':'' @ decimal (unat (tls_port config)) in
        if binds tls_bind
        then Inr (Some \<lparr>tl_bind = tls_bind, tl_local = local_addr (iec104_port config),
                        tl_acceptor = acceptor\<rparr>)
        else Inl (ListenerBindFailed tls_bind))))))"

text \<open>The accept loop of the listener: a failed accept is logged and does not end it.\<close>

definition tls_accept_loop ::
  "('tcp, 'acceptor, 't, 'local) proxy_world \<Rightarrow> 'acceptor TlsListener \<Rightarrow> (unit, 'tcp) result list
     \<Rightarrow> (proxy_end \<times> ('tcp, 't, 'local) proxy_action list) list" where
  "tls_accept_loop world listener events =
     List.map_filter
       (\<lambda>event. case event of
          Inr tcp \<Rightarrow> Some (spawn_tls_proxy world tcp (tl_acceptor listener) (tl_local listener))
        | Inl _ \<Rightarrow> None) events"

section \<open>Lemmas\<close>

lemma with_context_Inr_iff: "with_context f r = Inr a \<longleftrightarrow> r = Inr a"
  by (cases r) (simp_all add: with_context_def)

lemma add_to_root_store_Inr: "add_to_root_store api root_store certs = Inr rs \<Longrightarrow> rs = root_store @ certs"
proof (induction certs arbitrary: root_store)
  case (Cons cert certs)
  then show ?case using Cons.IH [of "root_store @ [cert]"] by (simp split: if_splits)
qed simp

lemma load_certs_nonempty: "load_certs api path = Inr certs \<Longrightarrow> certs \<noteq> []"
  by (auto simp: load_certs_def and_then_Inr_iff split: if_splits)

lemma build_acceptor_Inr:
  assumes "build_acceptor api cfg = Inr acceptor"
  shows "\<exists>ca_certs verifier certs key.
    load_certs api (ca_cert_path cfg) = Inr ca_certs \<and> ca_certs \<noteq> [] \<and>
    tls_client_verifier api ca_certs = Some verifier \<and>
    load_certs api (cert_path cfg) = Inr certs \<and> load_private_key api (key_path cfg) = Inr key \<and>
    tls_server_config api verifier certs key = Some acceptor"
proof -
  from assms obtain ca_certs root_store verifier certs key where steps:
    "load_certs api (ca_cert_path cfg) = Inr ca_certs"
    "add_to_root_store api [] ca_certs = Inr root_store"
    "tls_client_verifier api root_store = Some verifier"
    "load_certs api (cert_path cfg) = Inr certs" "load_private_key api (key_path cfg) = Inr key"
    "tls_server_config api verifier certs key = Some acceptor"
    by (auto simp: build_acceptor_def and_then_Inr_iff with_context_Inr_iff ok_or_Inr_iff)
  from add_to_root_store_Inr [OF steps(2)] load_certs_nonempty [OF steps(1)] steps show ?thesis
    by auto
qed

section \<open>Properties\<close>

text \<open>C32: An acceptor always verifies clients: it is built from a verifier over exactly the certificates
  of the configured CA file, of which there is at least one, with the configured server
  certificates and key; if any of these files cannot be used there is no acceptor.\<close>

theorem acceptor_verifies_clients:
  assumes "build_acceptor api cfg = Inr acceptor"
  shows "\<exists>ca_certs verifier certs key.
    load_certs api (ca_cert_path cfg) = Inr ca_certs \<and> ca_certs \<noteq> [] \<and>
    tls_client_verifier api ca_certs = Some verifier \<and>
    load_certs api (cert_path cfg) = Inr certs \<and> load_private_key api (key_path cfg) = Inr key \<and>
    tls_server_config api verifier certs key = Some acceptor"
  using assms by (rule build_acceptor_Inr)

definition toy_tls :: "(nat, nat, nat list, nat list \<times> nat list \<times> nat) tls_api" where
  "toy_tls = \<lparr>tls_open = (\<lambda>path. if path = ''none'' then None else Some path),
     tls_pem_certs = (\<lambda>file. [Inr (length file)]), tls_pem_private_key = (\<lambda>file. Inr (Some 5)),
     tls_root_accepts = (\<lambda>roots cert. True), tls_client_verifier = Some,
     tls_server_config = (\<lambda>verifier certs key. Some (verifier, certs, key))\<rparr>"

lemmas toy_tls_eval = toy_tls_def build_acceptor_def load_certs_def load_private_key_def with_context_def

theorem acceptor_verifies_clients_witness:
  "build_acceptor toy_tls \<lparr>cert_path = ''a'', key_path = ''b'', ca_cert_path = ''abc''\<rparr> = Inr ([3], [1], 5) \<and>
   (\<exists>cas. load_certs toy_tls ''abc'' = Inr cas \<and> cas \<noteq> [] \<and> tls_client_verifier toy_tls cas = Some [3])"
proof -
  have ok: "build_acceptor toy_tls \<lparr>cert_path = ''a'', key_path = ''b'', ca_cert_path = ''abc''\<rparr>
      = Inr ([3], [1], 5)"
    by (simp add: toy_tls_eval)
  from acceptor_verifies_clients [OF ok] ok show ?thesis by (auto simp: toy_tls_def)
qed

text \<open>C31: No byte of a client reaches the local server before its handshake succeeded: without a
  successful handshake the session does nothing else, and what is copied is the stream the
  handshake returned.\<close>

theorem proxy_only_after_handshake:
  assumes "spawn_tls_proxy world tcp acceptor addr = (outcome, actions)"
  shows "(ConnectLocal a \<in> set actions \<longrightarrow>
      a = addr \<and> outcome \<noteq> HandshakeFailed \<and> is_ok (handshake world acceptor tcp)) \<and>
    (Copy stream conn \<in> set actions \<longrightarrow>
      (\<exists>tls. handshake world acceptor tcp = Inr tls \<and> stream = Tls tls) \<and>
      connect_local world addr = Inr conn)"
  using assms
  by (cases "handshake world acceptor tcp"; cases "connect_local world addr")
    (auto simp: spawn_tls_proxy_def accept_tls_def split: sum.splits if_splits prod.splits)

definition toy_world :: "(nat, nat, nat, nat) proxy_world" where
  "toy_world = \<lparr>handshake = (\<lambda>acceptor tcp. if tcp = acceptor then Inr tcp else Inl ()),
     connect_local = (\<lambda>addr. Inr (length addr)), copy_bidirectional = (\<lambda>s l. Inr (1, 2))\<rparr>"

theorem proxy_only_after_handshake_witness:
  "ConnectLocal ''x'' \<notin> set (snd (spawn_tls_proxy toy_world 1 2 ''x''))"
  using proxy_only_after_handshake [OF surjective_pairing, where world = toy_world and tcp = 1 and
      acceptor = 2 and addr = "''x''" and a = "''x''"]
  by (auto simp: toy_world_def)

text \<open>C33: Starting the TLS listener never panics on a configuration that loaded, and starts nothing when
  TLS is off; when it is on, success means an acceptor for the configured files, listening on
  the configured address and TLS port and forwarding to the loopback address.\<close>

theorem tls_listener_from_config:
  assumes "from_lookup get = Inr config"
  shows "spawn_tls_listener_if_enabled api binds config \<noteq> Inl Panicked \<and>
    (spawn_tls_listener_if_enabled api binds config = Inr None \<longleftrightarrow> \<not> tls_enabled config) \<and>
    (spawn_tls_listener_if_enabled api binds config = Inr (Some listener) \<longrightarrow>
      tl_bind listener = iec104_bind_addr config @ '':'' @ decimal (unat (tls_port config)) \<and>
      tl_local listener = local_addr (iec104_port config) \<and>
      (\<exists>cert key ca. get ''TLS_CERT_PATH'' = Some cert \<and> get ''TLS_KEY_PATH'' = Some key \<and>
         get ''TLS_CA_CERT_PATH'' = Some ca \<and>
         build_acceptor api \<lparr>cert_path = cert, key_path = key, ca_cert_path = ca\<rparr>
           = Inr (tl_acceptor listener)))"
proof (cases "tls_enabled config")
  case False
  then show ?thesis by (simp add: spawn_tls_listener_if_enabled_def)
next
  case True
  with loaded_tls_paths [OF assms] obtain cert key ca where paths:
    "get ''TLS_CERT_PATH'' = Some cert" "tls_cert_path config = Some cert"
    "get ''TLS_KEY_PATH'' = Some key" "tls_key_path config = Some key"
    "get ''TLS_CA_CERT_PATH'' = Some ca" "tls_ca_cert_path config = Some ca" by blast
  with True show ?thesis
    by (cases "build_acceptor api \<lparr>cert_path = cert, key_path = key, ca_cert_path = ca\<rparr>")
      (auto simp: spawn_tls_listener_if_enabled_def with_context_def Let_def)
qed

theorem tls_listener_from_config_witness:
  "\<exists>config listener. from_lookup tls_env = Inr config \<and>
     spawn_tls_listener_if_enabled toy_tls (\<lambda>_. True) config = Inr (Some listener) \<and>
     tl_bind listener = ''0.0.0.0'' @ '':'' @ decimal 19998"
proof -
  obtain config where c: "from_lookup tls_env = Inr config" and on: "tls_enabled config"
    and a: "iec104_bind_addr config = ''0.0.0.0''" "tls_port config = 19998"
    and paths: "tls_cert_path config = Some ''c.pem''" "tls_key_path config = Some ''k.pem''"
      "tls_ca_cert_path config = Some ''ca.pem''"
    by (simp add: tls_env_def load_defs parse_eval char_of_def bit_0)
  note facts = tls_listener_from_config [OF c, of toy_tls "\<lambda>_. True"]
  obtain listener where "spawn_tls_listener_if_enabled toy_tls (\<lambda>_. True) config = Inr (Some listener)"
    using on paths by (simp add: spawn_tls_listener_if_enabled_def toy_tls_eval)
  with facts c a show ?thesis by auto
qed

end
