(* ===== verification/TlsTests.thy ===== *)
theory TlsTests
  imports Tls MessageTests
begin

text \<open>
  The unit tests of \<open>src/src/tls.rs\<close>, replayed on the model: files that are missing, empty or no PEM.
  What they need of the file system and the PEM parser is \<open>rejects_bad_pem\<close>.
\<close>

definition write_temp_pem ::
  "string \<Rightarrow> string \<Rightarrow> ('cert, 'key, 'verifier, 'acceptor) tls_api
     \<Rightarrow> ('cert, 'key, 'verifier, 'acceptor) tls_api" where
  "write_temp_pem path content api = api\<lparr>tls_open := (tls_open api)(path \<mapsto> content)\<rparr>"

definition load_certs_rejects_empty_file ::
  "string \<Rightarrow> ('cert, 'key, 'verifier, 'acceptor) tls_api \<Rightarrow> bool" where
  "load_certs_rejects_empty_file path api \<longleftrightarrow> \<not> is_ok (load_certs (write_temp_pem path [] api) path)"

definition load_certs_rejects_non_pem ::
  "string \<Rightarrow> ('cert, 'key, 'verifier, 'acceptor) tls_api \<Rightarrow> bool" where
  "load_certs_rejects_non_pem path api \<longleftrightarrow>
     \<not> is_ok (load_certs (write_temp_pem path ''not a certificate'' api) path)"

definition load_certs_missing_file_is_error ::
  "('cert, 'key, 'verifier, 'acceptor) tls_api \<Rightarrow> bool" where
  "load_certs_missing_file_is_error api \<longleftrightarrow> \<not> is_ok (load_certs api ''/nonexistent/cert.pem'')"

definition load_private_key_missing_file_is_error ::
  "('cert, 'key, 'verifier, 'acceptor) tls_api \<Rightarrow> bool" where
  "load_private_key_missing_file_is_error api \<longleftrightarrow> \<not> is_ok (load_private_key api ''/nonexistent/key.pem'')"

definition load_private_key_rejects_empty_file ::
  "string \<Rightarrow> ('cert, 'key, 'verifier, 'acceptor) tls_api \<Rightarrow> bool" where
  "load_private_key_rejects_empty_file path api \<longleftrightarrow>
     \<not> is_ok (load_private_key (write_temp_pem path [] api) path)"

text \<open>Nothing is found in a text without a PEM block, and the two files do not exist.\<close>

definition rejects_bad_pem :: "('cert, 'key, 'verifier, 'acceptor) tls_api \<Rightarrow> bool" where
  "rejects_bad_pem api \<longleftrightarrow>
     tls_open api ''/nonexistent/cert.pem'' = None \<and> tls_open api ''/nonexistent/key.pem'' = None \<and>
     tls_pem_certs api [] = [] \<and> tls_pem_certs api ''not a certificate'' = [] \<and>
     tls_pem_private_key api [] = Inr None"

definition tls_tests ::
  "string \<Rightarrow> ('cert, 'key, 'verifier, 'acceptor) tls_api \<Rightarrow> bool list" where
  "tls_tests path api =
     [load_certs_rejects_empty_file path api, load_certs_rejects_non_pem path api,
      load_certs_missing_file_is_error api, load_private_key_missing_file_is_error api,
      load_private_key_rejects_empty_file path api]"

lemma tls_tests_pass:
  assumes "rejects_bad_pem api"
  shows "list_all (\<lambda>passed. passed) (tls_tests path api)"
  using assms
  by (simp add: tls_tests_def rejects_bad_pem_def load_certs_rejects_empty_file_def
      load_certs_rejects_non_pem_def load_certs_missing_file_is_error_def
      load_private_key_missing_file_is_error_def load_private_key_rejects_empty_file_def
      write_temp_pem_def load_certs_def load_private_key_def with_context_def)

end
