(* ===== verification/Spec2Isabelle.thy ===== *)
theory Spec2Isabelle
  imports SocketLiveness LibraryUse Wire MetricsPage MessageFormat ConfigTests RuntimeTests TlsTests
begin

text \<open>
  A verification development for the IEC 60870-5-104 bridge (\<open>src/src/\<close>, Rust).

  The program. JSON point updates come in from NATS JetStream or over a Unix socket, are read by
  the message schema, validated, cached per (common address, object address), and handed as
  spontaneous data to the IEC-104 server of the C library \<open>lib60870\<close>; a station interrogation is
  answered from the cache on the connection that asked. With TLS on, the plaintext server listens on
  the loopback address only and a TLS listener that verifies clients proxies to it. The input source
  is supervised: when it ends, server and cache stay and the source is rebuilt with backoff.

  Theories, in the order of the data flow:

  \<^item> \<open>Prelude\<close>: machine integers, results with early return (\<open>and_then\<close>, and \<open>then_do\<close> for
    operations that also change a state), instants and durations.
  \<^item> \<open>Floats\<close>: \<open>f64\<close> and \<open>f32\<close> as bit patterns; comparison, clamp, truncating and rounding casts
    as executable functions on the patterns, and what they mean on the reals.
  \<^item> \<open>Message\<close> (\<open>message.rs\<close>): the schema and the deserialiser its \<open>serde\<close> attributes ask for.
  \<^item> \<open>Validation\<close> (\<open>validation.rs\<close>): the checks in source order, and what a valid message is.
  \<^item> \<open>Sink\<close>: the \<open>DataSink\<close> trait as a record of state transformers, the library's value types (a
    time tag is what \<open>from_ms\<close> is asked for, its encoding is the library's), and the contract \<open>tracing_sink\<close> that dispatch relies on.
  \<^item> \<open>Asdu\<close> (\<open>asdu.rs\<close>): every foreign call is an entry of a log; the library's answers are a
    parameter (\<open>native_env\<close>); replaying a log gives the library's heap, with no result for a use
    after free, a double free or a reused live pointer. The contract \<open>native_lib\<close> asks the
    allocator for fresh pointers only.
  \<^item> \<open>Bridge\<close> (\<open>bridge.rs\<close>): quality and cause tables, type inference, output policy, dispatch,
    value conversions, time tags.
  \<^item> \<open>Sinks\<close> (\<open>bridge.rs\<close>): the live, the connection and the capturing sink, each interpreted as
    a tracing sink; delivery and accounting on a connection. The library's \<open>as_ms\<close>, which only the
    capturing sink of the tests calls, is a parameter of that sink.
  \<^item> \<open>Config\<close> (\<open>config.rs\<close>): loading, in the order the code evaluates it; which environments load,
    and the environment that writes a configuration down.
  \<^item> \<open>SocketPath\<close> (\<open>source.rs\<close>): claiming the socket path; the operating system is a record of
    calls, the contract \<open>unix_fs\<close> what the code relies on, \<open>tree_os\<close> a file system that meets it.
  \<^item> \<open>Source\<close> (\<open>source.rs\<close>): incoming messages and acknowledgement, the NATS source.
  \<^item> \<open>UnixClient\<close> (\<open>source.rs\<close>): authorization, line reading (with UTF-8), replies, forwarding,
    and a step relation in which client and acknowledgements interleave.
  \<^item> \<open>Supervisor\<close> (\<open>main.rs\<close>): cache, message handling, interrogation, message loop, supervision,
    metrics endpoint, the end of the program, and a step relation in which the three lock regions of message handling,
    interrogations and the tasks of the source interleave.
  \<^item> \<open>CacheHistory\<close>: the cache against the history of received messages, in every interleaving.
  \<^item> \<open>LibraryUse\<close>: what that relation does to the C library, in every interleaving, and what holds
    of an acknowledged message.
  \<^item> \<open>Wire\<close>: type, ranges, address and time of every point that message handling and
    interrogation give the library.
  \<^item> \<open>MetricsPage\<close>: a reader of HTTP responses and of the Prometheus text format, and what it
    reads from the metrics endpoint.
  \<^item> \<open>SocketServer\<close> (\<open>source.rs\<close>): the whole Unix socket source as one step relation: accept loop, a
    task per client, the bounded channel (\<open>UNIX_SOCKET_BACKLOG\<close>) with its back pressure, and the
    message loop with its acknowledgements. Contract \<open>channel\<close> is what the code relies on of the
    channel of \<open>tokio\<close>; \<open>list_channel\<close> meets it. Each run projects to a run of \<open>Supervisor\<close>.
  \<^item> \<open>SocketLiveness\<close>: its invariants, its termination measure, and what fair runs guarantee.
  \<^item> \<open>Tls\<close> (\<open>tls.rs\<close>, listener of \<open>main.rs\<close>): PEM loading, acceptor, streams, proxy session.
  \<^item> \<open>MessageFormat\<close>: the documented JSON form of a message, a specification of its deserialiser.
  \<^item> \<open>MessageTests\<close>, \<open>BridgeTests\<close>, \<open>ConfigTests\<close>, \<open>RuntimeTests\<close>, \<open>TlsTests\<close>: the unit tests of
    the crate (\<open>mod tests\<close> of each file), each as the predicate it asserts, evaluated on the model
    as a check of its conformance.
  \<^item> this theory: the start of the program and properties that span components.

  What the lemmas show. Values: what is put on the wire for every number, exactly and with the
  error of the float cast; for which timestamps the time tag asked for is exact; that points are
  well typed and keep their address from message to library. Dispatch: one call per point, the
  same request on every sink. Memory: nothing is leaked, freed twice or
  used after it is freed, whatever the library answers and however the threads interleave. Cache:
  last message per key wins; interrogations return one object per key. Order: acknowledgement
  comes after cache and send (a time-tagged point the library refuses to build is acknowledged all
  the same), confirmation before and termination after the points. Input: every
  message is read back from its documented form; every line and every NATS message has exactly one
  fate, no message is lost in the channel, all tasks of the socket source terminate, and in a fair
  run every line of an authorised client is answered, unless a peer stops reading its replies,
  which stops the bridge. Configuration: loading succeeds on exactly the acceptable environments and
  reads back every configuration. Supervision: the server runs until a shutdown signal, or until
  the first build of the source fails, which ends the program. Files: claiming the socket path
  destroys at most one file, the plain file or socket it names, stale or not. TLS: no byte before the handshake,
  plaintext on loopback only. Conformance: all 139 unit tests of the crate hold of the model.

  Parameters of the model are what is not under \<open>src/\<close>: \<open>lib60870\<close>, the JSON and RFC 3339 text
  parsers, the NATS client, \<open>rustls\<close>, the channel of \<open>tokio\<close>, the operating system, the iteration
  order of hash maps and the clock. Loops terminate by their arguments (bytes left to read,
  components of a path, events of a finite prefix of what the world does), so no fuel is used. A
  loop that waits for ever is a run whose event list ends without an outcome, or a step relation
  with no end; fairness is a predicate on its infinite runs.

  Not modelled: logging (\<open>init_logging\<close>, \<open>log_startup\<close> and the log macros), the text of error
  messages beyond what they are about, the scheduler of \<open>tokio\<close> beyond weak fairness, cancellation
  of a task between two reads, and the poisoning of a mutex whose holder panics. \<open>e2e_tests.rs\<close> composes the schema, the in-memory source and dispatch,
  which are modelled; the Python demo, the examples and the packaging are outside the program.
\<close>

section \<open>Start of the program\<close>

datatype startup_error =
    ConfigError config_error
  | ServerNotBuilt
  | TlsError listener_error

text \<open>
  \<open>main\<close> up to the supervisor: configuration, server, TLS listener; each failure ends the program.
\<close>

definition startup ::
  "('cert, 'key, 'verifier, 'acceptor) tls_api \<Rightarrow> (string \<Rightarrow> bool) \<Rightarrow> (ServerSetup \<Rightarrow> bool) \<Rightarrow> lookup
     \<Rightarrow> (startup_error, Config \<times> ServerSetup \<times> 'acceptor TlsListener option) result" where
  "startup api binds builds get =
     and_then (with_context ConfigError (from_lookup get)) (\<lambda>config.
     and_then (with_context (\<lambda>_. ServerNotBuilt) (build_iec_server builds config)) (\<lambda>server.
     and_then (with_context TlsError (spawn_tls_listener_if_enabled api binds config)) (\<lambda>listener.
     Inr (config, server, listener))))"

section \<open>Properties\<close>

text \<open>C18: With TLS on, the plaintext server is bound to the loopback address only and the TLS listener
  forwards to exactly that address and port; without TLS there is no TLS listener and the server
  is bound to the configured address.\<close>

theorem tls_confines_plaintext:
  assumes "startup api binds builds get = Inr (config, server, listener)"
  shows "started server \<and> local_port server = iec104_port config \<and>
    (if tls_enabled config
     then local_address server = ''127.0.0.1'' \<and>
       (\<exists>l. listener = Some l \<and> tl_local l = local_address server @ '':'' @ decimal (unat (local_port server)))
     else listener = None \<and> local_address server = iec104_bind_addr config)"
proof -
  have config: "from_lookup get = Inr config" and server: "build_iec_server builds config = Inr server"
    and tls: "spawn_tls_listener_if_enabled api binds config = Inr listener"
    using assms by (auto simp: startup_def and_then_Inr_iff with_context_Inr_iff)
  have "started server \<and> local_port server = iec104_port config \<and>
      local_address server = effective_iec104_bind_addr config"
    using server by (auto simp: build_iec_server_def Let_def split: if_splits)
  then show ?thesis
    using tls
    by (auto simp: effective_iec104_bind_addr_def spawn_tls_listener_if_enabled_def local_addr_def
        and_then_Inr_iff Let_def split: if_splits)
qed

theorem tls_confines_plaintext_witness:
  "\<exists>config server listener.
     startup toy_tls (\<lambda>_. True) (\<lambda>_. True) tls_env = Inr (config, server, listener) \<and>
     local_address server = ''127.0.0.1'' \<and> listener \<noteq> None"
proof -
  obtain config server listener where run:
    "startup toy_tls (\<lambda>_. True) (\<lambda>_. True) tls_env = Inr (config, server, listener)"
    and "tls_enabled config"
    by (simp add: startup_def tls_env_def load_defs parse_eval char_of_def bit_0 build_iec_server_def
        spawn_tls_listener_if_enabled_def toy_tls_eval)
  with tls_confines_plaintext [OF run] show ?thesis by auto
qed

section \<open>The crate's own tests\<close>

text \<open>
  What the tests assume of their surroundings: the texts they use are read by \<open>serde_json\<close>, the
  \<open>time\<close> crate and the PEM parser as documented, and the clock does not go back.
\<close>

definition test_surroundings ::
  "rfc3339_parser \<Rightarrow> rfc3339_formatter \<Rightarrow> (string \<Rightarrow> json option)
     \<Rightarrow> ('cert, 'key, 'verifier, 'acceptor) tls_api \<Rightarrow> OffsetDateTime \<Rightarrow> OffsetDateTime \<Rightarrow> bool" where
  "test_surroundings rfc format parse_text api before now \<longleftrightarrow>
     reads_test_times rfc format \<and> reads_offsets rfc \<and> reads_test_texts parse_text \<and>
     rejects_bad_pem api \<and> before \<le> now"

definition unit_tests ::
  "rfc3339_parser \<Rightarrow> rfc3339_formatter \<Rightarrow> (string \<Rightarrow> json option)
     \<Rightarrow> ('cert, 'key, 'verifier, 'acceptor) tls_api \<Rightarrow> string \<Rightarrow> OffsetDateTime \<Rightarrow> OffsetDateTime
     \<Rightarrow> bool list" where
  "unit_tests rfc format parse_text api path before now =
     message_tests rfc format @ bridge_tests rfc @ config_tests @
     (validation_tests @ source_tests parse_text rfc @ main_tests before now) @ tls_tests path api"

text \<open>The model agrees with the crate's own unit tests: each of the 139 tests of the message schema,
  validation, configuration, dispatch, output policy, sources, message handling, interrogation and
  TLS loading passes on it, whatever the parsers make of all other texts.\<close>

theorem unit_tests_pass:
  assumes "test_surroundings rfc format parse_text api before now"
  shows "length (unit_tests rfc format parse_text api path before now) = 139 \<and>
    list_all (\<lambda>passed. passed) (unit_tests rfc format parse_text api path before now)"
proof -
  have "reads_test_times rfc format" "reads_offsets rfc" "reads_test_texts parse_text"
    "rejects_bad_pem api" "before \<le> now"
    using assms by (simp_all add: test_surroundings_def)
  then have "list_all (\<lambda>passed. passed) (unit_tests rfc format parse_text api path before now)"
    unfolding unit_tests_def list_all_append
    by (intro conjI message_tests_pass bridge_tests_pass config_tests_pass tls_tests_pass
        runtime_tests_pass [unfolded list_all_append, THEN conjunct1]
        runtime_tests_pass [unfolded list_all_append, THEN conjunct2, THEN conjunct1]
        runtime_tests_pass [unfolded list_all_append, THEN conjunct2, THEN conjunct2])
  moreover have "length (unit_tests rfc format parse_text api path before now) = 139"
    by (simp add: unit_tests_def message_tests_def bridge_tests_def config_tests_def
        validation_tests_def source_tests_def main_tests_def tls_tests_def)
  ultimately show ?thesis by blast
qed

definition test_rfc :: rfc3339_parser where
  "test_rfc = map_of
     [(''2026-05-29T12:34:56.789Z'', OffsetDateTime 1780058096789000000),
      (''2026-05-29T12:34:56Z'', OffsetDateTime 1780058096000000000),
      (''2026-06-01T12:34:56.789Z'', OffsetDateTime 1780317296789000000),
      (''2026-06-01T14:34:56.789+02:00'', OffsetDateTime 1780317296789000000)]"

definition test_format :: rfc3339_formatter where
  "test_format t =
     (if t = OffsetDateTime 1780058096789000000 then Some ''2026-05-29T12:34:56.789Z'' else None)"

definition test_json :: "string \<Rightarrow> json option" where
  "test_json = map_of
     [(float_text, JObject [(''ioa'', int_json 1), (''value'', float_json (F64 0x4045400000000000)),
         (''type'', JString ''float'')]),
      (timed_text, JObject [(''ioa'', int_json 1001), (''value'', float_json (F64 0x40608CCCCCCCCCCD)),
         (''type'', JString ''float''), (''timestamp'', JString ''2026-06-01T12:34:56.789Z'')])]"

definition test_tls :: "(unit, unit, unit, unit) tls_api" where
  "test_tls = \<lparr>tls_open = Map.empty, tls_pem_certs = (\<lambda>_. []), tls_pem_private_key = (\<lambda>_. Inr None),
     tls_root_accepts = (\<lambda>_ _. True), tls_client_verifier = (\<lambda>_. None), tls_server_config = (\<lambda>_ _ _. None)\<rparr>"

theorem unit_tests_pass_witness:
  "\<exists>tests. tests = unit_tests test_rfc test_format test_json test_tls ''x.pem'' (OffsetDateTime 1) (OffsetDateTime 2) \<and>
     length tests = 139 \<and> list_all (\<lambda>passed. passed) tests"
proof -
  have "float_text \<noteq> timed_text" "bad_text \<noteq> float_text" "bad_text \<noteq> timed_text"
    by (simp_all add: float_text_def timed_text_def bad_text_def)
  then have "test_surroundings test_rfc test_format test_json test_tls (OffsetDateTime 1) (OffsetDateTime 2)"
    by (simp add: test_surroundings_def reads_test_times_def test_rfc_def test_format_def
        reads_offsets_def reads_test_texts_def test_json_def rejects_bad_pem_def test_tls_def
        less_eq_OffsetDateTime_def)
  from unit_tests_pass [OF this] show ?thesis by blast
qed

end
